(* ===== verification/Prelude.thy ===== *)
theory Prelude
  imports Main "HOL-Library.Word"
begin

text \<open>
  Shared vocabulary of the development: machine integers of the Rust code, the result of a
  Rust call (a value, an error value, or a panic), checked and wrapping arithmetic, and the
  little-endian byte encoding used by the guest memory, the tensors and the ONNX backend.

  The binaries are built with \<^verbatim>\<open>cargo build --release\<close> (\<^verbatim>\<open>scripts/build.c\<close>), so plain
  \<open>+\<close>, \<open>-\<close> and \<open>*\<close> on machine integers wrap around, as the operations of \<open>'a word\<close> do.
  The host is a 64-bit little-endian machine; \<open>usize\<close> values that are lengths or positions
  of lists are natural numbers.
\<close>

section \<open>Machine integers\<close>

type_synonym u8 = "8 word"
type_synonym u16 = "16 word"
type_synonym u32 = "32 word"
type_synonym u64 = "64 word"
type_synonym i32 = "32 word"

named_theorems outcome_simps \<open>unfolding of the result combinators\<close>
named_theorems unat_simps \<open>moving word arithmetic to natural numbers\<close>

definition u32_MAX :: nat where
  "u32_MAX = 2 ^ 32 - 1"

definition checked_add :: "'a::len word \<Rightarrow> 'a word \<Rightarrow> 'a word option" where
  "checked_add a b = (if unat a + unat b < 2 ^ LENGTH('a) then Some (a + b) else None)"

definition checked_mul :: "'a::len word \<Rightarrow> 'a word \<Rightarrow> 'a word option" where
  "checked_mul a b = (if unat a * unat b < 2 ^ LENGTH('a) then Some (a * b) else None)"

definition checked_sub :: "'a::len word \<Rightarrow> 'a word \<Rightarrow> 'a word option" where
  "checked_sub a b = (if unat b \<le> unat a then Some (a - b) else None)"

lemma checked_add_SomeD: "checked_add a b = Some c \<Longrightarrow> unat c = unat a + unat b"
  by (auto simp: checked_add_def unat_word_ariths split: if_splits)

lemma checked_add_NoneD:
  "checked_add (a :: 'a::len word) b = None \<Longrightarrow> 2 ^ LENGTH('a) \<le> unat a + unat b"
  by (auto simp: checked_add_def split: if_splits)

lemma checked_mul_SomeD: "checked_mul a b = Some c \<Longrightarrow> unat c = unat a * unat b"
  by (auto simp: checked_mul_def unat_word_ariths split: if_splits)

lemma checked_mul_NoneD:
  "checked_mul (a :: 'a::len word) b = None \<Longrightarrow> 2 ^ LENGTH('a) \<le> unat a * unat b"
  by (auto simp: checked_mul_def split: if_splits)

lemma checked_sub_SomeD: "checked_sub a b = Some c \<Longrightarrow> unat c = unat a - unat b \<and> unat b \<le> unat a"
  by (auto simp: checked_sub_def unat_sub word_le_nat_alt split: if_splits)

lemma checked_mul_one_left [simp]: "checked_mul 1 (a :: 'a::len word) = Some a"
proof -
  have "unat a < 2 ^ LENGTH('a)" by (rule unsigned_less)
  then have "unat (1 :: 'a word) * unat a < 2 ^ LENGTH('a)" by simp
  then show ?thesis by (simp add: checked_mul_def)
qed

lemma checked_mul_one_right [simp]: "checked_mul (a :: 'a::len word) 1 = Some a"
  by (simp add: checked_mul_def)

lemma unat_of_nat_u32: "n < 2 ^ 32 \<Longrightarrow> unat (of_nat n :: u32) = n"
  by (simp add: unat_of_nat take_bit_eq_mod)

lemma unat_min_u32: "unat (min a b :: u32) = min (unat a) (unat b)"
  by (simp add: min_def word_le_nat_alt)

lemma unat_diff_u32: "b \<le> a \<Longrightarrow> unat (a - b :: u32) = unat a - unat b"
  by (simp add: unat_sub)

lemma unat_u32_lt [unat_simps]: "unat (x :: u32) < 4294967296"
  using unsigned_less [of x] by simp

lemma unat_u8_lt [unat_simps]: "unat (x :: u8) < 256"
  using unsigned_less [of x] by simp

section \<open>Results of Rust calls\<close>

text \<open>
  A Rust function returns a value, returns an error, or panics (\<^verbatim>\<open>unwrap\<close> on the wrong
  variant, an index out of range, \<^verbatim>\<open>unimplemented!\<close>).
\<close>

datatype ('a, 'e) outcome = Ok 'a | Err 'e | Panic

fun bind_ok :: "('a, 'e) outcome \<Rightarrow> ('a \<Rightarrow> ('b, 'e) outcome) \<Rightarrow> ('b, 'e) outcome" where
  "bind_ok (Ok x) f = f x"
| "bind_ok (Err e) f = Err e"
| "bind_ok Panic f = Panic"

fun map_ok :: "('a \<Rightarrow> 'b) \<Rightarrow> ('a, 'e) outcome \<Rightarrow> ('b, 'e) outcome" where
  "map_ok f (Ok x) = Ok (f x)"
| "map_ok f (Err e) = Err e"
| "map_ok f Panic = Panic"

fun map_err :: "('e \<Rightarrow> 'f) \<Rightarrow> ('a, 'e) outcome \<Rightarrow> ('a, 'f) outcome" where
  "map_err f (Ok x) = Ok x"
| "map_err f (Err e) = Err (f e)"
| "map_err f Panic = Panic"

text \<open>\<open>unwrap\<close> turns an error into a panic; \<open>ok_or\<close> and \<open>expect\<close> do so for options.\<close>

fun unwrap :: "('a, 'e) outcome \<Rightarrow> ('a, 'f) outcome" where
  "unwrap (Ok x) = Ok x"
| "unwrap (Err e) = Panic"
| "unwrap Panic = Panic"

fun ok_or :: "'e \<Rightarrow> 'a option \<Rightarrow> ('a, 'e) outcome" where
  "ok_or e (Some x) = Ok x"
| "ok_or e None = Err e"

fun expect :: "'a option \<Rightarrow> ('a, 'e) outcome" where
  "expect (Some x) = Ok x"
| "expect None = Panic"

fun is_ok :: "('a, 'e) outcome \<Rightarrow> bool" where
  "is_ok (Ok x) = True"
| "is_ok (Err e) = False"
| "is_ok Panic = False"

lemma bind_ok_Ok_iff: "bind_ok m f = Ok y \<longleftrightarrow> (\<exists>x. m = Ok x \<and> f x = Ok y)"
  by (cases m) auto

lemma bind_ok_Err_iff: "bind_ok m f = Err e \<longleftrightarrow> m = Err e \<or> (\<exists>x. m = Ok x \<and> f x = Err e)"
  by (cases m) auto

lemma bind_ok_Panic_iff: "bind_ok m f = Panic \<longleftrightarrow> m = Panic \<or> (\<exists>x. m = Ok x \<and> f x = Panic)"
  by (cases m) auto

lemma map_ok_Ok_iff: "map_ok f m = Ok y \<longleftrightarrow> (\<exists>x. m = Ok x \<and> y = f x)"
  by (cases m) auto

lemma map_ok_Err_iff: "map_ok f m = Err e \<longleftrightarrow> m = Err e"
  by (cases m) auto

lemma map_ok_Panic_iff: "map_ok f m = Panic \<longleftrightarrow> m = Panic"
  by (cases m) auto

lemma map_err_Ok_iff: "map_err f m = Ok y \<longleftrightarrow> m = Ok y"
  by (cases m) auto

lemma map_err_Err_iff: "map_err f m = Err e \<longleftrightarrow> (\<exists>e'. m = Err e' \<and> e = f e')"
  by (cases m) auto

lemma map_err_Panic_iff: "map_err f m = Panic \<longleftrightarrow> m = Panic"
  by (cases m) auto

lemma ok_or_Ok_iff: "ok_or e m = Ok x \<longleftrightarrow> m = Some x"
  by (cases m) auto

lemma ok_or_Err_iff: "ok_or e m = Err e' \<longleftrightarrow> m = None \<and> e' = e"
  by (cases m) auto

lemma ok_or_Panic_iff: "ok_or e m \<noteq> Panic"
  by (cases m) auto

lemma expect_Ok_iff: "expect m = Ok x \<longleftrightarrow> m = Some x"
  by (cases m) auto

lemma expect_Panic_iff: "expect m = Panic \<longleftrightarrow> m = None"
  by (cases m) auto

lemma expect_not_Err: "expect m \<noteq> Err e"
  by (cases m) auto

lemma unwrap_Ok_iff: "unwrap m = Ok x \<longleftrightarrow> m = Ok x"
  by (cases m) auto

lemma unwrap_Panic_iff: "unwrap m = Panic \<longleftrightarrow> \<not> is_ok m"
  by (cases m) auto

lemma is_ok_iff: "is_ok m \<longleftrightarrow> (\<exists>x. m = Ok x)"
  by (cases m) auto

lemmas outcome_iffs [outcome_simps] =
  bind_ok_Ok_iff bind_ok_Err_iff bind_ok_Panic_iff
  map_ok_Ok_iff map_ok_Err_iff map_ok_Panic_iff
  map_err_Ok_iff map_err_Err_iff map_err_Panic_iff
  ok_or_Ok_iff ok_or_Err_iff ok_or_Panic_iff
  expect_Ok_iff expect_Panic_iff expect_not_Err unwrap_Ok_iff unwrap_Panic_iff is_ok_iff

text \<open>\<^verbatim>\<open>collect\<close> of an iterator of results: the values in order, or the first failure.\<close>

fun collect_ok :: "('a, 'e) outcome list \<Rightarrow> ('a list, 'e) outcome" where
  "collect_ok [] = Ok []"
| "collect_ok (r # rs) = bind_ok r (\<lambda>x. map_ok (\<lambda>xs. x # xs) (collect_ok rs))"

lemma collect_ok_Ok_iff: "collect_ok rs = Ok xs \<longleftrightarrow> rs = map Ok xs"
  by (induction rs arbitrary: xs) (auto simp: bind_ok_Ok_iff map_ok_Ok_iff)

text \<open>A loop over fallible calls that threads a state and leaves at the first failure.\<close>

fun try_each :: "('x \<Rightarrow> 's \<Rightarrow> (unit, 'e) outcome \<times> 's) \<Rightarrow> 'x list \<Rightarrow> 's \<Rightarrow> (unit, 'e) outcome \<times> 's" where
  "try_each f [] s = (Ok (), s)"
| "try_each f (x # xs) s =
     (case f x s of
        (Ok _, s1) \<Rightarrow> try_each f xs s1
      | (r, s1) \<Rightarrow> (r, s1))"

lemma try_each_append:
  "try_each f (xs @ ys) s =
     (case try_each f xs s of (Ok _, s1) \<Rightarrow> try_each f ys s1 | (r, s1) \<Rightarrow> (r, s1))"
  by (induction f xs s rule: try_each.induct) (simp_all split: prod.splits outcome.splits)

lemma try_each_map: "try_each f (map g xs) s = try_each (\<lambda>x. f (g x)) xs s"
  by (induction xs arbitrary: s) (simp_all split: prod.splits outcome.splits)

section \<open>Little-endian bytes\<close>

fun le_encode :: "nat \<Rightarrow> nat \<Rightarrow> u8 list" where
  "le_encode 0 v = []"
| "le_encode (Suc n) v = of_nat (v mod 256) # le_encode n (v div 256)"

fun le_decode :: "u8 list \<Rightarrow> nat" where
  "le_decode [] = 0"
| "le_decode (b # bs) = unat b + 256 * le_decode bs"

lemma length_le_encode [simp]: "length (le_encode n v) = n"
  by (induction n arbitrary: v) auto

lemma unat_of_nat_u8: "unat (of_nat n :: u8) = n mod 256"
  by (simp add: unat_of_nat)

lemma le_decode_encode: "le_decode (le_encode n v) = v mod 256 ^ n"
proof (induction n arbitrary: v)
  case 0
  then show ?case by simp
next
  case (Suc n)
  then show ?case
    by (simp add: unat_of_nat_u8 mod_mult2_eq)
qed

lemma le_decode_bound: "le_decode bs < 256 ^ length bs"
proof (induction bs)
  case Nil
  then show ?case by simp
next
  case (Cons b bs)
  have "unat b < 256" by (rule unat_u8_lt)
  with Cons show ?case by simp
qed

lemma le_encode_decode: "le_encode (length bs) (le_decode bs) = bs"
proof (induction bs)
  case Nil
  then show ?case by simp
next
  case (Cons b bs)
  have b: "unat b < 256" by (rule unat_u8_lt)
  then have "(unat b + 256 * le_decode bs) div 256 = le_decode bs"
    by simp
  with b Cons show ?case by simp
qed

lemma le_encode_4: "le_encode 4 v = [of_nat (v mod 256), of_nat (v div 256 mod 256),
    of_nat (v div 256 div 256 mod 256), of_nat (v div 256 div 256 div 256 mod 256)]"
proof -
  have "(4 :: nat) = Suc (Suc (Suc (Suc 0)))" by simp
  then show ?thesis by (simp only: le_encode.simps)
qed

section \<open>Lists\<close>

text \<open>Overwriting a range of a byte array, as a write through a checked slice does.\<close>

definition overwrite :: "'a list \<Rightarrow> nat \<Rightarrow> 'a list \<Rightarrow> 'a list" where
  "overwrite xs i ys = take i xs @ ys @ drop (i + length ys) xs"

lemma length_overwrite [simp]: "i + length ys \<le> length xs \<Longrightarrow> length (overwrite xs i ys) = length xs"
  by (simp add: overwrite_def)

lemma overwrite_same: "i + length ys \<le> length xs \<Longrightarrow> take (length ys) (drop i (overwrite xs i ys)) = ys"
  by (simp add: overwrite_def)

lemma overwrite_other:
  assumes "i + length ys \<le> length xs" and "j + n \<le> i \<or> i + length ys \<le> j"
  shows "take n (drop j (overwrite xs i ys)) = take n (drop j xs)"
proof (rule nth_equalityI)
  show "length (take n (drop j (overwrite xs i ys))) = length (take n (drop j xs))"
    using assms by simp
next
  fix k assume "k < length (take n (drop j (overwrite xs i ys)))"
  then have k: "k < n" "j + k < length xs" using assms by auto
  then show "take n (drop j (overwrite xs i ys)) ! k = take n (drop j xs) ! k"
    using assms by (auto simp: overwrite_def nth_append)
qed

lemma overwrite_nth:
  assumes "i + length ys \<le> length xs" and "k < length xs"
  shows "overwrite xs i ys ! k = (if i \<le> k \<and> k < i + length ys then ys ! (k - i) else xs ! k)"
  using assms by (auto simp: overwrite_def nth_append)

lemma overwrite_slice:
  assumes "length ys \<le> n" and "i + n \<le> length xs"
  shows "overwrite xs i (overwrite (take n (drop i xs)) 0 ys) = overwrite xs i ys"
  using assms by (intro nth_equalityI) (auto simp: overwrite_nth)

lemma concat_chunk:
  assumes "\<And>x. length (f x) = n" and "i < length xs"
  shows "take n (drop (n * i) (concat (map f xs))) = f (xs ! i)"
  using assms(2)
proof (induction xs arbitrary: i)
  case Nil
  then show ?case by simp
next
  case (Cons x xs)
  then show ?case
    using assms(1) by (cases i) simp_all
qed

lemma length_concat_const: "(\<And>x. length (f x) = n) \<Longrightarrow> length (concat (map f xs)) = length xs * n"
  by (induction xs) auto

end
