(* ===== verification/Wiggle_Memory.thy ===== *)
theory Wiggle_Memory
  imports Prelude
begin

text \<open>
  Guest memory as the host sees it: \<^verbatim>\<open>crates/wiggle/src/lib.rs\<close>, \<^verbatim>\<open>guest_type.rs\<close>,
  \<^verbatim>\<open>region.rs\<close> and \<^verbatim>\<open>error.rs\<close>. Every host function of the benchmark that touches the
  module's linear memory (the wasi-nn calls and the WASI calls) goes through it.

  A Rust slice is a host address and a sequence of bytes, so a guest memory keeps the host
  address of its first byte: the alignment test of \<^verbatim>\<open>validate_size_align\<close> looks at it. The
  trait \<^verbatim>\<open>GuestType\<close> is a record of its methods.
\<close>

section \<open>Regions and errors\<close>

record region =
  reg_start :: u32
  reg_len :: u32

definition overlaps :: "region \<Rightarrow> region \<Rightarrow> bool" where
  "overlaps self rhs =
     (if reg_len self = 0 \<or> reg_len rhs = 0 then False
      else
        let self_start = ucast (reg_start self) :: u64;
            self_end = self_start + ucast (reg_len self - 1);
            rhs_start = ucast (reg_start rhs) :: u64;
            rhs_end = rhs_start + ucast (reg_len rhs - 1)
        in if self_start \<le> rhs_start then rhs_start \<le> self_end else self_start \<le> rhs_end)"

definition region_extend :: "region \<Rightarrow> u32 \<Rightarrow> region" where
  "region_extend self k = \<lparr>reg_start = reg_start self, reg_len = reg_len self * k\<rparr>"

datatype guest_error =
    InvalidFlagValue string
  | InvalidEnumValue string
  | PtrOverflow
  | PtrOutOfBounds region
  | PtrNotAligned region u32
  | PtrBorrowed region
  | BorrowCheckerOutOfHandles
  | SliceLengthsDiffer
  | InFunc string string string guest_error
  | InvalidUtf8
  | TryFromIntError

section \<open>Memories and pointers\<close>

datatype guest_memory =
    Unshared (host_addr: nat) (mem_bytes: "u8 list")
  | Shared (host_addr: nat) (mem_bytes: "u8 list")

definition is_shared_memory :: "guest_memory \<Rightarrow> bool" where
  "is_shared_memory m = (case m of Shared _ _ \<Rightarrow> True | Unshared _ _ \<Rightarrow> False)"

text \<open>The bytes of a memory replaced: writes keep the address and the kind of memory.\<close>

fun with_bytes :: "guest_memory \<Rightarrow> u8 list \<Rightarrow> guest_memory" where
  "with_bytes (Unshared a _) bs = Unshared a bs"
| "with_bytes (Shared a _) bs = Shared a bs"

datatype 'p guest_ptr = GuestPtr (offset: 'p)

type_synonym sized_ptr = "u32 guest_ptr"
type_synonym slice_ptr = "(u32 \<times> u32) guest_ptr"

text \<open>Types with the same representation on the guest and the host (\<^verbatim>\<open>GuestTypeTransparent\<close>).\<close>

record 'a transparent =
  guest_size :: u32
  guest_align :: nat
  align_of :: nat
  from_le_bytes :: "u8 list \<Rightarrow> 'a"
  to_le_bytes :: "'a \<Rightarrow> u8 list"

record 'a guest_type =
  gt_size :: u32
  gt_align :: nat
  gt_read :: "guest_memory \<Rightarrow> sized_ptr \<Rightarrow> ('a, guest_error) outcome"
  gt_write :: "guest_memory \<Rightarrow> sized_ptr \<Rightarrow> 'a \<Rightarrow> (unit, guest_error) outcome \<times> guest_memory"

section \<open>Validation\<close>

definition validate_range :: "u32 \<Rightarrow> guest_memory \<Rightarrow> u32 \<Rightarrow> u32 \<Rightarrow> (nat \<times> nat, guest_error) outcome" where
  "validate_range sz m off n =
     bind_ok (ok_or PtrOverflow (checked_mul n sz)) (\<lambda>byte_len.
       let region = \<lparr>reg_start = off, reg_len = byte_len\<rparr>;
           lo = unat off;
           hi = unat off + unat byte_len
       in if length (mem_bytes m) < hi then Err (PtrOutOfBounds region) else Ok (lo, hi))"

text \<open>
  The standard library's \<^verbatim>\<open>slice::align_to\<close> on \<open>n\<close> bytes at address \<open>addr\<close>: the lengths of
  the unaligned head, of the middle (in elements) and of the tail.
\<close>

definition align_to :: "nat \<Rightarrow> nat \<Rightarrow> nat \<Rightarrow> nat \<Rightarrow> nat \<times> nat \<times> nat" where
  "align_to algn sz addr n =
     (let off = (algn - addr mod algn) mod algn
      in if n < off then (n, 0, 0) else (off, (n - off) div sz, (n - off) mod sz))"

text \<open>
  The result is the slice of cells as the index of its first byte and its number of elements.
\<close>

definition validate_size_align ::
  "'a transparent \<Rightarrow> guest_memory \<Rightarrow> u32 \<Rightarrow> u32 \<Rightarrow> (nat \<times> nat, guest_error) outcome" where
  "validate_size_align T m off n =
     bind_ok (validate_range (guest_size T) m off n) (\<lambda>(lo, hi).
       if guest_align T < align_of T then Panic
       else
         let (head, mid, tail) = align_to (align_of T) (unat (guest_size T)) (host_addr m + lo) (hi - lo)
         in if 0 < head \<or> 0 < tail
            then Err (PtrNotAligned \<lparr>reg_start = of_nat lo, reg_len = of_nat (hi - lo)\<rparr> (of_nat (guest_align T)))
            else Ok (lo, mid))"

section \<open>Access through slices\<close>

definition as_slice :: "guest_memory \<Rightarrow> slice_ptr \<Rightarrow> (u8 list option, guest_error) outcome" where
  "as_slice m ptr =
     bind_ok (validate_range 1 m (fst (offset ptr)) (snd (offset ptr))) (\<lambda>(lo, hi).
       case m of
         Unshared _ bs \<Rightarrow> Ok (Some (take (hi - lo) (drop lo bs)))
       | Shared _ _ \<Rightarrow> Ok None)"

definition as_slice_mut :: "guest_memory \<Rightarrow> slice_ptr \<Rightarrow> ((nat \<times> nat) option, guest_error) outcome" where
  "as_slice_mut m ptr =
     bind_ok (validate_range 1 m (fst (offset ptr)) (snd (offset ptr))) (\<lambda>(lo, hi).
       case m of
         Unshared _ _ \<Rightarrow> Ok (Some (lo, hi))
       | Shared _ _ \<Rightarrow> Ok None)"

text \<open>\<^verbatim>\<open>std::str::from_utf8\<close>: the well-formed byte sequences of the Unicode standard.\<close>

definition is_cont :: "u8 \<Rightarrow> bool" where
  "is_cont b = (0x80 \<le> b \<and> b \<le> 0xBF)"

fun from_utf8 :: "u8 list \<Rightarrow> bool" where
  "from_utf8 [] = True"
| "from_utf8 (a # bs) =
     (if a < 0x80 then from_utf8 bs
      else case bs of
        [] \<Rightarrow> False
      | b # cs \<Rightarrow>
         if 0xC2 \<le> a \<and> a \<le> 0xDF then is_cont b \<and> from_utf8 cs
         else case cs of
           [] \<Rightarrow> False
         | c # ds \<Rightarrow>
            if a = 0xE0 then 0xA0 \<le> b \<and> b \<le> 0xBF \<and> is_cont c \<and> from_utf8 ds
            else if a = 0xED then 0x80 \<le> b \<and> b \<le> 0x9F \<and> is_cont c \<and> from_utf8 ds
            else if 0xE1 \<le> a \<and> a \<le> 0xEF then is_cont b \<and> is_cont c \<and> from_utf8 ds
            else case ds of
              [] \<Rightarrow> False
            | d # es \<Rightarrow>
               if a = 0xF0 then 0x90 \<le> b \<and> b \<le> 0xBF \<and> is_cont c \<and> is_cont d \<and> from_utf8 es
               else if 0xF1 \<le> a \<and> a \<le> 0xF3 then is_cont b \<and> is_cont c \<and> is_cont d \<and> from_utf8 es
               else if a = 0xF4 then 0x80 \<le> b \<and> b \<le> 0x8F \<and> is_cont c \<and> is_cont d \<and> from_utf8 es
               else False)"

definition as_str :: "guest_memory \<Rightarrow> slice_ptr \<Rightarrow> (u8 list option, guest_error) outcome" where
  "as_str m ptr =
     bind_ok (as_slice m ptr) (\<lambda>r.
       case r of
         Some bs \<Rightarrow> if from_utf8 bs then Ok (Some bs) else Err InvalidUtf8
       | None \<Rightarrow> Ok None)"

definition chunks_of :: "nat \<Rightarrow> nat \<Rightarrow> 'a list \<Rightarrow> 'a list list" where
  "chunks_of n k xs = map (\<lambda>i. take n (drop (n * i) xs)) [0..<k]"

definition to_vec :: "'a transparent \<Rightarrow> guest_memory \<Rightarrow> slice_ptr \<Rightarrow> ('a list, guest_error) outcome" where
  "to_vec T m ptr =
     bind_ok (validate_size_align T m (fst (offset ptr)) (snd (offset ptr))) (\<lambda>(lo, n).
       Ok (map (from_le_bytes T) (chunks_of (unat (guest_size T)) n (drop lo (mem_bytes m)))))"

definition copy_from_slice ::
  "'a transparent \<Rightarrow> guest_memory \<Rightarrow> 'a list \<Rightarrow> slice_ptr \<Rightarrow> (unit, guest_error) outcome \<times> guest_memory" where
  "copy_from_slice T m src ptr =
     (if unat (snd (offset ptr)) \<noteq> length src then (Err SliceLengthsDiffer, m)
      else if src = [] then (Ok (), m)
      else case validate_size_align T m (fst (offset ptr)) (snd (offset ptr)) of
          Err e \<Rightarrow> (Err e, m)
        | Panic \<Rightarrow> (Panic, m)
        | Ok (lo, n) \<Rightarrow>
            if n \<noteq> length src then (Panic, m)
            else (Ok (), with_bytes m (overwrite (mem_bytes m) lo (concat (map (to_le_bytes T) src)))))"

definition as_cow :: "u8 transparent \<Rightarrow> guest_memory \<Rightarrow> slice_ptr \<Rightarrow> (u8 list, guest_error) outcome" where
  "as_cow T m ptr =
     (case m of
        Unshared _ _ \<Rightarrow>
          bind_ok (as_slice m ptr) (\<lambda>r. case r of Some bs \<Rightarrow> Ok bs | None \<Rightarrow> Panic)
      | Shared _ _ \<Rightarrow> to_vec T m ptr)"

definition as_cow_str :: "u8 transparent \<Rightarrow> guest_memory \<Rightarrow> slice_ptr \<Rightarrow> (u8 list, guest_error) outcome" where
  "as_cow_str T m ptr =
     bind_ok (as_cow T m ptr) (\<lambda>bs. if from_utf8 bs then Ok bs else Err InvalidUtf8)"

section \<open>Guest types\<close>

text \<open>The macro \<^verbatim>\<open>integer_primitives!\<close>: one implementation for every integer type.\<close>

definition prim_read :: "'a transparent \<Rightarrow> guest_memory \<Rightarrow> sized_ptr \<Rightarrow> ('a, guest_error) outcome" where
  "prim_read T m ptr =
     bind_ok (validate_size_align T m (offset ptr) 1) (\<lambda>(lo, n).
       if n = 0 then Panic
       else Ok (from_le_bytes T (take (unat (guest_size T)) (drop lo (mem_bytes m)))))"

definition prim_write ::
  "'a transparent \<Rightarrow> guest_memory \<Rightarrow> sized_ptr \<Rightarrow> 'a \<Rightarrow> (unit, guest_error) outcome \<times> guest_memory" where
  "prim_write T m ptr v =
     (case validate_size_align T m (offset ptr) 1 of
        Err e \<Rightarrow> (Err e, m)
      | Panic \<Rightarrow> (Panic, m)
      | Ok (lo, n) \<Rightarrow>
          if n = 0 then (Panic, m)
          else (Ok (), with_bytes m (overwrite (mem_bytes m) lo (to_le_bytes T v))))"

definition integer_primitive :: "'a transparent \<Rightarrow> 'a guest_type" where
  "integer_primitive T =
     \<lparr>gt_size = guest_size T, gt_align = guest_align T,
      gt_read = prim_read T, gt_write = prim_write T\<rparr>"

definition word_prim :: "nat \<Rightarrow> 'a::len word transparent" where
  "word_prim n =
     \<lparr>guest_size = of_nat n, guest_align = n, align_of = n,
      from_le_bytes = (\<lambda>bs. of_nat (le_decode bs)), to_le_bytes = (\<lambda>w. le_encode n (unat w))\<rparr>"

definition u8_prim :: "u8 transparent" where "u8_prim = word_prim 1"
definition u16_prim :: "u16 transparent" where "u16_prim = word_prim 2"
definition u32_prim :: "u32 transparent" where "u32_prim = word_prim 4"
definition u64_prim :: "u64 transparent" where "u64_prim = word_prim 8"

text \<open>The macro \<^verbatim>\<open>float_primitives!\<close> reads and writes the bits; a float is its bits here.\<close>

type_synonym f32 = "32 word"

definition f32_guest_type :: "f32 guest_type" where
  "f32_guest_type =
     \<lparr>gt_size = guest_size u32_prim, gt_align = guest_align u32_prim,
      gt_read = (\<lambda>m ptr. map_ok (\<lambda>bits. bits) (prim_read u32_prim m ptr)),
      gt_write = (\<lambda>m ptr v. prim_write u32_prim m ptr v)\<rparr>"

section \<open>Pointer arithmetic\<close>

definition ptr_add :: "u32 \<Rightarrow> sized_ptr \<Rightarrow> u32 \<Rightarrow> (sized_ptr, guest_error) outcome" where
  "ptr_add sz p amt =
     (case Option.bind (checked_mul amt sz) (\<lambda>d. checked_add (offset p) d) of
        Some off \<Rightarrow> Ok (GuestPtr off)
      | None \<Rightarrow> Err PtrOverflow)"

definition as_array :: "sized_ptr \<Rightarrow> u32 \<Rightarrow> slice_ptr" where
  "as_array p elems = GuestPtr (offset p, elems)"

definition offset_base :: "slice_ptr \<Rightarrow> u32" where
  "offset_base p = fst (offset p)"

definition ptr_len :: "slice_ptr \<Rightarrow> u32" where
  "ptr_len p = snd (offset p)"

definition as_ptr :: "slice_ptr \<Rightarrow> sized_ptr" where
  "as_ptr p = GuestPtr (offset_base p)"

definition ptr_iter :: "u32 \<Rightarrow> slice_ptr \<Rightarrow> (sized_ptr, guest_error) outcome list" where
  "ptr_iter sz p = map (\<lambda>i. ptr_add sz (as_ptr p) (of_nat i)) [0..<unat (ptr_len p)]"

definition ptr_get :: "u32 \<Rightarrow> slice_ptr \<Rightarrow> u32 \<Rightarrow> (sized_ptr option, guest_error) outcome" where
  "ptr_get sz p index =
     (if index < ptr_len p then map_ok Some (unwrap (ptr_add sz (as_ptr p) index)) else Ok None)"

definition get_range :: "u32 \<Rightarrow> slice_ptr \<Rightarrow> u32 \<Rightarrow> u32 \<Rightarrow> (slice_ptr option, guest_error) outcome" where
  "get_range sz p lo hi =
     (if hi < lo then Ok None
      else
        let range_length = hi - lo
        in if lo \<le> ptr_len p \<and> hi \<le> ptr_len p
           then map_ok (\<lambda>q. Some (as_array q range_length)) (unwrap (ptr_add sz (as_ptr p) lo))
           else Ok None)"

section \<open>Pointers in memory\<close>

definition ptr_guest_type :: "sized_ptr guest_type" where
  "ptr_guest_type =
     \<lparr>gt_size = guest_size u32_prim, gt_align = guest_align u32_prim,
      gt_read = (\<lambda>m ptr. bind_ok (prim_read u32_prim m ptr) (\<lambda>off. Ok (GuestPtr off))),
      gt_write = (\<lambda>m ptr v. prim_write u32_prim m ptr (offset v))\<rparr>"

definition slice_ptr_read :: "guest_memory \<Rightarrow> sized_ptr \<Rightarrow> (slice_ptr, guest_error) outcome" where
  "slice_ptr_read m ptr =
     bind_ok (prim_read u32_prim m ptr) (\<lambda>off.
     bind_ok (ptr_add (guest_size u32_prim) ptr 1) (\<lambda>p1.
     bind_ok (prim_read u32_prim m p1) (\<lambda>n.
       Ok (as_array (GuestPtr off) n))))"

definition slice_ptr_write ::
  "guest_memory \<Rightarrow> sized_ptr \<Rightarrow> slice_ptr \<Rightarrow> (unit, guest_error) outcome \<times> guest_memory" where
  "slice_ptr_write m ptr v =
     (case prim_write u32_prim m ptr (fst (offset v)) of
        (Ok _, m1) \<Rightarrow>
          (case ptr_add (guest_size u32_prim) ptr 1 of
             Ok p1 \<Rightarrow> prim_write u32_prim m1 p1 (snd (offset v))
           | Err e \<Rightarrow> (Err e, m1)
           | Panic \<Rightarrow> (Panic, m1))
      | (r, m1) \<Rightarrow> (r, m1))"

definition slice_ptr_guest_type :: "slice_ptr guest_type" where
  "slice_ptr_guest_type =
     \<lparr>gt_size = guest_size u32_prim * 2, gt_align = guest_align u32_prim,
      gt_read = slice_ptr_read, gt_write = slice_ptr_write\<rparr>"

definition mem_read :: "'a guest_type \<Rightarrow> guest_memory \<Rightarrow> sized_ptr \<Rightarrow> ('a, guest_error) outcome" where
  "mem_read T m ptr = gt_read T m ptr"

definition mem_write ::
  "'a guest_type \<Rightarrow> guest_memory \<Rightarrow> sized_ptr \<Rightarrow> 'a \<Rightarrow> (unit, guest_error) outcome \<times> guest_memory" where
  "mem_write T m ptr v = gt_write T m ptr v"

section \<open>Regions\<close>

definition region_addrs :: "region \<Rightarrow> nat set" where
  "region_addrs r = {unat (reg_start r)..<unat (reg_start r) + unat (reg_len r)}"

lemma u64_of_u32_end:
  assumes "n \<noteq> (0 :: u32)"
  shows "unat (ucast (s :: u32) + ucast (n - 1) :: u64) = unat s + unat n - 1"
proof -
  have n: "unat (n - 1) = unat n - 1"
    using assms by (simp add: unat_minus_one)
  have b: "unat s < 4294967296" "unat n < 4294967296"
    by (rule unat_u32_lt)+
  then have "unat (ucast s :: u64) = unat s" "unat (ucast (n - 1) :: u64) = unat n - 1"
    by (simp_all add: unsigned_ucast_eq n take_bit_nat_eq_self)
  moreover have "0 < unat n" using assms by (simp add: unat_gt_0)
  ultimately show ?thesis using b by (simp add: unat_word_ariths)
qed

lemma overlaps_iff: "overlaps r s \<longleftrightarrow> region_addrs r \<inter> region_addrs s \<noteq> {}"
proof (cases "reg_len r = 0 \<or> reg_len s = 0")
  case True
  then show ?thesis by (auto simp: overlaps_def region_addrs_def)
next
  case False
  then have r: "reg_len r \<noteq> 0" and s: "reg_len s \<noteq> 0" by auto
  then have pos: "0 < unat (reg_len r)" "0 < unat (reg_len s)" by (simp_all add: unat_gt_0)
  have st: "unat (ucast x :: u64) = unat x" for x :: u32
    using unat_u32_lt [of x] by (simp add: unsigned_ucast_eq take_bit_nat_eq_self)
  have "overlaps r s \<longleftrightarrow>
      (if unat (reg_start r) \<le> unat (reg_start s)
       then unat (reg_start s) \<le> unat (reg_start r) + unat (reg_len r) - 1
       else unat (reg_start r) \<le> unat (reg_start s) + unat (reg_len s) - 1)"
    using r s by (simp add: overlaps_def Let_def word_le_nat_alt u64_of_u32_end st)
  also have "\<dots> \<longleftrightarrow> max (unat (reg_start r)) (unat (reg_start s)) \<in> region_addrs r \<inter> region_addrs s"
    using pos by (auto simp: region_addrs_def max_def)
  also have "\<dots> \<longleftrightarrow> region_addrs r \<inter> region_addrs s \<noteq> {}"
    by (auto simp: region_addrs_def)
  finally show ?thesis .
qed

section \<open>What validation accepts\<close>

definition in_bounds :: "u32 \<Rightarrow> guest_memory \<Rightarrow> u32 \<Rightarrow> u32 \<Rightarrow> bool" where
  "in_bounds sz m off n =
     (unat n * unat sz < 2 ^ 32 \<and> unat off + unat n * unat sz \<le> length (mem_bytes m))"

lemma checked_mul_u32:
  "checked_mul (n :: u32) sz = (if unat n * unat sz < 2 ^ 32 then Some (n * sz) else None)"
  by (simp add: checked_mul_def)

lemma unat_mult_u32: "unat n * unat sz < 2 ^ 32 \<Longrightarrow> unat ((n :: u32) * sz) = unat n * unat sz"
  by (simp add: unat_word_ariths)

lemma validate_range_eq:
  "validate_range sz m off n =
     (if \<not> unat n * unat sz < 2 ^ 32 then Err PtrOverflow
      else if in_bounds sz m off n then Ok (unat off, unat off + unat n * unat sz)
      else Err (PtrOutOfBounds \<lparr>reg_start = off, reg_len = n * sz\<rparr>))"
  by (simp add: validate_range_def checked_mul_u32 in_bounds_def Let_def unat_mult_u32)

lemma validate_range_Ok_iff:
  "validate_range sz m off n = Ok r \<longleftrightarrow>
     in_bounds sz m off n \<and> r = (unat off, unat off + unat n * unat sz)"
  by (auto simp: validate_range_eq in_bounds_def)

lemma validate_range_not_Panic: "validate_range sz m off n \<noteq> Panic"
  by (simp add: validate_range_eq)

lemma with_bytes_simps [simp]:
  "mem_bytes (with_bytes m bs) = bs"
  "host_addr (with_bytes m bs) = host_addr m"
  "is_shared_memory (with_bytes m bs) = is_shared_memory m"
  by (cases m; simp add: is_shared_memory_def)+

text \<open>
  The contract of \<^verbatim>\<open>GuestTypeTransparent\<close>: the size is a positive multiple of the alignment,
  the bytes of a value have that size and determine it.
\<close>

locale transparent_type =
  fixes T :: "'a transparent"
  assumes align_pos: "0 < align_of T"
    and size_pos: "0 < unat (guest_size T)"
    and align_dvd: "align_of T dvd unat (guest_size T)"
    and align_le: "align_of T \<le> guest_align T"
    and length_to_bytes: "length (to_le_bytes T v) = unat (guest_size T)"
    and from_to_bytes: "from_le_bytes T (to_le_bytes T v) = v"
begin

definition aligned_at :: "guest_memory \<Rightarrow> u32 \<Rightarrow> bool" where
  "aligned_at m off = (align_of T dvd host_addr m + unat off)"

lemma align_to_multiple:
  assumes "0 < n"
  shows "align_to (align_of T) (unat (guest_size T)) a (n * unat (guest_size T)) =
    (if align_of T dvd a then (0, n, 0)
     else (align_of T - a mod align_of T,
           (n * unat (guest_size T) - (align_of T - a mod align_of T)) div unat (guest_size T),
           (n * unat (guest_size T) - (align_of T - a mod align_of T)) mod unat (guest_size T)))"
proof -
  have "align_of T \<le> unat (guest_size T)"
    using align_dvd size_pos by (rule dvd_imp_le)
  also have "\<dots> \<le> n * unat (guest_size T)" using assms by simp
  finally have le: "align_of T \<le> n * unat (guest_size T)" .
  show ?thesis
  proof (cases "align_of T dvd a")
    case True
    then show ?thesis using size_pos by (simp add: align_to_def dvd_eq_mod_eq_0)
  next
    case False
    then have "a mod align_of T \<noteq> 0" by (simp add: dvd_eq_mod_eq_0)
    then have "(align_of T - a mod align_of T) mod align_of T = align_of T - a mod align_of T"
      using align_pos by simp
    moreover have "\<not> n * unat (guest_size T) < align_of T - a mod align_of T"
      using le by linarith
    ultimately show ?thesis using False by (simp add: align_to_def Let_def)
  qed
qed

lemma validate_size_align_Ok_iff:
  "validate_size_align T m off n = Ok r \<longleftrightarrow>
     in_bounds (guest_size T) m off n \<and> (n = 0 \<or> aligned_at m off) \<and> r = (unat off, unat n)"
proof (cases "n = 0")
  case True
  then show ?thesis
    using align_le by (auto simp: validate_size_align_def validate_range_eq in_bounds_def align_to_def Let_def)
next
  case False
  then have "0 < unat n" by (simp add: unat_gt_0)
  from align_to_multiple [OF this] False show ?thesis
    using align_le align_pos
    by (auto simp: validate_size_align_def validate_range_eq aligned_at_def in_bounds_def)
qed

lemma validate_size_align_not_Panic: "validate_size_align T m off n \<noteq> Panic"
  using align_le
  by (auto simp: validate_size_align_def bind_ok_Panic_iff validate_range_not_Panic split: prod.splits)

lemma validate_one_Ok_iff:
  "validate_size_align T m off 1 = Ok r \<longleftrightarrow>
     unat off + unat (guest_size T) \<le> length (mem_bytes m) \<and> aligned_at m off \<and> r = (unat off, 1)"
  using unat_u32_lt [of "guest_size T"]
  by (auto simp: validate_size_align_Ok_iff in_bounds_def)

lemma prim_write_Ok_iff:
  "prim_write T m p v = (Ok (), m') \<longleftrightarrow>
     unat (offset p) + unat (guest_size T) \<le> length (mem_bytes m) \<and> aligned_at m (offset p) \<and>
     m' = with_bytes m (overwrite (mem_bytes m) (unat (offset p)) (to_le_bytes T v))"
proof (cases "unat (offset p) + unat (guest_size T) \<le> length (mem_bytes m) \<and> aligned_at m (offset p)")
  case True
  then have "validate_size_align T m (offset p) 1 = Ok (unat (offset p), 1)"
    by (simp add: validate_one_Ok_iff)
  with True show ?thesis by (auto simp: prim_write_def)
next
  case False
  then have "validate_size_align T m (offset p) 1 \<noteq> Ok r" for r
    by (auto simp: validate_one_Ok_iff)
  with False show ?thesis by (auto simp: prim_write_def split: outcome.splits)
qed

lemma prim_write_fail: "prim_write T m p v = (r, m') \<Longrightarrow> r \<noteq> Ok () \<Longrightarrow> m' = m"
  by (auto simp: prim_write_def split: outcome.splits if_splits)

lemma prim_read_Ok_iff:
  "prim_read T m p = Ok v \<longleftrightarrow>
     unat (offset p) + unat (guest_size T) \<le> length (mem_bytes m) \<and> aligned_at m (offset p) \<and>
     v = from_le_bytes T (take (unat (guest_size T)) (drop (unat (offset p)) (mem_bytes m)))"
  by (auto simp: prim_read_def bind_ok_Ok_iff validate_one_Ok_iff)

lemma prim_write_read: "prim_write T m p v = (Ok (), m') \<Longrightarrow> prim_read T m' p = Ok v"
  by (auto simp: prim_write_Ok_iff prim_read_Ok_iff aligned_at_def length_to_bytes from_to_bytes
      overwrite_same [where ys = "to_le_bytes T v", unfolded length_to_bytes])

lemma validate_size_align_cong:
  assumes "length (mem_bytes m') = length (mem_bytes m)" and "host_addr m' = host_addr m"
  shows "validate_size_align T m' off n = validate_size_align T m off n"
  unfolding validate_size_align_def validate_range_def assms by (rule refl)

lemma to_vec_Ok_iff:
  "to_vec T m p = Ok vs \<longleftrightarrow>
     in_bounds (guest_size T) m (fst (offset p)) (snd (offset p)) \<and>
     (snd (offset p) = 0 \<or> aligned_at m (fst (offset p))) \<and>
     vs = map (\<lambda>i. from_le_bytes T (take (unat (guest_size T))
            (drop (unat (fst (offset p)) + unat (guest_size T) * i) (mem_bytes m)))) [0..<unat (snd (offset p))]"
  by (auto simp: to_vec_def bind_ok_Ok_iff validate_size_align_Ok_iff chunks_of_def add.commute)

lemma to_vec_not_Panic: "to_vec T m p \<noteq> Panic"
  by (auto simp: to_vec_def bind_ok_Panic_iff validate_size_align_not_Panic)

lemma copy_from_slice_Ok_iff:
  assumes "src \<noteq> []"
  shows "copy_from_slice T m src p = (Ok (), m') \<longleftrightarrow>
     unat (snd (offset p)) = length src \<and>
     in_bounds (guest_size T) m (fst (offset p)) (snd (offset p)) \<and> aligned_at m (fst (offset p)) \<and>
     m' = with_bytes m (overwrite (mem_bytes m) (unat (fst (offset p))) (concat (map (to_le_bytes T) src)))"
proof (cases "unat (snd (offset p)) = length src \<and>
    in_bounds (guest_size T) m (fst (offset p)) (snd (offset p)) \<and> aligned_at m (fst (offset p))")
  case True
  then have "validate_size_align T m (fst (offset p)) (snd (offset p)) =
      Ok (unat (fst (offset p)), unat (snd (offset p)))"
    by (simp add: validate_size_align_Ok_iff)
  with True assms show ?thesis by (auto simp: copy_from_slice_def)
next
  case False
  have "snd (offset p) = 0 \<Longrightarrow> unat (snd (offset p)) \<noteq> length src"
    using assms by simp
  with False have "unat (snd (offset p)) \<noteq> length src \<or>
      (\<forall>r. validate_size_align T m (fst (offset p)) (snd (offset p)) \<noteq> Ok r)"
    by (auto simp: validate_size_align_Ok_iff)
  with False assms show ?thesis
    by (auto simp: copy_from_slice_def split: outcome.splits if_splits)
qed

lemma copy_from_slice_to_vec:
  assumes "src \<noteq> []" and "copy_from_slice T m src p = (Ok (), m')"
  shows "to_vec T m' p = Ok src"
proof -
  let ?o = "unat (fst (offset p))" and ?s = "unat (guest_size T)"
  let ?bs = "concat (map (to_le_bytes T) src)"
  from assms have n: "unat (snd (offset p)) = length src"
    and b: "in_bounds (guest_size T) m (fst (offset p)) (snd (offset p))"
    and a: "aligned_at m (fst (offset p))"
    and m': "m' = with_bytes m (overwrite (mem_bytes m) ?o ?bs)"
    by (auto simp: copy_from_slice_Ok_iff)
  have len: "length ?bs = length src * ?s"
    by (rule length_concat_const) (rule length_to_bytes)
  with b n have fits: "?o + length ?bs \<le> length (mem_bytes m)"
    by (simp add: in_bounds_def)
  have "take ?s (drop (?o + ?s * i) (mem_bytes m')) = to_le_bytes T (src ! i)" if "i < length src" for i
  proof -
    have "Suc i * ?s \<le> length src * ?s"
      using that by (intro mult_le_mono1) simp
    then have i: "?s * i + ?s \<le> length ?bs" using len by (simp add: algebra_simps)
    have "drop (?o + ?s * i) (mem_bytes m') = drop (?s * i) (drop ?o (mem_bytes m'))"
      by (simp add: add.commute)
    also have "drop ?o (mem_bytes m') = ?bs @ drop (?o + length ?bs) (mem_bytes m)"
      using fits by (simp add: m' overwrite_def)
    finally have "take ?s (drop (?o + ?s * i) (mem_bytes m')) = take ?s (drop (?s * i) ?bs)"
      using i by simp
    also have "\<dots> = to_le_bytes T (src ! i)"
      using that by (intro concat_chunk length_to_bytes)
    finally show ?thesis .
  qed
  then have "map (\<lambda>i. from_le_bytes T (take ?s (drop (?o + ?s * i) (mem_bytes m')))) [0..<length src] = src"
    by (intro nth_equalityI) (simp_all add: from_to_bytes)
  moreover have "in_bounds (guest_size T) m' (fst (offset p)) (snd (offset p))"
    using b fits by (simp add: in_bounds_def m')
  ultimately show ?thesis
    using a n by (simp add: to_vec_Ok_iff m' aligned_at_def)
qed

end

text \<open>
  The contract of \<^verbatim>\<open>GuestType\<close> itself: a value written is read back, a write changes only the
  bytes of the value, and a read depends only on those bytes.
\<close>

definition same_shape :: "guest_memory \<Rightarrow> guest_memory \<Rightarrow> bool" where
  "same_shape m m' =
     (length (mem_bytes m') = length (mem_bytes m) \<and> host_addr m' = host_addr m \<and>
      is_shared_memory m' = is_shared_memory m)"

definition same_outside :: "guest_memory \<Rightarrow> guest_memory \<Rightarrow> nat \<Rightarrow> nat \<Rightarrow> bool" where
  "same_outside m m' lo hi =
     (same_shape m m' \<and>
      (\<forall>k < length (mem_bytes m). k < lo \<or> hi \<le> k \<longrightarrow> mem_bytes m' ! k = mem_bytes m ! k))"

lemma same_outside_refl [simp]: "same_outside m m lo hi"
  by (simp add: same_outside_def same_shape_def)

lemma same_outside_trans:
  "same_outside m m1 lo hi \<Longrightarrow> same_outside m1 m2 lo hi \<Longrightarrow> same_outside m m2 lo hi"
  by (auto simp: same_outside_def same_shape_def)

lemma same_outside_mono:
  "same_outside m m' lo hi \<Longrightarrow> lo' \<le> lo \<Longrightarrow> hi \<le> hi' \<Longrightarrow> same_outside m m' lo' hi'"
  by (auto simp: same_outside_def)

lemma same_outside_overwrite:
  "lo + length ys \<le> length (mem_bytes m) \<Longrightarrow>
   same_outside m (with_bytes m (overwrite (mem_bytes m) lo ys)) lo (lo + length ys)"
  by (auto simp: same_outside_def same_shape_def overwrite_nth)

locale guest_type_laws =
  fixes T :: "'a guest_type"
  assumes write_read: "gt_write T m p v = (Ok (), m') \<Longrightarrow> gt_read T m' p = Ok v"
    and write_frame: "gt_write T m p v = (r, m') \<Longrightarrow>
      same_outside m m' (unat (offset p)) (unat (offset p) + unat (gt_size T))"
    and read_local: "same_shape m m' \<Longrightarrow>
      (\<forall>k. unat (offset p) \<le> k \<and> k < unat (offset p) + unat (gt_size T) \<and> k < length (mem_bytes m)
        \<longrightarrow> mem_bytes m' ! k = mem_bytes m ! k) \<Longrightarrow> gt_read T m' p = gt_read T m p"
begin

lemma read_after_disjoint_write:
  assumes "same_outside m m' lo hi"
    and "unat (offset q) + unat (gt_size T) \<le> lo \<or> hi \<le> unat (offset q)"
  shows "gt_read T m' q = gt_read T m q"
  using assms by (intro read_local) (auto simp: same_outside_def)

lemma two_writes:
  assumes "gt_write T m p v = (Ok (), m1)" and "gt_write T m1 q w = (Ok (), m2)"
    and "unat (offset p) + unat (gt_size T) \<le> unat (offset q) \<or>
         unat (offset q) + unat (gt_size T) \<le> unat (offset p)"
  shows "gt_read T m2 p = Ok v \<and> gt_read T m2 q = Ok w"
  using write_read [OF assms(1)] write_read [OF assms(2)]
    read_after_disjoint_write [OF write_frame [OF assms(2)] assms(3)] by simp

end

context transparent_type
begin

lemma prim_read_cong:
  assumes "same_shape m m'"
    and "\<forall>k. unat (offset p) \<le> k \<and> k < unat (offset p) + unat (guest_size T) \<and> k < length (mem_bytes m)
        \<longrightarrow> mem_bytes m' ! k = mem_bytes m ! k"
  shows "prim_read T m' p = prim_read T m p"
proof -
  have v: "validate_size_align T m' (offset p) 1 = validate_size_align T m (offset p) 1"
    using assms(1) by (intro validate_size_align_cong) (auto simp: same_shape_def)
  have "take (unat (guest_size T)) (drop (unat (offset p)) (mem_bytes m')) =
        take (unat (guest_size T)) (drop (unat (offset p)) (mem_bytes m))"
    using assms by (intro nth_equalityI) (auto simp: same_shape_def)
  then show ?thesis
    by (cases "validate_size_align T m (offset p) 1")
      (auto simp: prim_read_def v dest!: validate_one_Ok_iff [THEN iffD1])
qed

lemma prim_write_frame:
  assumes "prim_write T m p v = (r, m')"
  shows "same_outside m m' (unat (offset p)) (unat (offset p) + unat (guest_size T))"
proof (cases "r = Ok ()")
  case True
  with assms have "unat (offset p) + unat (guest_size T) \<le> length (mem_bytes m)"
    and "m' = with_bytes m (overwrite (mem_bytes m) (unat (offset p)) (to_le_bytes T v))"
    by (auto simp: prim_write_Ok_iff)
  then show ?thesis
    using same_outside_overwrite [of "unat (offset p)" "to_le_bytes T v" m] by (simp add: length_to_bytes)
next
  case False
  with assms have "m' = m" by (rule prim_write_fail)
  then show ?thesis by simp
qed

end

sublocale transparent_type \<subseteq> integer: guest_type_laws "integer_primitive T"
  by unfold_locales
    (auto simp: integer_primitive_def dest: prim_write_read prim_write_frame intro: prim_read_cong)

section \<open>The primitive types\<close>

lemma word_prim_transparent:
  assumes "0 < n" and "n < 2 ^ 32" and "LENGTH('a::len) = 8 * n"
  shows "transparent_type (word_prim n :: 'a word transparent)"
proof
  have "unat (of_nat n :: u32) = n" using assms(2) by (simp add: unat_of_nat)
  then have sz: "unat (guest_size (word_prim n :: 'a word transparent)) = n"
    by (simp add: word_prim_def)
  show "0 < align_of (word_prim n :: 'a word transparent)"
    and "0 < unat (guest_size (word_prim n :: 'a word transparent))"
    and "align_of (word_prim n :: 'a word transparent) dvd unat (guest_size (word_prim n :: 'a word transparent))"
    and "align_of (word_prim n :: 'a word transparent) \<le> guest_align (word_prim n :: 'a word transparent)"
    using assms(1) sz by (simp_all add: word_prim_def)
  fix v :: "'a word"
  show "length (to_le_bytes (word_prim n) v) = unat (guest_size (word_prim n :: 'a word transparent))"
    using sz by (simp add: word_prim_def)
  have "unat v < 2 ^ LENGTH('a)" by (rule unsigned_less)
  then have "unat v < 256 ^ n" using assms(3) by (simp add: power_mult)
  then show "from_le_bytes (word_prim n) (to_le_bytes (word_prim n) v) = v"
    by (simp add: word_prim_def le_decode_encode)
qed

interpretation u8: transparent_type u8_prim
  unfolding u8_prim_def by (rule word_prim_transparent) simp_all

interpretation u16: transparent_type u16_prim
  unfolding u16_prim_def by (rule word_prim_transparent) simp_all

interpretation u32: transparent_type u32_prim
  unfolding u32_prim_def by (rule word_prim_transparent) simp_all

interpretation u64: transparent_type u64_prim
  unfolding u64_prim_def by (rule word_prim_transparent) simp_all

lemma prim_sizes [simp]:
  "guest_size u8_prim = 1" "guest_size u16_prim = 2" "guest_size u32_prim = 4" "guest_size u64_prim = 8"
  "align_of u8_prim = 1" "align_of u16_prim = 2" "align_of u32_prim = 4" "align_of u64_prim = 8"
  by (simp_all add: u8_prim_def u16_prim_def u32_prim_def u64_prim_def word_prim_def)

interpretation ptr: guest_type_laws ptr_guest_type
proof unfold_locales
  fix m m' and p v :: sized_ptr
  assume "gt_write ptr_guest_type m p v = (Ok (), m')"
  then have "prim_read u32_prim m' p = Ok (offset v)"
    by (auto simp: ptr_guest_type_def intro: u32.prim_write_read)
  then show "gt_read ptr_guest_type m' p = Ok v"
    by (simp add: ptr_guest_type_def)
next
  fix m r m' and p v :: sized_ptr
  assume "gt_write ptr_guest_type m p v = (r, m')"
  then show "same_outside m m' (unat (offset p)) (unat (offset p) + unat (gt_size ptr_guest_type))"
    using u32.prim_write_frame [of m p "offset v" r m'] by (simp add: ptr_guest_type_def)
next
  fix m m' and p :: sized_ptr
  assume "same_shape m m'" and "\<forall>k. unat (offset p) \<le> k \<and> k < unat (offset p) + unat (gt_size ptr_guest_type)
      \<and> k < length (mem_bytes m) \<longrightarrow> mem_bytes m' ! k = mem_bytes m ! k"
  then have "prim_read u32_prim m' p = prim_read u32_prim m p"
    by (intro u32.prim_read_cong) (simp_all add: ptr_guest_type_def)
  then show "gt_read ptr_guest_type m' p = gt_read ptr_guest_type m p"
    by (simp add: ptr_guest_type_def)
qed

section \<open>Pointer arithmetic\<close>

lemma ptr_add_eq:
  "ptr_add sz p amt =
     (if unat (offset p) + unat amt * unat sz < 2 ^ 32 then Ok (GuestPtr (offset p + amt * sz))
      else Err PtrOverflow)"
  by (auto simp: ptr_add_def checked_mul_u32 checked_add_def unat_mult_u32)

lemma ptr_add_Ok_offset:
  "ptr_add sz p amt = Ok q \<Longrightarrow> unat (offset q) = unat (offset p) + unat amt * unat sz"
  by (auto simp: ptr_add_eq unat_word_ariths unat_mult_u32 split: if_splits)

lemma ptr_add_not_Panic: "ptr_add sz p amt \<noteq> Panic"
  by (simp add: ptr_add_eq)

text \<open>A slice pointer that stays inside the 32-bit address space.\<close>

definition ptr_in_space :: "u32 \<Rightarrow> slice_ptr \<Rightarrow> bool" where
  "ptr_in_space sz p = (unat (offset_base p) + unat (ptr_len p) * unat sz \<le> 2 ^ 32)"

lemma ptr_get_in_space:
  assumes "ptr_in_space sz p" and "0 < sz"
  shows "ptr_get sz p i =
    Ok (if i < ptr_len p then Some (GuestPtr (offset_base p + i * sz)) else None)"
proof (cases "i < ptr_len p")
  case True
  then have "unat i + 1 \<le> unat (ptr_len p)" by (simp add: word_less_nat_alt)
  then have "(unat i + 1) * unat sz \<le> unat (ptr_len p) * unat sz" by (rule mult_le_mono1)
  moreover have "0 < unat sz" using assms(2) by (simp add: word_less_nat_alt)
  ultimately have "unat (offset_base p) + unat i * unat sz < 2 ^ 32"
    using assms(1) by (simp add: ptr_in_space_def)
  then show ?thesis using True by (simp add: ptr_get_def ptr_add_eq as_ptr_def)
next
  case False
  then show ?thesis by (simp add: ptr_get_def)
qed

lemma ptr_get_Panic_iff:
  "ptr_get sz p i = Panic \<longleftrightarrow> i < ptr_len p \<and> 2 ^ 32 \<le> unat (offset_base p) + unat i * unat sz"
  by (auto simp: ptr_get_def ptr_add_eq as_ptr_def)

lemma get_range_in_space:
  assumes "ptr_in_space sz p" and "lo \<le> hi" and "hi \<le> ptr_len p" and "lo < ptr_len p \<or> unat (offset_base p) + unat (ptr_len p) * unat sz < 2 ^ 32"
  shows "get_range sz p lo hi = Ok (Some (GuestPtr (offset_base p + lo * sz, hi - lo)))"
proof -
  have le: "lo \<le> ptr_len p" using assms(2,3) by simp
  have "unat (offset_base p) + unat lo * unat sz < 2 ^ 32"
  proof (cases "lo < ptr_len p \<and> 0 < sz")
    case True
    then have "unat lo + 1 \<le> unat (ptr_len p)" by (simp add: word_less_nat_alt)
    then have "(unat lo + 1) * unat sz \<le> unat (ptr_len p) * unat sz" by (rule mult_le_mono1)
    moreover have "0 < unat sz" using True by (simp add: word_less_nat_alt)
    ultimately show ?thesis using assms(1) by (simp add: ptr_in_space_def)
  next
    case False
    have "unat lo * unat sz \<le> unat (ptr_len p) * unat sz"
      using le by (intro mult_le_mono1) (simp add: word_le_nat_alt)
    with False assms(4) show ?thesis
      using unat_u32_lt [of "offset_base p"] by (auto simp: word_less_nat_alt unat_gt_0)
  qed
  with assms le show ?thesis
    by (simp add: get_range_def ptr_add_eq as_ptr_def as_array_def Let_def not_less)
qed

lemma get_range_Panic_iff:
  "get_range sz p lo hi = Panic \<longleftrightarrow>
     lo \<le> hi \<and> hi \<le> ptr_len p \<and> 2 ^ 32 \<le> unat (offset_base p) + unat lo * unat sz"
  by (auto simp: get_range_def ptr_add_eq as_ptr_def Let_def not_less)

lemma ptr_iter_nth:
  "i < unat (ptr_len p) \<Longrightarrow>
   ptr_iter sz p ! i =
     (if unat (offset_base p) + i * unat sz < 2 ^ 32
      then Ok (GuestPtr (offset_base p + of_nat i * sz)) else Err PtrOverflow)"
  using unat_u32_lt [of "ptr_len p"]
  by (simp add: ptr_iter_def ptr_add_eq as_ptr_def unat_of_nat)

lemma slice_ptr_write_Ok:
  assumes "slice_ptr_write m p v = (Ok (), m')"
  obtains m1 p1 where "prim_write u32_prim m p (fst (offset v)) = (Ok (), m1)"
    and "ptr_add 4 p 1 = Ok p1" and "prim_write u32_prim m1 p1 (snd (offset v)) = (Ok (), m')"
  using assms by (auto simp: slice_ptr_write_def split: prod.splits outcome.splits)

lemma slice_ptr_write_frame:
  assumes "slice_ptr_write m p v = (r, m')"
  shows "same_outside m m' (unat (offset p)) (unat (offset p) + 8)"
proof -
  obtain r1 m1 where w: "prim_write u32_prim m p (fst (offset v)) = (r1, m1)"
    by (cases "prim_write u32_prim m p (fst (offset v))")
  then have f1: "same_outside m m1 (unat (offset p)) (unat (offset p) + 8)"
    using u32.prim_write_frame [OF w] by (auto intro: same_outside_mono)
  show ?thesis
  proof (cases "\<exists>p1. r1 = Ok () \<and> ptr_add 4 p 1 = Ok p1")
    case True
    then obtain p1 where p1: "r1 = Ok ()" "ptr_add 4 p 1 = Ok p1" by auto
    then have off: "unat (offset p1) = unat (offset p) + 4"
      using ptr_add_Ok_offset by fastforce
    from p1 w assms have "prim_write u32_prim m1 p1 (snd (offset v)) = (r, m')"
      by (simp add: slice_ptr_write_def)
    from u32.prim_write_frame [OF this] off
    have "same_outside m1 m' (unat (offset p)) (unat (offset p) + 8)"
      by (auto intro: same_outside_mono)
    with f1 show ?thesis by (rule same_outside_trans)
  next
    case False
    with assms w have "m' = m1"
      by (auto simp: slice_ptr_write_def split: outcome.splits)
    with f1 show ?thesis by simp
  qed
qed

interpretation slice: guest_type_laws slice_ptr_guest_type
proof unfold_locales
  fix m m' and p :: sized_ptr and v :: slice_ptr
  assume "gt_write slice_ptr_guest_type m p v = (Ok (), m')"
  then have "slice_ptr_write m p v = (Ok (), m')" by (simp add: slice_ptr_guest_type_def)
  then obtain m1 p1 where w1: "prim_write u32_prim m p (fst (offset v)) = (Ok (), m1)"
    and p1: "ptr_add 4 p 1 = Ok p1" and w2: "prim_write u32_prim m1 p1 (snd (offset v)) = (Ok (), m')"
    by (rule slice_ptr_write_Ok)
  have off: "unat (offset p1) = unat (offset p) + 4" using ptr_add_Ok_offset [OF p1] by simp
  have "prim_read u32_prim m' p = Ok (fst (offset v)) \<and> prim_read u32_prim m' p1 = Ok (snd (offset v))"
    using u32.integer.two_writes [of m p "fst (offset v)" m1 p1 "snd (offset v)" m'] w1 w2 off
    by (simp add: integer_primitive_def)
  then show "gt_read slice_ptr_guest_type m' p = Ok v"
    using p1 by (cases v) (auto simp: slice_ptr_guest_type_def slice_ptr_read_def as_array_def)
next
  fix m r m' and p :: sized_ptr and v :: slice_ptr
  assume "gt_write slice_ptr_guest_type m p v = (r, m')"
  then have "same_outside m m' (unat (offset p)) (unat (offset p) + 8)"
    by (auto simp: slice_ptr_guest_type_def intro: slice_ptr_write_frame)
  then show "same_outside m m' (unat (offset p)) (unat (offset p) + unat (gt_size slice_ptr_guest_type))"
    by (simp add: slice_ptr_guest_type_def)
next
  fix m m' and p :: sized_ptr
  assume s: "same_shape m m'" and "\<forall>k. unat (offset p) \<le> k \<and> k < unat (offset p) + unat (gt_size slice_ptr_guest_type)
      \<and> k < length (mem_bytes m) \<longrightarrow> mem_bytes m' ! k = mem_bytes m ! k"
  then have b: "\<forall>k. unat (offset p) \<le> k \<and> k < unat (offset p) + 8 \<and> k < length (mem_bytes m)
      \<longrightarrow> mem_bytes m' ! k = mem_bytes m ! k"
    by (simp add: slice_ptr_guest_type_def)
  have r1: "prim_read u32_prim m' p = prim_read u32_prim m p"
    using s b by (intro u32.prim_read_cong) auto
  have r2: "prim_read u32_prim m' p1 = prim_read u32_prim m p1" if "ptr_add 4 p 1 = Ok p1" for p1
    using s b ptr_add_Ok_offset [OF that] by (intro u32.prim_read_cong) auto
  have "slice_ptr_read m' p = slice_ptr_read m p"
    by (cases "ptr_add 4 p 1") (simp_all add: slice_ptr_read_def r1 r2)
  then show "gt_read slice_ptr_guest_type m' p = gt_read slice_ptr_guest_type m p"
    by (simp add: slice_ptr_guest_type_def)
qed

lemma f32_guest_type_eq: "f32_guest_type = integer_primitive u32_prim"
proof -
  have "map_ok (\<lambda>bits. bits) r = r" for r :: "(f32, guest_error) outcome"
    by (cases r) auto
  then show ?thesis by (simp add: f32_guest_type_def integer_primitive_def)
qed

interpretation f32: guest_type_laws f32_guest_type
  unfolding f32_guest_type_eq by (rule u32.integer.guest_type_laws_axioms)

lemma as_slice_mut_Ok_iff:
  "as_slice_mut m (as_array p n) = Ok (Some (lo, hi)) \<longleftrightarrow>
     \<not> is_shared_memory m \<and> in_bounds 1 m (offset p) n \<and>
     lo = unat (offset p) \<and> hi = unat (offset p) + unat n"
  by (cases m) (auto simp: as_slice_mut_def as_array_def bind_ok_Ok_iff validate_range_Ok_iff is_shared_memory_def)

end
