(* ===== verification/Handle_Tables.thy ===== *)
theory Handle_Tables
  imports Prelude
begin

text \<open>
  The interface the host's handle tables share: \<^verbatim>\<open>Table\<close> of \<^verbatim>\<open>crates/wasi-nn/src/ctx.rs\<close> (graphs
  and execution contexts) and \<^verbatim>\<open>Table\<close> of \<^verbatim>\<open>crates/wasi-common/src/table.rs\<close> (file descriptors).
  A provider promises that, while it has room, inserting gives a handle that was not in use
  and changes no other entry. The client lemma is what the guest relies on: any number of
  insertions within the room gives pairwise distinct handles, each of which finds its value.
\<close>

locale handle_table =
  fixes get :: "'t \<Rightarrow> u32 \<Rightarrow> 'v option"
    and ins :: "'t \<Rightarrow> 'v \<Rightarrow> (u32 \<times> 't) option"
    and room :: "'t \<Rightarrow> nat"
    and invar :: "'t \<Rightarrow> bool"
  assumes ins_room: "invar t \<Longrightarrow> 0 < room t \<Longrightarrow>
      \<exists>k t'. ins t v = Some (k, t') \<and> get t k = None \<and> get t' = (get t)(k \<mapsto> v) \<and>
             invar t' \<and> room t \<le> Suc (room t')"
begin

primrec insert_all :: "'v list \<Rightarrow> 't \<Rightarrow> (u32 list \<times> 't) option" where
  "insert_all [] t = Some ([], t)"
| "insert_all (v # vs) t =
     Option.bind (ins t v) (\<lambda>(k, t'). map_option (\<lambda>(ks, t''). (k # ks, t'')) (insert_all vs t'))"

lemma insert_all_distinct:
  assumes "invar t" and "length vs \<le> room t"
  shows "\<exists>ks t'. insert_all vs t = Some (ks, t') \<and> length ks = length vs \<and> distinct ks \<and>
     (\<forall>k \<in> set ks. get t k = None) \<and> (\<forall>i < length vs. get t' (ks ! i) = Some (vs ! i)) \<and>
     (\<forall>k. k \<notin> set ks \<longrightarrow> get t' k = get t k) \<and> invar t'"
  using assms
proof (induction vs arbitrary: t)
  case Nil
  then show ?case by simp
next
  case (Cons v vs)
  then obtain k t1 where k: "ins t v = Some (k, t1)" "get t k = None" "get t1 = (get t)(k \<mapsto> v)"
    and t1: "invar t1" "room t \<le> Suc (room t1)"
    using ins_room [of t v] by fastforce
  have "length vs \<le> room t1" using Cons.prems(2) t1(2) by simp
  from Cons.IH [OF t1(1) this] obtain ks t' where ih: "insert_all vs t1 = Some (ks, t')"
    "length ks = length vs" "distinct ks" "\<forall>x \<in> set ks. get t1 x = None"
    "\<forall>i < length vs. get t' (ks ! i) = Some (vs ! i)" "\<forall>x. x \<notin> set ks \<longrightarrow> get t' x = get t1 x" "invar t'"
    by blast
  from ih(4) k(3) have notin: "k \<notin> set ks" by auto
  have "get t' ((k # ks) ! i) = Some ((v # vs) ! i)" if "i < length (v # vs)" for i
    using that ih(5,6) notin k(3) by (cases i) auto
  moreover have "insert_all (v # vs) t = Some (k # ks, t')" using k(1) ih(1) by simp
  moreover have "\<forall>x \<in> set (k # ks). get t x = None" using k ih(4) by (auto split: if_splits)
  moreover have "\<forall>x. x \<notin> set (k # ks) \<longrightarrow> get t' x = get t x" using ih(6) k(3) by auto
  ultimately show ?case using ih(2,3,7) notin by (intro exI [of _ "k # ks"] exI [of _ t']) simp
qed

end

end
