(* ===== verification/NN_Context.thy ===== *)
theory NN_Context
  imports Wiggle_Memory Handle_Tables
begin

text \<open>
  The host state of the machine-learning interface: \<^verbatim>\<open>crates/wasi-nn/src/ctx.rs\<close>, the types of
  \<^verbatim>\<open>wit.rs\<close> and \<^verbatim>\<open>witx.rs\<close>, the traits of \<^verbatim>\<open>backend/mod.rs\<close> and the registry. A Rust trait
  object is a value together with a record of the trait's methods; the handle tables map
  32-bit handles to graphs and to execution contexts.
\<close>

section \<open>Types\<close>

datatype graph_encoding = Openvino | Onnx | Tensorflow | Pytorch | Tensorflowlite | Autodetect

datatype execution_target = Cpu | Gpu | Tpu

datatype tensor_type = Fp16 | Fp32 | Fp64 | Bf16 | U8 | I32 | I64

record tensor =
  dimensions :: "u32 list"
  tensor_type :: tensor_type
  data :: "u8 list"

datatype backend_error =
    BackendAccess string
  | GuestAccess guest_error
  | BackendInvalidNumberOfBuilders nat nat
  | BackendNotEnoughMemory nat

datatype usage_error =
    InvalidContext
  | InvalidEncoding graph_encoding
  | InvalidNumberOfBuilders u32
  | InvalidGraphHandle
  | InvalidExecutionContextHandle
  | NotEnoughMemory u32
  | NotFound string

datatype wasi_nn_error =
    BackendError backend_error
  | GuestError guest_error
  | UsageError usage_error

text \<open>The types of the WITX interface and their conversion to the crate's own.\<close>

datatype witx_tensor_type = Witx_F16 | Witx_F32 | Witx_F64 | Witx_U8 | Witx_I32 | Witx_I64

datatype witx_graph_encoding =
    Witx_Openvino | Witx_Onnx | Witx_Tensorflow | Witx_Pytorch | Witx_Tensorflowlite | Witx_Autodetect

datatype witx_execution_target = Witx_Cpu | Witx_Gpu | Witx_Tpu

fun from_witx_target :: "witx_execution_target \<Rightarrow> execution_target" where
  "from_witx_target Witx_Cpu = Cpu"
| "from_witx_target Witx_Gpu = Gpu"
| "from_witx_target Witx_Tpu = Tpu"

fun from_witx_encoding :: "witx_graph_encoding \<Rightarrow> graph_encoding" where
  "from_witx_encoding Witx_Openvino = Openvino"
| "from_witx_encoding Witx_Onnx = Onnx"
| "from_witx_encoding Witx_Tensorflow = Tensorflow"
| "from_witx_encoding Witx_Pytorch = Pytorch"
| "from_witx_encoding Witx_Tensorflowlite = Tensorflowlite"
| "from_witx_encoding Witx_Autodetect = Autodetect"

fun from_witx_tensor_type :: "witx_tensor_type \<Rightarrow> tensor_type" where
  "from_witx_tensor_type Witx_F16 = Fp16"
| "from_witx_tensor_type Witx_F32 = Fp32"
| "from_witx_tensor_type Witx_U8 = U8"
| "from_witx_tensor_type Witx_I32 = I32"
| "from_witx_tensor_type Witx_I64 = I64"
| "from_witx_tensor_type Witx_F64 = Fp64"

text \<open>\<^verbatim>\<open>FromStr\<close> of the encoding: letters are compared in lower case.\<close>

definition ascii_lower :: "char \<Rightarrow> char" where
  "ascii_lower c =
     (let n = (of_char c :: nat) in if 65 \<le> n \<and> n \<le> 90 then char_of (n + 32) else c)"

definition encoding_from_str :: "string \<Rightarrow> (graph_encoding, string) outcome" where
  "encoding_from_str s =
     (let l = map ascii_lower s in
      if l = ''openvino'' then Ok Openvino
      else if l = ''onnx'' then Ok Onnx
      else if l = ''pytorch'' then Ok Pytorch
      else if l = ''tensorflow'' then Ok Tensorflow
      else if l = ''tensorflowlite'' then Ok Tensorflowlite
      else if l = ''autodetect'' then Ok Autodetect
      else Err s)"

section \<open>Backends, graphs and execution contexts\<close>

text \<open>
  The methods of \<^verbatim>\<open>BackendInner\<close>, \<^verbatim>\<open>BackendFromDir\<close>, \<^verbatim>\<open>BackendGraph\<close> and
  \<^verbatim>\<open>BackendExecutionContext\<close>: \<open>'b\<close> are the backends, \<open>'g\<close> the graphs, \<open>'x\<close> the execution
  contexts. A method that takes \<^verbatim>\<open>&mut self\<close> returns the changed object; \<^verbatim>\<open>get_output\<close> also
  returns the destination buffer.
\<close>

record ('b, 'g, 'x) nn_backend =
  encoding :: "'b \<Rightarrow> graph_encoding"
  backend_load :: "'b \<Rightarrow> u8 list list \<Rightarrow> execution_target \<Rightarrow> ('g, backend_error) outcome \<times> 'b"
  as_dir_loadable :: "'b \<Rightarrow> bool"
  load_from_dir :: "'b \<Rightarrow> string \<Rightarrow> execution_target \<Rightarrow> ('g, backend_error) outcome \<times> 'b"
  init_ctx :: "'g \<Rightarrow> ('x, backend_error) outcome"
  exec_set_input :: "'x \<Rightarrow> u32 \<Rightarrow> tensor \<Rightarrow> (unit, backend_error) outcome \<times> 'x"
  exec_compute :: "'x \<Rightarrow> (unit, backend_error) outcome \<times> 'x"
  exec_get_output :: "'x \<Rightarrow> u32 \<Rightarrow> u8 list \<Rightarrow> (u32, backend_error) outcome \<times> u8 list"

section \<open>Handle tables\<close>

record 'v nn_table =
  entries :: "u32 \<rightharpoonup> 'v"
  next_key :: u32

definition table_default :: "'v nn_table" where
  "table_default = \<lparr>entries = Map.empty, next_key = 0\<rparr>"

definition use_next_key :: "'v nn_table \<Rightarrow> u32 \<times> 'v nn_table" where
  "use_next_key t = (next_key t, t\<lparr>next_key := next_key t + 1\<rparr>)"

definition table_insert :: "'v nn_table \<Rightarrow> 'v \<Rightarrow> u32 \<times> 'v nn_table" where
  "table_insert t v =
     (let (key, t') = use_next_key t in (key, t'\<lparr>entries := (entries t')(key \<mapsto> v)\<rparr>))"

definition table_get :: "'v nn_table \<Rightarrow> u32 \<Rightarrow> 'v option" where
  "table_get t key = entries t key"

text \<open>Writing through the reference that \<^verbatim>\<open>get_mut\<close> returns.\<close>

definition table_put :: "'v nn_table \<Rightarrow> u32 \<Rightarrow> 'v \<Rightarrow> 'v nn_table" where
  "table_put t key v = t\<lparr>entries := (entries t)(key \<mapsto> v)\<rparr>"

section \<open>The context\<close>

record ('b, 'g, 'x) wasi_nn_ctx =
  backends :: "graph_encoding \<rightharpoonup> 'b"
  registry :: "string \<rightharpoonup> 'g"
  graphs :: "'g nn_table"
  executions :: "'x nn_table"

definition ctx_new ::
  "('b, 'g, 'x) nn_backend \<Rightarrow> 'b list \<Rightarrow> (string \<rightharpoonup> 'g) \<Rightarrow> ('b, 'g, 'x) wasi_nn_ctx" where
  "ctx_new ops bs reg =
     \<lparr>backends = fold (\<lambda>b m. m(encoding ops b \<mapsto> b)) bs Map.empty,
      registry = reg, graphs = table_default, executions = table_default\<rparr>"

section \<open>The in-memory registry\<close>

text \<open>
  \<^verbatim>\<open>Path::file_name\<close> on a Unix path: the last component, unless it is \<^verbatim>\<open>..\<close> or there is none.
\<close>

fun split_path :: "string \<Rightarrow> string \<Rightarrow> string list" where
  "split_path acc [] = [rev acc]"
| "split_path acc (c # cs) = (if c = CHR ''/'' then rev acc # split_path [] cs else split_path (c # acc) cs)"

definition file_name :: "string \<Rightarrow> string option" where
  "file_name p =
     (let cs = filter (\<lambda>c. c \<noteq> [] \<and> c \<noteq> ''.'') (split_path [] p)
      in if cs = [] \<or> last cs = ''..'' then None else Some (last cs))"

text \<open>Errors of the command-line style loading functions are messages (\<^verbatim>\<open>anyhow\<close>).\<close>

datatype preload_error =
    NotADirectory string
  | NoFileName
  | LoadFailed backend_error
  | UnknownEncoding string
  | UnsupportedBackend string
  | NotDirLoadable string

definition registry_load ::
  "(string \<Rightarrow> bool) \<Rightarrow> ('b, 'g, 'x) nn_backend \<Rightarrow> (string \<rightharpoonup> 'g) \<Rightarrow> 'b \<Rightarrow> string \<Rightarrow>
   (unit, preload_error) outcome \<times> (string \<rightharpoonup> 'g) \<times> 'b" where
  "registry_load is_dir ops reg b path =
     (if \<not> is_dir path then (Err (NotADirectory path), reg, b)
      else case file_name path of
          None \<Rightarrow> (Err NoFileName, reg, b)
        | Some nm \<Rightarrow>
            (case load_from_dir ops b path Cpu of
               (Ok graph, b') \<Rightarrow> (Ok (), reg(nm \<mapsto> graph), b')
             | (Err e, b') \<Rightarrow> (Err (LoadFailed e), reg, b')
             | (Panic, b') \<Rightarrow> (Panic, reg, b')))"

definition registry_get_mut :: "(string \<rightharpoonup> 'g) \<Rightarrow> string \<Rightarrow> 'g option" where
  "registry_get_mut reg nm = reg nm"

fun find_backend :: "('b \<Rightarrow> bool) \<Rightarrow> 'b list \<Rightarrow> nat option" where
  "find_backend P [] = None"
| "find_backend P (b # bs) = (if P b then Some 0 else map_option Suc (find_backend P bs))"

fun preload_loop ::
  "(string \<Rightarrow> bool) \<Rightarrow> ('b, 'g, 'x) nn_backend \<Rightarrow> 'b list \<Rightarrow> (string \<rightharpoonup> 'g) \<Rightarrow> (string \<times> string) list \<Rightarrow>
   ('b list \<times> (string \<rightharpoonup> 'g), preload_error) outcome" where
  "preload_loop is_dir ops bs reg [] = Ok (bs, reg)"
| "preload_loop is_dir ops bs reg ((kind, path) # rest) =
     bind_ok (map_err UnknownEncoding (encoding_from_str kind)) (\<lambda>kind'.
       case find_backend (\<lambda>b. encoding ops b = kind') bs of
         None \<Rightarrow> Err (UnsupportedBackend kind)
       | Some i \<Rightarrow>
           if \<not> as_dir_loadable ops (bs ! i) then Err (NotDirLoadable kind)
           else case registry_load is_dir ops reg (bs ! i) path of
               (Ok _, reg', b') \<Rightarrow> preload_loop is_dir ops (bs[i := b']) reg' rest
             | (Err e, _, _) \<Rightarrow> Err e
             | (Panic, _, _) \<Rightarrow> Panic)"

definition preload ::
  "(string \<Rightarrow> bool) \<Rightarrow> ('b, 'g, 'x) nn_backend \<Rightarrow> 'b list \<Rightarrow> (string \<times> string) list \<Rightarrow>
   ('b list \<times> (string \<rightharpoonup> 'g), preload_error) outcome" where
  "preload is_dir ops backend_list preload_graphs =
     preload_loop is_dir ops backend_list Map.empty preload_graphs"

section \<open>Handles are fresh\<close>

text \<open>
  While fewer than \<open>2 ^ 32 - 1\<close> values were inserted, every handle in use is below the next one.
\<close>

definition table_invar :: "'v nn_table \<Rightarrow> bool" where
  "table_invar t = (\<forall>k. entries t k \<noteq> None \<longrightarrow> k < next_key t)"

definition table_room :: "'v nn_table \<Rightarrow> nat" where
  "table_room t = u32_MAX - unat (next_key t)"

lemma table_insert_eq:
  "table_insert t v = (next_key t, t\<lparr>next_key := next_key t + 1, entries := (entries t)(next_key t \<mapsto> v)\<rparr>)"
  by (simp add: table_insert_def use_next_key_def)

lemma next_key_Suc: "0 < table_room t \<Longrightarrow> unat (next_key t + 1) = Suc (unat (next_key t))"
  by (simp add: table_room_def u32_MAX_def unat_word_ariths)

lemma table_invar_default: "table_invar table_default"
  by (simp add: table_invar_def table_default_def)

lemma table_invar_put: "table_invar t \<Longrightarrow> table_get t k \<noteq> None \<Longrightarrow> table_invar (table_put t k v)"
  by (auto simp: table_invar_def table_put_def table_get_def)

lemma table_get_put: "table_get (table_put t k v) = (table_get t)(k \<mapsto> v)"
  by (auto simp: table_put_def table_get_def fun_eq_iff)

lemma table_room_put [simp]: "table_room (table_put t k v) = table_room t"
  by (simp add: table_put_def table_room_def)

interpretation nn: handle_table table_get "\<lambda>t v. Some (table_insert t v)" table_room table_invar
proof unfold_locales
  fix t :: "'v nn_table" and v
  assume inv: "table_invar t" and room: "0 < table_room t"
  let ?t = "t\<lparr>next_key := next_key t + 1, entries := (entries t)(next_key t \<mapsto> v)\<rparr>"
  have "entries t (next_key t) = None"
    using inv by (auto simp: table_invar_def)
  moreover have "table_invar ?t"
    using inv next_key_Suc [OF room] by (auto simp: table_invar_def word_less_nat_alt)
  moreover have "table_room t \<le> Suc (table_room ?t)"
    using next_key_Suc [OF room] by (simp add: table_room_def)
  ultimately show "\<exists>k t'. Some (table_insert t v) = Some (k, t') \<and> table_get t k = None \<and>
      table_get t' = (table_get t)(k \<mapsto> v) \<and> table_invar t' \<and> table_room t \<le> Suc (table_room t')"
    by (auto simp: table_insert_eq table_get_def fun_eq_iff)
qed

text \<open>The handle of the \<open>n\<close>-th insertion is \<open>n\<close> modulo \<open>2 ^ 32\<close>: the counter wraps.\<close>

lemma table_next_key_fold:
  "next_key (fold (\<lambda>v t. snd (table_insert t v)) vs t) = next_key t + of_nat (length vs)"
  by (induction vs arbitrary: t) (simp_all add: table_insert_eq)

section \<open>What the host relies on from a backend\<close>

text \<open>
  The contract of \<^verbatim>\<open>BackendExecutionContext::get_output\<close>: the destination keeps its length, a
  failing call leaves it alone, and a successful call reports how many bytes it wrote and
  touches no byte after them.
\<close>

locale nn_backend_laws =
  fixes ops :: "('b, 'g, 'x) nn_backend"
  assumes get_output_length: "exec_get_output ops x i d = (r, d') \<Longrightarrow> length d' = length d"
    and get_output_fail: "exec_get_output ops x i d = (r, d') \<Longrightarrow> \<not> is_ok r \<Longrightarrow> d' = d"
    and get_output_tail: "exec_get_output ops x i d = (Ok n, d') \<Longrightarrow> length d < 2 ^ 32 \<Longrightarrow>
      unat n \<le> length d \<and> drop (unat n) d' = drop (unat n) d"

end
