(* ===== verification/NN_Onnx.thy ===== *)
theory NN_Onnx
  imports NN_Context
begin

text \<open>
  The ONNX backend the benchmark host installs: \<^verbatim>\<open>crates/wasi-nn/src/backend/onnxruntime.rs\<close>.
  The \<^verbatim>\<open>ort\<close> crate is not part of the repository: it is the record \<open>ort\<close> of the calls the
  backend makes. A session is never changed by \<^verbatim>\<open>run\<close>, so the \<^verbatim>\<open>Arc<Mutex<Session>>\<close> shared by
  a graph and its contexts is the session itself. An \<open>f32\<close> is its 32 bits.
\<close>

section \<open>Bytes and floats\<close>

definition f32_to_le_bytes :: "f32 \<Rightarrow> u8 list" where
  "f32_to_le_bytes f = le_encode 4 (unat f)"

definition f32_from_le_bytes :: "u8 list \<Rightarrow> (f32, 'e) outcome" where
  "f32_from_le_bytes bs = (if length bs = 4 then Ok (of_nat (le_decode bs)) else Panic)"

definition f32_vec_to_bytes :: "f32 list \<Rightarrow> u8 list" where
  "f32_vec_to_bytes xs = (let chunks = map f32_to_le_bytes xs in concat chunks)"

text \<open>\<^verbatim>\<open>slice::chunks(4)\<close>: the last chunk may be shorter.\<close>

fun chunks4 :: "'a list \<Rightarrow> 'a list list" where
  "chunks4 [] = []"
| "chunks4 (x # xs) = take 4 (x # xs) # chunks4 (drop 4 (x # xs))"

definition bytes_to_f32_vec :: "u8 list \<Rightarrow> (f32 list, 'e) outcome" where
  "bytes_to_f32_vec bs = collect_ok (map f32_from_le_bytes (chunks4 bs))"

section \<open>The runtime library\<close>

record ('bld, 's, 'v) ort =
  session_builder :: "('bld, string) outcome"
  with_optimization_level3 :: "'bld \<Rightarrow> ('bld, string) outcome"
  commit_from_memory :: "'bld \<Rightarrow> u8 list \<Rightarrow> ('s, string) outcome"
  session_inputs :: "'s \<Rightarrow> nat"
  session_outputs :: "'s \<Rightarrow> nat"
  ort_inputs :: "int list \<Rightarrow> f32 list \<Rightarrow> ('v list, string) outcome"
  session_run :: "'s \<Rightarrow> 'v list \<Rightarrow> ('v list, string) outcome"
  try_extract_raw_tensor :: "'v \<Rightarrow> (int list \<times> f32 list, string) outcome"

section \<open>Graphs and execution contexts\<close>

datatype 's onnx_graph = ONNXGraph (graph_session: 's) (graph_target: execution_target)

record 's onnx_exec =
  session :: 's
  inputs :: "tensor option list"
  outputs :: "u8 list option list"

definition onnx_load ::
  "('bld, 's, 'v) ort \<Rightarrow> u8 list list \<Rightarrow> execution_target \<Rightarrow> ('s onnx_graph, backend_error) outcome" where
  "onnx_load ort builders target =
     (if length builders \<noteq> 1 then Err (BackendInvalidNumberOfBuilders 1 (length builders))
      else
        bind_ok (map_err BackendAccess (session_builder ort)) (\<lambda>b.
        bind_ok (map_err BackendAccess (with_optimization_level3 ort b)) (\<lambda>b.
        bind_ok (map_err BackendAccess (commit_from_memory ort b (builders ! 0))) (\<lambda>s.
          Ok (ONNXGraph s target)))))"

definition path_join :: "string \<Rightarrow> string \<Rightarrow> string" where
  "path_join p q = (if p = [] then q else if last p = CHR ''/'' then p @ q else p @ ''/'' @ q)"

definition onnx_load_from_dir ::
  "(string \<Rightarrow> (u8 list, string) outcome) \<Rightarrow> ('bld, 's, 'v) ort \<Rightarrow> string \<Rightarrow> execution_target \<Rightarrow>
   ('s onnx_graph, backend_error) outcome" where
  "onnx_load_from_dir read_file ort path target =
     bind_ok (map_err BackendAccess (read_file (path_join path ''model.onnx''))) (\<lambda>model.
       onnx_load ort [model] target)"

definition onnx_init_execution_context ::
  "('bld, 's, 'v) ort \<Rightarrow> 's onnx_graph \<Rightarrow> ('s onnx_exec, backend_error) outcome" where
  "onnx_init_execution_context ort g =
     (let s = graph_session g
      in Ok \<lparr>session = s, inputs = replicate (session_inputs ort s) None,
             outputs = replicate (session_outputs ort s) None\<rparr>)"

definition onnx_set_input ::
  "'s onnx_exec \<Rightarrow> u32 \<Rightarrow> tensor \<Rightarrow> (unit, backend_error) outcome \<times> 's onnx_exec" where
  "onnx_set_input x index tensor =
     (if unat index < length (inputs x)
      then (Ok (), x\<lparr>inputs := (inputs x)[unat index := Some tensor]\<rparr>)
      else (Panic, x))"

text \<open>One input of the model, as \<^verbatim>\<open>compute\<close> prepares it.\<close>

definition shape_input ::
  "('bld, 's, 'v) ort \<Rightarrow> tensor option \<Rightarrow> ('v list, backend_error) outcome" where
  "shape_input ort slot =
     (case slot of
        None \<Rightarrow> Panic
      | Some input \<Rightarrow>
          let dims = map (\<lambda>d. int (unat d)) (dimensions input)
          in case tensor_type input of
               Fp32 \<Rightarrow>
                 bind_ok (bytes_to_f32_vec (data input)) (\<lambda>xs. unwrap (ort_inputs ort dims xs))
             | _ \<Rightarrow> Panic)"

text \<open>The loop over the outputs: an error leaves the outputs stored so far.\<close>

fun store_outputs ::
  "('bld, 's, 'v) ort \<Rightarrow> 'v list \<Rightarrow> nat list \<Rightarrow> u8 list option list \<Rightarrow>
   (unit, backend_error) outcome \<times> u8 list option list" where
  "store_outputs ort res [] outs = (Ok (), outs)"
| "store_outputs ort res (i # is) outs =
     (if length res \<le> i then (Panic, outs)
      else case try_extract_raw_tensor ort (res ! i) of
          Ok (_, f32s) \<Rightarrow> store_outputs ort res is (outs[i := Some (f32_vec_to_bytes f32s)])
        | Err e \<Rightarrow> (Err (BackendAccess e), outs)
        | Panic \<Rightarrow> (Panic, outs))"

definition onnx_compute ::
  "('bld, 's, 'v) ort \<Rightarrow> 's onnx_exec \<Rightarrow> (unit, backend_error) outcome \<times> 's onnx_exec" where
  "onnx_compute ort x =
     (case collect_ok (map (shape_input ort) (inputs x)) of
        Err e \<Rightarrow> (Err e, x)
      | Panic \<Rightarrow> (Panic, x)
      | Ok shaped \<Rightarrow>
          (case session_run ort (session x) (concat shaped) of
             Err e \<Rightarrow> (Err (BackendAccess e), x)
           | Panic \<Rightarrow> (Panic, x)
           | Ok res \<Rightarrow>
               (let (r, outs) = store_outputs ort res [0..<length (outputs x)] (outputs x)
                in (r, x\<lparr>outputs := outs\<rparr>))))"

definition onnx_get_output ::
  "'s onnx_exec \<Rightarrow> u32 \<Rightarrow> u8 list \<Rightarrow> (u32, backend_error) outcome \<times> u8 list" where
  "onnx_get_output x index destination =
     (if length (outputs x) \<le> unat index then (Panic, destination)
      else case outputs x ! unat index of
          None \<Rightarrow> (Panic, destination)
        | Some out \<Rightarrow>
            if length destination < length out then (Panic, destination)
            else (Ok (of_nat (length out)), overwrite destination 0 out))"

text \<open>\<^verbatim>\<open>OnnxBackend\<close> has no state: the type \<open>unit\<close>.\<close>

definition onnx_backend ::
  "(string \<Rightarrow> (u8 list, string) outcome) \<Rightarrow> ('bld, 's, 'v) ort \<Rightarrow>
   (unit, 's onnx_graph, 's onnx_exec) nn_backend" where
  "onnx_backend read_file ort =
     \<lparr>encoding = (\<lambda>_. Onnx),
      backend_load = (\<lambda>b builders target. (onnx_load ort builders target, b)),
      as_dir_loadable = (\<lambda>_. True),
      load_from_dir = (\<lambda>b path target. (onnx_load_from_dir read_file ort path target, b)),
      init_ctx = onnx_init_execution_context ort,
      exec_set_input = onnx_set_input,
      exec_compute = onnx_compute ort,
      exec_get_output = onnx_get_output\<rparr>"

section \<open>Round trips of the byte encodings\<close>

lemma length_f32_to_le_bytes [simp]: "length (f32_to_le_bytes f) = 4"
  by (simp add: f32_to_le_bytes_def)

lemma f32_from_to_le_bytes: "f32_from_le_bytes (f32_to_le_bytes f) = Ok f"
proof -
  have "unat f < 256 ^ 4" using unat_u32_lt [of f] by simp
  then show ?thesis
    by (simp add: f32_from_le_bytes_def f32_to_le_bytes_def le_decode_encode del: le_encode.simps)
qed

lemma f32_to_from_le_bytes: "f32_from_le_bytes bs = Ok f \<Longrightarrow> f32_to_le_bytes f = bs"
proof -
  assume "f32_from_le_bytes bs = Ok f"
  then have len: "length bs = 4" and f: "f = of_nat (le_decode bs)"
    by (auto simp: f32_from_le_bytes_def split: if_splits)
  have "le_decode bs < 2 ^ 32" using le_decode_bound [of bs] len by simp
  then have "unat f = le_decode bs" using f by (simp add: unat_of_nat)
  then show ?thesis using le_encode_decode [of bs] len by (simp add: f32_to_le_bytes_def)
qed

lemma chunks4_append: "length bs = 4 \<Longrightarrow> chunks4 (bs @ rest) = bs # chunks4 rest"
  by (cases bs) auto

lemma bytes_to_f32_vec_Nil [simp]: "bytes_to_f32_vec [] = Ok []"
  by (simp add: bytes_to_f32_vec_def)

lemma bytes_to_f32_vec_step:
  "length bs = 4 \<Longrightarrow>
   bytes_to_f32_vec (bs @ rest) =
     bind_ok (f32_from_le_bytes bs) (\<lambda>x. map_ok (\<lambda>xs. x # xs) (bytes_to_f32_vec rest))"
  by (simp add: bytes_to_f32_vec_def chunks4_append)

lemma f32_vec_to_bytes_Cons: "f32_vec_to_bytes (x # xs) = f32_to_le_bytes x @ f32_vec_to_bytes xs"
  by (simp add: f32_vec_to_bytes_def)

lemma length_f32_vec_to_bytes [simp]: "length (f32_vec_to_bytes xs) = 4 * length xs"
  by (induction xs) (simp_all add: f32_vec_to_bytes_def)

lemma bytes_to_f32_vec_to_bytes: "bytes_to_f32_vec (f32_vec_to_bytes xs) = Ok xs"
  by (induction xs)
    (simp_all add: f32_vec_to_bytes_Cons bytes_to_f32_vec_step f32_from_to_le_bytes, simp add: f32_vec_to_bytes_def)

lemma bytes_to_f32_vec_cases:
  "(4 dvd length bs \<longrightarrow> (\<exists>xs. bytes_to_f32_vec bs = (Ok xs :: (f32 list, 'e) outcome) \<and> f32_vec_to_bytes xs = bs)) \<and>
   (\<not> 4 dvd length bs \<longrightarrow> bytes_to_f32_vec bs = (Panic :: (f32 list, 'e) outcome))"
proof (induction bs rule: chunks4.induct)
  case 1
  then show ?case by (simp add: f32_vec_to_bytes_def)
next
  case (2 x xs)
  show ?case
  proof (cases "length (x # xs) < 4")
    case True
    then have "\<not> 4 dvd length (x # xs)" by (auto dest: dvd_imp_le)
    then show ?thesis using True
      by (simp add: bytes_to_f32_vec_def f32_from_le_bytes_def)
  next
    case False
    define bs rest where "bs = take 4 (x # xs)" and "rest = drop 4 (x # xs)"
    have split: "x # xs = bs @ rest" and len: "length bs = 4"
      using False by (simp_all add: bs_def rest_def)
    have dvd: "4 dvd length (x # xs) \<longleftrightarrow> 4 dvd length rest"
      unfolding split using len by (simp add: dvd_add_right_iff)
    obtain y where y: "f32_from_le_bytes bs = (Ok y :: (f32, 'e) outcome)"
      using len by (simp add: f32_from_le_bytes_def)
    then have step: "bytes_to_f32_vec (x # xs) = map_ok (\<lambda>ys. y # ys) (bytes_to_f32_vec rest :: (f32 list, 'e) outcome)"
      unfolding split using len by (simp add: bytes_to_f32_vec_step)
    show ?thesis
      using "2.IH" f32_to_from_le_bytes [OF y]
      unfolding rest_def [symmetric] dvd step
      by (auto simp: f32_vec_to_bytes_Cons split bytes_to_f32_vec_step f32_from_to_le_bytes)
  qed
qed

lemma bytes_to_f32_vec_Panic_iff:
  "bytes_to_f32_vec bs = (Panic :: (f32 list, 'e) outcome) \<longleftrightarrow> \<not> 4 dvd length bs"
  using bytes_to_f32_vec_cases [where 'e = 'e, of bs] by (cases "4 dvd length bs") auto

lemma bytes_to_f32_vec_not_Err: "bytes_to_f32_vec bs \<noteq> (Err e :: (f32 list, 'e) outcome)"
  using bytes_to_f32_vec_cases [where 'e = 'e, of bs] by (cases "4 dvd length bs") auto

section \<open>Execution contexts\<close>

lemmas onnx_get_output_defs = onnx_backend_def onnx_get_output_def overwrite_def unat_of_nat

interpretation onnx: nn_backend_laws "onnx_backend read_file ort"
  for read_file and ort :: "('bld, 's, 'v) ort"
  by unfold_locales (auto simp: onnx_get_output_defs split: if_splits option.splits)

text \<open>An execution context has one slot per input and per output of its session.\<close>

definition onnx_exec_wf :: "('bld, 's, 'v) ort \<Rightarrow> 's onnx_exec \<Rightarrow> bool" where
  "onnx_exec_wf ort x =
     (length (inputs x) = session_inputs ort (session x) \<and>
      length (outputs x) = session_outputs ort (session x))"

lemma onnx_init_wf: "onnx_init_execution_context ort g = Ok x \<Longrightarrow> onnx_exec_wf ort x"
  by (auto simp: onnx_init_execution_context_def onnx_exec_wf_def Let_def)

lemma onnx_set_input_wf: "onnx_set_input x i t = (r, x') \<Longrightarrow> onnx_exec_wf ort x \<Longrightarrow> onnx_exec_wf ort x'"
  by (auto simp: onnx_set_input_def onnx_exec_wf_def split: if_splits)

lemma length_store_outputs: "store_outputs ort res is outs = (r, outs') \<Longrightarrow> length outs' = length outs"
  by (induction "is" arbitrary: outs) (auto split: if_splits outcome.splits)

lemma onnx_compute_wf:
  assumes "onnx_compute ort x = (r, x')" and "onnx_exec_wf ort x"
  shows "onnx_exec_wf ort x' \<and> session x' = session x \<and> inputs x' = inputs x"
  using assms
  by (auto simp: onnx_compute_def onnx_exec_wf_def Let_def length_store_outputs
      split: outcome.splits prod.splits)

lemma store_outputs_Ok:
  assumes "store_outputs ort res is outs = (Ok (), outs')" and "\<forall>i \<in> set is. i < length outs"
  shows "(\<forall>i \<in> set is. \<exists>sh f32s. i < length res \<and>
            try_extract_raw_tensor ort (res ! i) = Ok (sh, f32s) \<and> outs' ! i = Some (f32_vec_to_bytes f32s)) \<and>
         (\<forall>i < length outs. i \<notin> set is \<longrightarrow> outs' ! i = outs ! i)"
  using assms
proof (induction "is" arbitrary: outs)
  case Nil
  then show ?case by simp
next
  case (Cons i "is")
  then obtain sh f32s where e: "i < length res" "try_extract_raw_tensor ort (res ! i) = Ok (sh, f32s)"
    and rec: "store_outputs ort res is (outs[i := Some (f32_vec_to_bytes f32s)]) = (Ok (), outs')"
    by (auto split: if_splits outcome.splits)
  have "\<forall>j \<in> set is. j < length (outs[i := Some (f32_vec_to_bytes f32s)])"
    using Cons.prems(2) by simp
  from Cons.IH [OF rec this] have ih:
    "\<forall>j \<in> set is. \<exists>sh f32s. j < length res \<and> try_extract_raw_tensor ort (res ! j) = Ok (sh, f32s) \<and>
       outs' ! j = Some (f32_vec_to_bytes f32s)"
    "\<forall>j < length outs. j \<notin> set is \<longrightarrow> outs' ! j = outs[i := Some (f32_vec_to_bytes f32s)] ! j"
    by auto
  have "\<exists>sh f32s. i < length res \<and> try_extract_raw_tensor ort (res ! i) = Ok (sh, f32s) \<and>
       outs' ! i = Some (f32_vec_to_bytes f32s)"
    using e ih Cons.prems(2) by (cases "i \<in> set is") auto
  with ih show ?case by auto
qed

text \<open>What a successful \<^verbatim>\<open>compute\<close> did: every input was a float tensor, the session ran on them.\<close>

lemma onnx_compute_Ok:
  assumes "onnx_compute ort x = (Ok (), x')"
  shows "\<exists>vss res. map (shape_input ort) (inputs x) = map Ok vss \<and>
     session_run ort (session x) (concat vss) = Ok res \<and>
     (\<forall>i < length (outputs x). \<exists>sh f32s. i < length res \<and>
        try_extract_raw_tensor ort (res ! i) = Ok (sh, f32s) \<and> outputs x' ! i = Some (f32_vec_to_bytes f32s))"
proof -
  from assms obtain vss res outs where v: "collect_ok (map (shape_input ort) (inputs x)) = Ok vss"
    and r: "session_run ort (session x) (concat vss) = Ok res"
    and s: "store_outputs ort res [0..<length (outputs x)] (outputs x) = (Ok (), outs)"
    and x': "x' = x\<lparr>outputs := outs\<rparr>"
    by (auto simp: onnx_compute_def Let_def split: outcome.splits prod.splits)
  have "\<forall>i \<in> set [0..<length (outputs x)]. i < length (outputs x)" by simp
  from store_outputs_Ok [OF s this] have "\<forall>i < length (outputs x). \<exists>sh f32s. i < length res \<and>
      try_extract_raw_tensor ort (res ! i) = Ok (sh, f32s) \<and> outs ! i = Some (f32_vec_to_bytes f32s)"
    by simp
  with v r x' show ?thesis by (auto simp: collect_ok_Ok_iff)
qed

lemma shape_input_Ok_iff:
  "shape_input ort slot = Ok vs \<longleftrightarrow>
     (\<exists>t xs. slot = Some t \<and> tensor_type t = Fp32 \<and> data t = f32_vec_to_bytes xs \<and>
        ort_inputs ort (map (\<lambda>d. int (unat d)) (dimensions t)) xs = Ok vs)"
proof (cases slot)
  case None
  then show ?thesis by (simp add: shape_input_def)
next
  case (Some t)
  have "bytes_to_f32_vec (data t) = (Ok xs :: (f32 list, backend_error) outcome) \<longleftrightarrow> data t = f32_vec_to_bytes xs" for xs
    using bytes_to_f32_vec_cases [where 'e = backend_error, of "data t"]
    by (metis bytes_to_f32_vec_to_bytes outcome.distinct(3) outcome.inject(1))
  with Some show ?thesis
    by (cases "tensor_type t") (auto simp: shape_input_def bind_ok_Ok_iff unwrap_Ok_iff)
qed

end
