(* ===== verification/NN_Witx.thy ===== *)
theory NN_Witx
  imports NN_Onnx
begin

text \<open>
  The host calls of the machine-learning interface: \<^verbatim>\<open>crates/wasi-nn/src/witx.rs\<close> (the ABI the
  benchmark module imports), \<^verbatim>\<open>crates/wasi-nn/src/wit.rs\<close> (the component-model ABI), and the
  lowering of a result to the guest that \<^verbatim>\<open>crates/wiggle/generate/src/funcs.rs\<close> generates
  around every call.
\<close>

section \<open>The preview1 calls\<close>

text \<open>The loop of \<^verbatim>\<open>load\<close> that turns the guest's array of buffers into slices.\<close>

fun read_builders ::
  "guest_memory \<Rightarrow> (sized_ptr, guest_error) outcome list \<Rightarrow> (u8 list list, guest_error) outcome" where
  "read_builders m [] = Ok []"
| "read_builders m (builder # rest) =
     bind_ok builder (\<lambda>p.
     bind_ok (mem_read slice_ptr_guest_type m p) (\<lambda>b.
     bind_ok (as_slice m b) (\<lambda>s.
     bind_ok (expect s) (\<lambda>slice.
       map_ok (\<lambda>slices. slice # slices) (read_builders m rest)))))"

definition witx_load ::
  "('b, 'g, 'x) nn_backend \<Rightarrow> ('b, 'g, 'x) wasi_nn_ctx \<Rightarrow> guest_memory \<Rightarrow> slice_ptr \<Rightarrow>
   witx_graph_encoding \<Rightarrow> witx_execution_target \<Rightarrow>
   (u32, wasi_nn_error) outcome \<times> ('b, 'g, 'x) wasi_nn_ctx" where
  "witx_load ops self m builders enc target =
     (case backends self (from_witx_encoding enc) of
        None \<Rightarrow> (Err (UsageError (InvalidEncoding (from_witx_encoding enc))), self)
      | Some backend \<Rightarrow>
          (case read_builders m (ptr_iter (gt_size slice_ptr_guest_type) builders) of
             Err e \<Rightarrow> (Err (GuestError e), self)
           | Panic \<Rightarrow> (Panic, self)
           | Ok slices \<Rightarrow>
               (let (r, backend') = backend_load ops backend slices (from_witx_target target);
                    self' = self\<lparr>backends := (backends self)(from_witx_encoding enc \<mapsto> backend')\<rparr>
                in case r of
                     Err e \<Rightarrow> (Err (BackendError e), self')
                   | Panic \<Rightarrow> (Panic, self')
                   | Ok graph \<Rightarrow>
                       (let (graph_id, t) = table_insert (graphs self') graph
                        in (Ok graph_id, self'\<lparr>graphs := t\<rparr>)))))"

definition string_of_bytes :: "u8 list \<Rightarrow> string" where
  "string_of_bytes bs = map (\<lambda>b. char_of (unat b)) bs"

definition witx_load_by_name ::
  "('b, 'g, 'x) wasi_nn_ctx \<Rightarrow> guest_memory \<Rightarrow> slice_ptr \<Rightarrow>
   (u32, wasi_nn_error) outcome \<times> ('b, 'g, 'x) wasi_nn_ctx" where
  "witx_load_by_name self m nm =
     (case bind_ok (as_str m nm) expect of
        Err e \<Rightarrow> (Err (GuestError e), self)
      | Panic \<Rightarrow> (Panic, self)
      | Ok bs \<Rightarrow>
          (case registry_get_mut (registry self) (string_of_bytes bs) of
             Some graph \<Rightarrow>
               (let (graph_id, t) = table_insert (graphs self) graph
                in (Ok graph_id, self\<lparr>graphs := t\<rparr>))
           | None \<Rightarrow> (Err (UsageError (NotFound (string_of_bytes bs))), self)))"

definition witx_init_execution_context ::
  "('b, 'g, 'x) nn_backend \<Rightarrow> ('b, 'g, 'x) wasi_nn_ctx \<Rightarrow> u32 \<Rightarrow>
   (u32, wasi_nn_error) outcome \<times> ('b, 'g, 'x) wasi_nn_ctx" where
  "witx_init_execution_context ops self graph_id =
     (case table_get (graphs self) graph_id of
        None \<Rightarrow> (Err (UsageError InvalidGraphHandle), self)
      | Some graph \<Rightarrow>
          (case init_ctx ops graph of
             Err e \<Rightarrow> (Err (BackendError e), self)
           | Panic \<Rightarrow> (Panic, self)
           | Ok exec_context \<Rightarrow>
               (let (exec_context_id, t) = table_insert (executions self) exec_context
                in (Ok exec_context_id, self\<lparr>executions := t\<rparr>))))"

record witx_tensor =
  witx_dimensions :: slice_ptr
  witx_type :: witx_tensor_type
  witx_data :: slice_ptr

definition witx_set_input ::
  "('b, 'g, 'x) nn_backend \<Rightarrow> ('b, 'g, 'x) wasi_nn_ctx \<Rightarrow> guest_memory \<Rightarrow> u32 \<Rightarrow> u32 \<Rightarrow> witx_tensor \<Rightarrow>
   (unit, wasi_nn_error) outcome \<times> ('b, 'g, 'x) wasi_nn_ctx" where
  "witx_set_input ops self m exec_context_id index t =
     (case table_get (executions self) exec_context_id of
        None \<Rightarrow> (Err (UsageError InvalidGraphHandle), self)
      | Some exec_context \<Rightarrow>
          (case bind_ok (to_vec u32_prim m (witx_dimensions t)) (\<lambda>dims.
                bind_ok (to_vec u8_prim m (witx_data t)) (\<lambda>bs.
                  Ok \<lparr>dimensions = dims, tensor_type = from_witx_tensor_type (witx_type t), data = bs\<rparr>)) of
             Err e \<Rightarrow> (Err (GuestError e), self)
           | Panic \<Rightarrow> (Panic, self)
           | Ok tensor \<Rightarrow>
               (let (r, x') = exec_set_input ops exec_context index tensor
                in (map_err BackendError r,
                    self\<lparr>executions := table_put (executions self) exec_context_id x'\<rparr>))))"

definition witx_compute ::
  "('b, 'g, 'x) nn_backend \<Rightarrow> ('b, 'g, 'x) wasi_nn_ctx \<Rightarrow> u32 \<Rightarrow>
   (unit, wasi_nn_error) outcome \<times> ('b, 'g, 'x) wasi_nn_ctx" where
  "witx_compute ops self exec_context_id =
     (case table_get (executions self) exec_context_id of
        None \<Rightarrow> (Err (UsageError InvalidExecutionContextHandle), self)
      | Some exec_context \<Rightarrow>
          (let (r, x') = exec_compute ops exec_context
           in (map_err BackendError r,
               self\<lparr>executions := table_put (executions self) exec_context_id x'\<rparr>)))"

definition witx_get_output ::
  "('b, 'g, 'x) nn_backend \<Rightarrow> ('b, 'g, 'x) wasi_nn_ctx \<Rightarrow> guest_memory \<Rightarrow> u32 \<Rightarrow> u32 \<Rightarrow> sized_ptr \<Rightarrow> u32 \<Rightarrow>
   (u32, wasi_nn_error) outcome \<times> guest_memory" where
  "witx_get_output ops self m exec_context_id index out_buffer out_buffer_max_size =
     (case table_get (executions self) exec_context_id of
        None \<Rightarrow> (Err (UsageError InvalidGraphHandle), m)
      | Some exec_context \<Rightarrow>
          (case bind_ok (as_slice_mut m (as_array out_buffer out_buffer_max_size)) expect of
             Err e \<Rightarrow> (Err (GuestError e), m)
           | Panic \<Rightarrow> (Panic, m)
           | Ok (lo, hi) \<Rightarrow>
               (let (r, destination) =
                      exec_get_output ops exec_context index (take (hi - lo) (drop lo (mem_bytes m)))
                in (map_err BackendError r, with_bytes m (overwrite (mem_bytes m) lo destination)))))"

section \<open>Lowering results to the guest\<close>

datatype nn_errno =
    Success | Errno_InvalidArgument | Errno_InvalidEncoding | Errno_MissingMemory | Errno_Busy
  | Errno_RuntimeError | Errno_UnsupportedOperation | Errno_TooLarge | Errno_NotFound

text \<open>\<^verbatim>\<open>UserErrorConversion\<close>: every host error ends in \<^verbatim>\<open>unimplemented!()\<close>.\<close>

fun nn_errno_from_wasi_nn_error :: "wasi_nn_error \<Rightarrow> (nn_errno, guest_error) outcome" where
  "nn_errno_from_wasi_nn_error (BackendError _) = Panic"
| "nn_errno_from_wasi_nn_error (GuestError _) = Panic"
| "nn_errno_from_wasi_nn_error (UsageError _) = Panic"

text \<open>
  The generated wrapper: on success the payload is stored through the result pointer and the
  errno is \<open>Success\<close>; an error value goes through the conversion.
\<close>

definition lower_result ::
  "('v \<Rightarrow> guest_memory \<Rightarrow> (unit, guest_error) outcome \<times> guest_memory) \<Rightarrow> string \<Rightarrow> string \<Rightarrow>
   ('v, wasi_nn_error) outcome \<Rightarrow> guest_memory \<Rightarrow> (nn_errno, guest_error) outcome \<times> guest_memory" where
  "lower_result store func loc r m =
     (case r of
        Ok v \<Rightarrow>
          (case store v m of
             (Ok _, m') \<Rightarrow> (Ok Success, m')
           | (Err e, m') \<Rightarrow> (Err (InFunc ''wasi_ephemeral_nn'' func loc e), m')
           | (Panic, m') \<Rightarrow> (Panic, m'))
      | Err e \<Rightarrow> (nn_errno_from_wasi_nn_error e, m)
      | Panic \<Rightarrow> (Panic, m))"

definition store_u32_at :: "sized_ptr \<Rightarrow> u32 \<Rightarrow> guest_memory \<Rightarrow> (unit, guest_error) outcome \<times> guest_memory" where
  "store_u32_at ret v m = mem_write (integer_primitive u32_prim) m ret v"

section \<open>The component-model calls\<close>

definition wit_load ::
  "('b, 'g, 'x) nn_backend \<Rightarrow> ('b, 'g, 'x) wasi_nn_ctx \<Rightarrow> u8 list list \<Rightarrow> graph_encoding \<Rightarrow> execution_target \<Rightarrow>
   (u32, wasi_nn_error) outcome \<times> ('b, 'g, 'x) wasi_nn_ctx" where
  "wit_load ops self builders enc target =
     (case backends self enc of
        None \<Rightarrow> (Err (UsageError (InvalidEncoding enc)), self)
      | Some backend \<Rightarrow>
          (let (r, backend') = backend_load ops backend builders target;
               self' = self\<lparr>backends := (backends self)(enc \<mapsto> backend')\<rparr>
           in case r of
                Err e \<Rightarrow> (Err (BackendError e), self')
              | Panic \<Rightarrow> (Panic, self')
              | Ok graph \<Rightarrow>
                  (let (graph_id, t) = table_insert (graphs self') graph
                   in (Ok graph_id, self'\<lparr>graphs := t\<rparr>))))"

definition wit_load_by_name ::
  "('b, 'g, 'x) wasi_nn_ctx \<Rightarrow> string \<Rightarrow> (u32, wasi_nn_error) outcome \<times> ('b, 'g, 'x) wasi_nn_ctx" where
  "wit_load_by_name self nm =
     (case registry_get_mut (registry self) nm of
        Some graph \<Rightarrow>
          (let (graph_id, t) = table_insert (graphs self) graph in (Ok graph_id, self\<lparr>graphs := t\<rparr>))
      | None \<Rightarrow> (Err (UsageError (NotFound nm)), self))"

definition wit_init_execution_context ::
  "('b, 'g, 'x) nn_backend \<Rightarrow> ('b, 'g, 'x) wasi_nn_ctx \<Rightarrow> u32 \<Rightarrow>
   (u32, wasi_nn_error) outcome \<times> ('b, 'g, 'x) wasi_nn_ctx" where
  "wit_init_execution_context ops self graph_id =
     (case table_get (graphs self) graph_id of
        None \<Rightarrow> (Err (UsageError InvalidGraphHandle), self)
      | Some graph \<Rightarrow>
          (case init_ctx ops graph of
             Err e \<Rightarrow> (Err (BackendError e), self)
           | Panic \<Rightarrow> (Panic, self)
           | Ok exec_context \<Rightarrow>
               (let (exec_context_id, t) = table_insert (executions self) exec_context
                in (Ok exec_context_id, self\<lparr>executions := t\<rparr>))))"

definition wit_set_input ::
  "('b, 'g, 'x) nn_backend \<Rightarrow> ('b, 'g, 'x) wasi_nn_ctx \<Rightarrow> u32 \<Rightarrow> u32 \<Rightarrow> tensor \<Rightarrow>
   (unit, wasi_nn_error) outcome \<times> ('b, 'g, 'x) wasi_nn_ctx" where
  "wit_set_input ops self exec_context_id index tensor =
     (case table_get (executions self) exec_context_id of
        None \<Rightarrow> (Err (UsageError InvalidGraphHandle), self)
      | Some exec_context \<Rightarrow>
          (let (r, x') = exec_set_input ops exec_context index tensor
           in (map_err BackendError r,
               self\<lparr>executions := table_put (executions self) exec_context_id x'\<rparr>)))"

definition wit_compute ::
  "('b, 'g, 'x) nn_backend \<Rightarrow> ('b, 'g, 'x) wasi_nn_ctx \<Rightarrow> u32 \<Rightarrow>
   (unit, wasi_nn_error) outcome \<times> ('b, 'g, 'x) wasi_nn_ctx" where
  "wit_compute ops self exec_context_id =
     (case table_get (executions self) exec_context_id of
        None \<Rightarrow> (Err (UsageError InvalidExecutionContextHandle), self)
      | Some exec_context \<Rightarrow>
          (let (r, x') = exec_compute ops exec_context
           in (map_err BackendError r,
               self\<lparr>executions := table_put (executions self) exec_context_id x'\<rparr>)))"

definition wit_get_output ::
  "('b, 'g, 'x) nn_backend \<Rightarrow> ('b, 'g, 'x) wasi_nn_ctx \<Rightarrow> u32 \<Rightarrow> u32 \<Rightarrow>
   (u8 list, wasi_nn_error) outcome" where
  "wit_get_output ops self exec_context_id index =
     (case table_get (executions self) exec_context_id of
        None \<Rightarrow> Err (UsageError InvalidGraphHandle)
      | Some exec_context \<Rightarrow>
          (let (r, destination) = exec_get_output ops exec_context index (replicate (1024 * 1024) 0)
           in map_ok (\<lambda>bytes_read. take (unat bytes_read) destination) (map_err BackendError r)))"

section \<open>The calls as steps of a machine\<close>

text \<open>
  One step is one host call by the module, with any memory and any arguments and whatever its
  result; \<open>nn_run ops c n c'\<close> says that \<open>n\<close> calls lead from \<open>c\<close> to \<open>c'\<close>. The call
  \<^verbatim>\<open>get_output\<close> leaves the context unchanged.
\<close>

inductive nn_step ::
  "('b, 'g, 'x) nn_backend \<Rightarrow> ('b, 'g, 'x) wasi_nn_ctx \<Rightarrow> ('b, 'g, 'x) wasi_nn_ctx \<Rightarrow> bool"
  for ops where
  step_load: "witx_load ops c m p e t = (r, c') \<Longrightarrow> nn_step ops c c'"
| step_load_by_name: "witx_load_by_name c m p = (r, c') \<Longrightarrow> nn_step ops c c'"
| step_init: "witx_init_execution_context ops c g = (r, c') \<Longrightarrow> nn_step ops c c'"
| step_set_input: "witx_set_input ops c m x i t = (r', c') \<Longrightarrow> nn_step ops c c'"
| step_compute: "witx_compute ops c x = (r', c') \<Longrightarrow> nn_step ops c c'"

inductive nn_run ::
  "('b, 'g, 'x) nn_backend \<Rightarrow> ('b, 'g, 'x) wasi_nn_ctx \<Rightarrow> nat \<Rightarrow> ('b, 'g, 'x) wasi_nn_ctx \<Rightarrow> bool"
  for ops c0 where
  run_start: "nn_run ops c0 0 c0"
| run_step: "nn_run ops c0 n c \<Longrightarrow> nn_step ops c c' \<Longrightarrow> nn_run ops c0 (Suc n) c'"

text \<open>What the tables promise after \<open>n\<close> calls.\<close>

definition table_upto :: "nat \<Rightarrow> 'v nn_table \<Rightarrow> bool" where
  "table_upto n t = (table_invar t \<and> unat (next_key t) \<le> n)"

lemma table_upto_insert:
  assumes "table_upto n t" and "n < u32_MAX" and "table_insert t v = (k, t')"
  shows "table_upto (Suc n) t'" and "table_get t k = None" and "table_get t' = (table_get t)(k \<mapsto> v)"
proof -
  from assms have inv: "table_invar t" and room: "0 < table_room t"
    by (auto simp: table_upto_def table_room_def)
  from assms(3) have k: "k = next_key t"
    and t': "t' = t\<lparr>next_key := next_key t + 1, entries := (entries t)(next_key t \<mapsto> v)\<rparr>"
    by (auto simp: table_insert_eq)
  from nn.ins_room [OF inv room, of v] assms(3)
  show "table_get t k = None" and "table_get t' = (table_get t)(k \<mapsto> v)" by auto
  from nn.ins_room [OF inv room, of v] assms(3) have "table_invar t'" by auto
  with assms(1) next_key_Suc [OF room] show "table_upto (Suc n) t'"
    by (auto simp: table_upto_def t')
qed

lemma table_upto_mono: "table_upto n t \<Longrightarrow> n \<le> n' \<Longrightarrow> table_upto n' t"
  by (auto simp: table_upto_def)

lemma table_upto_put: "table_upto n t \<Longrightarrow> table_get t k \<noteq> None \<Longrightarrow> table_upto n (table_put t k v)"
  by (simp add: table_upto_def table_invar_put, simp add: table_put_def)

definition ctx_upto :: "('x \<Rightarrow> bool) \<Rightarrow> nat \<Rightarrow> ('b, 'g, 'x) wasi_nn_ctx \<Rightarrow> bool" where
  "ctx_upto P n c =
     (table_upto n (graphs c) \<and> table_upto n (executions c) \<and>
      (\<forall>k x. table_get (executions c) k = Some x \<longrightarrow> P x))"

text \<open>A property of execution contexts that the backend establishes and keeps.\<close>

locale nn_exec_invariant =
  fixes ops :: "('b, 'g, 'x) nn_backend" and P :: "'x \<Rightarrow> bool"
  assumes init_P: "init_ctx ops g = Ok x \<Longrightarrow> P x"
    and set_input_P: "exec_set_input ops x i t = (r, x') \<Longrightarrow> P x \<Longrightarrow> P x'"
    and compute_P: "exec_compute ops x = (r, x') \<Longrightarrow> P x \<Longrightarrow> P x'"
begin

lemma ctx_upto_put:
  assumes "ctx_upto P n c" and "table_get (executions c) k = Some x" and "P x'"
  shows "ctx_upto P n (c\<lparr>executions := table_put (executions c) k x'\<rparr>)"
  using assms by (auto simp: ctx_upto_def table_upto_put table_get_put)

lemma ctx_upto_lookup: "ctx_upto P n c \<Longrightarrow> table_get (executions c) k = Some x \<Longrightarrow> P x"
  by (auto simp: ctx_upto_def)

lemma ctx_upto_Suc: "ctx_upto P n c \<Longrightarrow> ctx_upto P (Suc n) c"
  by (auto simp: ctx_upto_def intro: table_upto_mono)

lemma ctx_upto_graph:
  assumes "ctx_upto P n c" and "n < u32_MAX" and "table_insert (graphs c) g = (k, t)"
  shows "ctx_upto P (Suc n) (c\<lparr>graphs := t\<rparr>)"
  using assms table_upto_insert(1) [OF _ assms(2,3)] by (auto simp: ctx_upto_def intro: table_upto_mono)

lemma ctx_upto_exec:
  assumes "ctx_upto P n c" and "n < u32_MAX" and "table_insert (executions c) x = (k, t)" and "P x"
  shows "ctx_upto P (Suc n) (c\<lparr>executions := t\<rparr>)"
  using assms table_upto_insert [OF _ assms(2,3)] by (auto simp: ctx_upto_def intro: table_upto_mono)

lemma step_ctx_upto:
  assumes "nn_step ops c c'" and "ctx_upto P n c" and "n < u32_MAX"
  shows "ctx_upto P (Suc n) c'"
  using assms
proof (induction rule: nn_step.induct)
  case (step_load c m p e t r c')
  have b: "ctx_upto P n (c\<lparr>backends := f\<rparr>)" for f using step_load.prems(1) by (simp add: ctx_upto_def)
  from step_load b [THEN ctx_upto_graph] b [THEN ctx_upto_Suc] ctx_upto_Suc show ?case
    by (auto simp: witx_load_def Let_def split: option.splits outcome.splits prod.splits)
next
  case (step_load_by_name c m p r c')
  then show ?case
    by (auto simp: witx_load_by_name_def Let_def ctx_upto_Suc intro: ctx_upto_graph
        split: option.splits outcome.splits prod.splits)
next
  case (step_init c g r c')
  then show ?case
    by (auto simp: witx_init_execution_context_def Let_def ctx_upto_Suc
        intro: ctx_upto_exec dest: init_P split: option.splits outcome.splits prod.splits)
next
  case (step_set_input c m x i t r' c')
  then show ?case
    by (auto simp: witx_set_input_def Let_def intro!: ctx_upto_Suc ctx_upto_put
        intro: set_input_P ctx_upto_lookup split: option.splits outcome.splits prod.splits)
next
  case (step_compute c x r' c')
  then show ?case
    by (auto simp: witx_compute_def Let_def intro!: ctx_upto_Suc ctx_upto_put
        intro: compute_P ctx_upto_lookup split: option.splits outcome.splits prod.splits)
qed

lemma run_ctx_upto:
  assumes "nn_run ops c0 n c" and "ctx_upto P 0 c0" and "n \<le> u32_MAX"
  shows "ctx_upto P n c"
  using assms by (induction rule: nn_run.induct) (auto intro: step_ctx_upto)

end

interpretation onnx_wf: nn_exec_invariant "onnx_backend read_file ort" "onnx_exec_wf ort"
  for read_file and ort :: "('bld, 's, 'v) ort"
  by unfold_locales
    (auto simp: onnx_backend_def intro: onnx_init_wf onnx_set_input_wf dest: onnx_compute_wf)

lemma ctx_upto_new: "ctx_upto P 0 (ctx_new ops bs reg)"
  by (simp add: ctx_upto_def ctx_new_def table_upto_def table_invar_default table_get_def
      table_default_def table_invar_def)

section \<open>What each successful call did\<close>

lemma table_insert_get: "table_insert t v = (k, t') \<Longrightarrow> table_get t' k = Some v"
  by (auto simp: table_insert_eq table_get_def)

lemma witx_load_Ok:
  assumes "witx_load (onnx_backend read_file ort) c m p Witx_Onnx t = (Ok g, c')"
  obtains model bld bld' s where
    "read_builders m (ptr_iter 8 p) = Ok [model]" and
    "session_builder ort = Ok bld" and "with_optimization_level3 ort bld = Ok bld'" and
    "commit_from_memory ort bld' model = Ok s" and
    "table_get (graphs c') g = Some (ONNXGraph s (from_witx_target t))" and
    "executions c' = executions c"
proof -
  have sz: "gt_size slice_ptr_guest_type = 8" by (simp add: slice_ptr_guest_type_def)
  from assms obtain slices gr where sl: "read_builders m (ptr_iter 8 p) = Ok slices"
    and l: "onnx_load ort slices (from_witx_target t) = Ok gr"
    and c': "table_get (graphs c') g = Some gr" "executions c' = executions c"
    by (auto simp: witx_load_def onnx_backend_def Let_def sz table_insert_get
        split: option.splits outcome.splits prod.splits)
  from l obtain model where "slices = [model]"
    by (cases slices) (auto simp: onnx_load_def split: if_splits)
  with l sl c' show ?thesis
    by (auto simp: onnx_load_def bind_ok_Ok_iff map_err_Ok_iff intro: that)
qed

lemma witx_init_Ok:
  assumes "witx_init_execution_context ops c g = (Ok x, c')"
  obtains gr x0 where "table_get (graphs c) g = Some gr" and "init_ctx ops gr = Ok x0"
    and "table_get (executions c') x = Some x0"
  using assms
  by (auto simp: witx_init_execution_context_def Let_def table_insert_get
      split: option.splits outcome.splits prod.splits)

lemma witx_set_input_Ok:
  assumes "witx_set_input ops c m x i t = (Ok (), c')"
  obtains x0 dims bs x1 where "table_get (executions c) x = Some x0"
    and "to_vec u32_prim m (witx_dimensions t) = Ok dims" and "to_vec u8_prim m (witx_data t) = Ok bs"
    and "exec_set_input ops x0 i
           \<lparr>dimensions = dims, tensor_type = from_witx_tensor_type (witx_type t), data = bs\<rparr> = (Ok (), x1)"
    and "table_get (executions c') x = Some x1"
  using assms
  by (auto simp: witx_set_input_def Let_def table_get_put bind_ok_Ok_iff map_err_Ok_iff
      split: option.splits outcome.splits prod.splits)

lemma witx_compute_Ok:
  assumes "witx_compute ops c x = (Ok (), c')"
  obtains x0 x1 where "table_get (executions c) x = Some x0" and "exec_compute ops x0 = (Ok (), x1)"
    and "table_get (executions c') x = Some x1"
  using assms
  by (auto simp: witx_compute_def Let_def table_get_put map_err_Ok_iff split: option.splits prod.splits)

lemma witx_get_output_Ok:
  assumes "witx_get_output ops c m x i p n = (Ok k, m')"
  obtains x0 d where "table_get (executions c) x = Some x0" and "\<not> is_shared_memory m"
    and "in_bounds 1 m (offset p) n"
    and "exec_get_output ops x0 i (take (unat n) (drop (unat (offset p)) (mem_bytes m))) = (Ok k, d)"
    and "m' = with_bytes m (overwrite (mem_bytes m) (unat (offset p)) d)"
proof -
  from assms obtain x0 lo hi d where x0: "table_get (executions c) x = Some x0"
    and s: "as_slice_mut m (as_array p n) = Ok (Some (lo, hi))"
    and g: "exec_get_output ops x0 i (take (hi - lo) (drop lo (mem_bytes m))) = (Ok k, d)"
    and m': "m' = with_bytes m (overwrite (mem_bytes m) lo d)"
    by (auto simp: witx_get_output_def Let_def bind_ok_Ok_iff map_err_Ok_iff expect_Ok_iff
        split: option.splits outcome.splits prod.splits)
  from s have e: "\<not> is_shared_memory m" "in_bounds 1 m (offset p) n"
    "lo = unat (offset p)" "hi = unat (offset p) + unat n"
    by (auto simp: as_slice_mut_Ok_iff)
  from x0 e(1,2) g m' show ?thesis
    unfolding e(3,4) by (intro that [of x0 d]) simp_all
qed

section \<open>One inference, from the module's memory to the module's memory\<close>

lemma single_input:
  assumes "onnx_set_input \<lparr>session = s, inputs = replicate k None, outputs = outs\<rparr> 0 t = (Ok (), x1)"
    and "map (shape_input ort) (inputs x1) = map Ok vss"
  shows "k = 1 \<and> inputs x1 = [Some t] \<and> session x1 = s \<and> outputs x1 = outs"
proof -
  from assms(1) have k: "0 < k" and x1: "x1 = \<lparr>session = s, inputs = (replicate k None)[0 := Some t], outputs = outs\<rparr>"
    by (auto simp: onnx_set_input_def split: if_splits)
  have "\<not> 1 < k"
  proof
    assume "1 < k"
    then have "inputs x1 ! 1 = None" and "1 < length (inputs x1)" by (simp_all add: x1)
    moreover have "shape_input ort (inputs x1 ! 1) = Ok (vss ! 1)"
      using assms(2) \<open>1 < length (inputs x1)\<close> by (metis length_map nth_map)
    ultimately show False by (simp add: shape_input_def)
  qed
  with k have "k = 1" by simp
  then show ?thesis by (simp add: x1)
qed

lemma onnx_single_inference:
  assumes si: "onnx_set_input \<lparr>session = s, inputs = replicate (session_inputs ort s) None,
      outputs = replicate (session_outputs ort s) None\<rparr> 0 t = (Ok (), x1)"
    and cp: "onnx_compute ort x1 = (Ok (), x2)" and go: "onnx_get_output x2 0 dest = (Ok k, d)"
  shows "\<exists>xs vs res sh ys. session_inputs ort s = 1 \<and> tensor_type t = Fp32 \<and> data t = f32_vec_to_bytes xs \<and>
     ort_inputs ort (map (\<lambda>d. int (unat d)) (dimensions t)) xs = Ok vs \<and>
     session_run ort s vs = Ok res \<and> try_extract_raw_tensor ort (res ! 0) = Ok (sh, ys) \<and>
     4 * length ys \<le> length dest \<and> k = of_nat (4 * length ys) \<and> d = overwrite dest 0 (f32_vec_to_bytes ys)"
proof -
  obtain vss res where vss: "map (shape_input ort) (inputs x1) = map Ok vss"
    and run: "session_run ort (session x1) (concat vss) = Ok res"
    and outs: "\<forall>i < length (outputs x1). \<exists>sh f32s. i < length res \<and>
        try_extract_raw_tensor ort (res ! i) = Ok (sh, f32s) \<and> outputs x2 ! i = Some (f32_vec_to_bytes f32s)"
    using onnx_compute_Ok [OF cp] by blast
  have one: "session_inputs ort s = 1" "session x1 = s" "inputs x1 = [Some t]"
    using single_input [OF si vss] by auto
  obtain vs where vs: "vss = [vs]" using vss one(3) by auto
  obtain xs where xs: "tensor_type t = Fp32" "data t = f32_vec_to_bytes xs"
      "ort_inputs ort (map (\<lambda>d. int (unat d)) (dimensions t)) xs = Ok vs"
    using vss unfolding one(3) vs by (auto simp: shape_input_Ok_iff)
  have "length (outputs x2) = length (outputs x1)"
    using cp by (auto simp: onnx_compute_def Let_def length_store_outputs split: outcome.splits prod.splits)
  moreover from go have "0 < length (outputs x2)" by (auto simp: onnx_get_output_def split: if_splits)
  ultimately obtain sh ys where ys: "try_extract_raw_tensor ort (res ! 0) = Ok (sh, ys)"
      "outputs x2 ! 0 = Some (f32_vec_to_bytes ys)" using outs by auto
  from go ys(2) have "4 * length ys \<le> length dest" "k = of_nat (4 * length ys)"
      "d = overwrite dest 0 (f32_vec_to_bytes ys)"
    by (auto simp: onnx_get_output_def split: if_splits)
  with one(1) xs run [unfolded one(2) vs] ys(1) show ?thesis by auto
qed

text \<open>
  A concrete run: a runtime that returns its inputs, and a module memory of 24 bytes that holds
  the array of model buffers, the dimensions, one float, the model and the result buffer.
\<close>

definition echo_ort :: "(unit, unit, f32 list) ort" where
  "echo_ort =
     \<lparr>session_builder = Ok (), with_optimization_level3 = (\<lambda>b. Ok b), commit_from_memory = (\<lambda>b bs. Ok ()),
      session_inputs = (\<lambda>_. 1), session_outputs = (\<lambda>_. 1), ort_inputs = (\<lambda>dims xs. Ok [xs]),
      session_run = (\<lambda>s vs. Ok vs), try_extract_raw_tensor = (\<lambda>v. Ok ([int (length v)], v))\<rparr>"

definition echo_ops :: "(unit, unit onnx_graph, unit onnx_exec) nn_backend" where
  "echo_ops = onnx_backend (\<lambda>_. Err ''no such file'') echo_ort"

definition echo_memory :: guest_memory where
  "echo_memory = Unshared 0 [16,0,0,0, 2,0,0,0, 1,0,0,0, 0,0,0x80,0x3F, 7,8,0,0, 0,0,0,0]"

definition echo_tensor :: witx_tensor where
  "echo_tensor = \<lparr>witx_dimensions = GuestPtr (8, 1), witx_type = Witx_F32, witx_data = GuestPtr (12, 4)\<rparr>"

definition echo_ctx :: "tensor option list \<Rightarrow> u8 list option list \<Rightarrow> (unit, unit onnx_graph, unit onnx_exec) wasi_nn_ctx" where
  "echo_ctx ins outs =
     \<lparr>backends = [Onnx \<mapsto> ()], registry = Map.empty,
      graphs = \<lparr>entries = [0 \<mapsto> ONNXGraph () Cpu], next_key = 1\<rparr>,
      executions = \<lparr>entries = [0 \<mapsto> \<lparr>session = (), inputs = ins, outputs = outs\<rparr>], next_key = 1\<rparr>\<rparr>"

lemmas echo_defs = echo_ops_def onnx_backend_def echo_ort_def echo_ctx_def echo_tensor_def
lemmas eval_memory =
  mem_read_def slice_ptr_guest_type_def slice_ptr_read_def prim_read_def as_slice_def as_array_def
  validate_size_align_def validate_range_def checked_mul_def align_to_def Let_def
  u32_prim_def u8_prim_def word_prim_def ptr_iter_def ptr_len_def as_ptr_def offset_base_def ptr_add_eq
  to_vec_def chunks_of_def as_slice_mut_def

lemma echo_builders: "read_builders echo_memory (ptr_iter 8 (GuestPtr (0, 1))) = Ok [[7, 8]]"
  by (simp add: eval_memory echo_memory_def)

lemma echo_load:
  "witx_load echo_ops (ctx_new echo_ops [()] Map.empty) echo_memory (GuestPtr (0, 1)) Witx_Onnx Witx_Cpu =
     (Ok 0, (echo_ctx [] [])\<lparr>executions := table_default\<rparr>)"
  by (simp add: witx_load_def ctx_new_def echo_defs echo_builders slice_ptr_guest_type_def onnx_load_def
      table_insert_eq table_default_def)

lemma echo_init:
  "witx_init_execution_context echo_ops ((echo_ctx [] [])\<lparr>executions := table_default\<rparr>) 0 =
     (Ok 0, echo_ctx [None] [None])"
  by (simp add: witx_init_execution_context_def echo_defs table_get_def table_insert_eq table_default_def
     onnx_init_execution_context_def)

lemma echo_set_input:
  "witx_set_input echo_ops (echo_ctx [None] [None]) echo_memory 0 0 echo_tensor =
     (Ok (), echo_ctx [Some \<lparr>dimensions = [1], tensor_type = Fp32, data = [0, 0, 0x80, 0x3F]\<rparr>] [None])"
  by (simp add: witx_set_input_def echo_defs table_get_def table_put_def onnx_set_input_def
      eval_memory echo_memory_def upt_rec)

lemma echo_compute:
  "witx_compute echo_ops (echo_ctx [Some \<lparr>dimensions = [1], tensor_type = Fp32, data = [0, 0, 0x80, 0x3F]\<rparr>] [None]) 0 =
     (Ok (), echo_ctx [Some \<lparr>dimensions = [1], tensor_type = Fp32, data = [0, 0, 0x80, 0x3F]\<rparr>] [Some [0, 0, 0x80, 0x3F]])"
  by (simp add: witx_compute_def echo_defs table_get_def table_put_def onnx_compute_def shape_input_def
      bytes_to_f32_vec_def f32_from_le_bytes_def f32_vec_to_bytes_def f32_to_le_bytes_def Let_def le_encode_4)

lemma echo_get_output:
  "witx_get_output echo_ops (echo_ctx [Some \<lparr>dimensions = [1], tensor_type = Fp32, data = [0, 0, 0x80, 0x3F]\<rparr>] [Some [0, 0, 0x80, 0x3F]])
      echo_memory 0 0 (GuestPtr 20) 4 =
     (Ok 4, with_bytes echo_memory [16,0,0,0, 2,0,0,0, 1,0,0,0, 0,0,0x80,0x3F, 7,8,0,0, 0,0,0x80,0x3F])"
  by (simp add: witx_get_output_def echo_defs table_get_def eval_memory echo_memory_def onnx_get_output_def overwrite_def)
text \<open>
  Claim C1. One inference through the host interface: if loading the model from the module's
  buffer, creating a context, setting input 0, computing and fetching output 0 all succeed,
  then the model has exactly one input, the session built from the module's bytes ran on the
  tensor that lies in the module's memory (its bytes read as little-endian floats, its
  dimensions as given), and the result buffer in the module's memory holds exactly the bytes
  of output 0, the returned count being their number; every other byte is unchanged.
\<close>

theorem inference_pipeline:
  fixes ort :: "('bld, 's, 'v) ort"
  assumes load: "witx_load (onnx_backend read_file ort) c m p Witx_Onnx tgt = (Ok g, c1)"
    and init: "witx_init_execution_context (onnx_backend read_file ort) c1 g = (Ok x, c2)"
    and set: "witx_set_input (onnx_backend read_file ort) c2 m x 0 t = (Ok (), c3)"
    and comp: "witx_compute (onnx_backend read_file ort) c3 x = (Ok (), c4)"
    and get: "witx_get_output (onnx_backend read_file ort) c4 m x 0 buf n = (Ok k, m')"
  shows "\<exists>model bld bld' s dims xs vs res sh ys.
     read_builders m (ptr_iter 8 p) = Ok [model] \<and>
     session_builder ort = Ok bld \<and> with_optimization_level3 ort bld = Ok bld' \<and>
     commit_from_memory ort bld' model = Ok s \<and> session_inputs ort s = 1 \<and>
     to_vec u32_prim m (witx_dimensions t) = Ok dims \<and>
     to_vec u8_prim m (witx_data t) = Ok (f32_vec_to_bytes xs) \<and> witx_type t = Witx_F32 \<and>
     ort_inputs ort (map (\<lambda>d. int (unat d)) dims) xs = Ok vs \<and>
     session_run ort s vs = Ok res \<and> try_extract_raw_tensor ort (res ! 0) = Ok (sh, ys) \<and>
     4 * length ys \<le> unat n \<and> k = of_nat (4 * length ys) \<and>
     take (4 * length ys) (drop (unat (offset buf)) (mem_bytes m')) = f32_vec_to_bytes ys \<and>
     same_outside m m' (unat (offset buf)) (unat (offset buf) + 4 * length ys)"
proof -
  let ?ops = "onnx_backend read_file ort"
  obtain model bld bld' s where model: "read_builders m (ptr_iter 8 p) = Ok [model]"
      "session_builder ort = Ok bld" "with_optimization_level3 ort bld = Ok bld'"
      "commit_from_memory ort bld' model = Ok s"
    and g: "table_get (graphs c1) g = Some (ONNXGraph s (from_witx_target tgt))"
    using load by (rule witx_load_Ok)
  have x0: "table_get (executions c2) x = Some \<lparr>session = s, inputs = replicate (session_inputs ort s) None,
      outputs = replicate (session_outputs ort s) None\<rparr>"
    using init g by (auto elim!: witx_init_Ok simp: onnx_backend_def onnx_init_execution_context_def Let_def)
  obtain dims bs x1 where t: "to_vec u32_prim m (witx_dimensions t) = Ok dims"
      "to_vec u8_prim m (witx_data t) = Ok bs"
    and si: "onnx_set_input \<lparr>session = s, inputs = replicate (session_inputs ort s) None,
          outputs = replicate (session_outputs ort s) None\<rparr> 0 \<lparr>dimensions = dims,
          tensor_type = from_witx_tensor_type (witx_type t), data = bs\<rparr> = (Ok (), x1)"
    and x1: "table_get (executions c3) x = Some x1"
    using set x0 by (auto elim!: witx_set_input_Ok simp: onnx_backend_def)
  obtain x2 where cp: "onnx_compute ort x1 = (Ok (), x2)" and x2: "table_get (executions c4) x = Some x2"
    using comp x1 by (auto elim!: witx_compute_Ok simp: onnx_backend_def)
  let ?dest = "take (unat n) (drop (unat (offset buf)) (mem_bytes m))"
  obtain d where d: "onnx_get_output x2 0 ?dest = (Ok k, d)"
      "m' = with_bytes m (overwrite (mem_bytes m) (unat (offset buf)) d)"
    and inb: "in_bounds 1 m (offset buf) n"
    using get x2 by (auto elim!: witx_get_output_Ok simp: onnx_backend_def)
  obtain xs vs res sh ys where r: "session_inputs ort s = 1" "from_witx_tensor_type (witx_type t) = Fp32"
      "bs = f32_vec_to_bytes xs" "ort_inputs ort (map (\<lambda>d. int (unat d)) dims) xs = Ok vs"
      "session_run ort s vs = Ok res" "try_extract_raw_tensor ort (res ! 0) = Ok (sh, ys)"
      "4 * length ys \<le> length ?dest" "k = of_nat (4 * length ys)"
      "d = overwrite ?dest 0 (f32_vec_to_bytes ys)"
    using onnx_single_inference [OF si cp d(1)] by auto
  have fits: "4 * length ys \<le> unat n" "unat (offset buf) + unat n \<le> length (mem_bytes m)"
    using r(7) inb by (simp_all add: in_bounds_def)
  then have m': "m' = with_bytes m (overwrite (mem_bytes m) (unat (offset buf)) (f32_vec_to_bytes ys))"
    by (simp add: d(2) r(9) overwrite_slice)
  have ty: "witx_type t = Witx_F32" using r(2) by (cases "witx_type t") auto
  have fits': "unat (offset buf) + length (f32_vec_to_bytes ys) \<le> length (mem_bytes m)"
    using fits by simp
  show ?thesis
    using model t r(1,3-6,8) ty fits(1) overwrite_same [OF fits'] same_outside_overwrite [OF fits']
    by (auto simp: m')
qed

theorem inference_pipeline_witness:
  "\<exists>c1 c2 c3 c4 m'.
     witx_load echo_ops (ctx_new echo_ops [()] Map.empty) echo_memory (GuestPtr (0, 1)) Witx_Onnx Witx_Cpu = (Ok 0, c1) \<and>
     witx_init_execution_context echo_ops c1 0 = (Ok 0, c2) \<and>
     witx_set_input echo_ops c2 echo_memory 0 0 echo_tensor = (Ok (), c3) \<and>
     witx_compute echo_ops c3 0 = (Ok (), c4) \<and>
     witx_get_output echo_ops c4 echo_memory 0 0 (GuestPtr 20) 4 = (Ok 4, m') \<and>
     same_outside echo_memory m' 20 24 \<and> take 4 (drop 20 (mem_bytes m')) = [0, 0, 0x80, 0x3F]"
proof -
  let ?m' = "with_bytes echo_memory [16,0,0,0, 2,0,0,0, 1,0,0,0, 0,0,0x80,0x3F, 7,8,0,0, 0,0,0x80,0x3F]"
  have "\<exists>ys :: f32 list. 4 * length ys \<le> unat (4 :: u32) \<and> (4 :: u32) = of_nat (4 * length ys) \<and>
      same_outside echo_memory ?m' (unat (offset (GuestPtr (20 :: u32)))) (unat (offset (GuestPtr (20 :: u32))) + 4 * length ys)"
    using inference_pipeline [OF echo_load [unfolded echo_ops_def] echo_init [unfolded echo_ops_def]
        echo_set_input [unfolded echo_ops_def] echo_compute [unfolded echo_ops_def]
        echo_get_output [unfolded echo_ops_def]] by blast
  then have "same_outside echo_memory ?m' 20 24" by (auto elim: same_outside_mono)
  then show ?thesis
    using echo_load echo_init echo_set_input echo_compute echo_get_output by auto
qed

section \<open>Properties of the interface\<close>

context nn_backend_laws
begin

lemma get_output_frame:
  assumes "witx_get_output ops c m x i p n = (r, m')"
  shows "same_outside m m' (unat (offset p)) (unat (offset p) + unat n)"
proof (cases "\<exists>x0 lo hi. table_get (executions c) x = Some x0 \<and> as_slice_mut m (as_array p n) = Ok (Some (lo, hi))")
  case True
  then obtain x0 lo hi where x0: "table_get (executions c) x = Some x0"
    and s: "as_slice_mut m (as_array p n) = Ok (Some (lo, hi))" by auto
  from s have lo: "lo = unat (offset p)" "hi = unat (offset p) + unat n"
      and b: "unat (offset p) + unat n \<le> length (mem_bytes m)"
    by (auto simp: as_slice_mut_Ok_iff in_bounds_def)
  obtain r' d where g: "exec_get_output ops x0 i (take (hi - lo) (drop lo (mem_bytes m))) = (r', d)"
    by (cases "exec_get_output ops x0 i (take (hi - lo) (drop lo (mem_bytes m)))")
  from get_output_length [OF g] b have "length d = unat n" by (simp add: lo)
  moreover from assms x0 s g have "m' = with_bytes m (overwrite (mem_bytes m) lo d)"
    by (simp add: witx_get_output_def)
  ultimately show ?thesis using same_outside_overwrite [of lo d m] b by (simp add: lo)
next
  case False
  have "m' = m"
    using assms False
    by (auto simp: witx_get_output_def bind_ok_Ok_iff expect_Ok_iff split: option.splits outcome.splits prod.splits)
  then show ?thesis by simp
qed

lemma get_output_count:
  assumes "witx_get_output ops c m x i p n = (Ok k, m')"
  shows "unat k \<le> unat n \<and> same_outside m m' (unat (offset p)) (unat (offset p) + unat k)"
proof -
  obtain x0 d where inb: "in_bounds 1 m (offset p) n"
    and g: "exec_get_output ops x0 i (take (unat n) (drop (unat (offset p)) (mem_bytes m))) = (Ok k, d)"
    and m': "m' = with_bytes m (overwrite (mem_bytes m) (unat (offset p)) d)"
    using assms by (auto elim: witx_get_output_Ok)
  have b: "unat (offset p) + unat n \<le> length (mem_bytes m)" using inb by (simp add: in_bounds_def)
  have len: "length d = unat n" using get_output_length [OF g] b by simp
  have "length (take (unat n) (drop (unat (offset p)) (mem_bytes m))) < 2 ^ 32"
    using b unat_u32_lt [of n] by simp
  from get_output_tail [OF g this] b have k: "unat k \<le> unat n"
    and tl: "drop (unat k) d = drop (unat k) (take (unat n) (drop (unat (offset p)) (mem_bytes m)))" by simp_all
  have "mem_bytes m' ! j = mem_bytes m ! j"
    if j: "j < length (mem_bytes m)" "j < unat (offset p) \<or> unat (offset p) + unat k \<le> j" for j
  proof (cases "unat (offset p) \<le> j \<and> j < unat (offset p) + unat n")
    case True
    with j have q: "unat k \<le> j - unat (offset p)" "j - unat (offset p) < unat n"
        "unat k + (j - (unat (offset p) + unat k)) = j - unat (offset p)" by auto
    have "d ! (j - unat (offset p)) = drop (unat k) d ! (j - unat (offset p) - unat k)"
      using q len by simp
    also have "\<dots> = mem_bytes m ! j" using q b True by (simp add: tl)
    finally show ?thesis using True j b len by (simp add: m' overwrite_nth)
  next
    case False
    then show ?thesis using j b len by (auto simp: m' overwrite_nth)
  qed
  then show ?thesis
    using k b len by (simp add: same_outside_def same_shape_def m')
qed

end

text \<open>
  Claim C3. Whatever its result, fetching an output changes no byte of the module's memory
  outside the buffer it was given; when it succeeds it reports at most the size of the
  buffer and changes no byte after the ones it reports.
\<close>

theorem witx_get_output_confined:
  assumes "witx_get_output (onnx_backend read_file ort) c m x i p n = (r, m')"
  shows "same_outside m m' (unat (offset p)) (unat (offset p) + unat n) \<and>
    (\<forall>k. r = Ok k \<longrightarrow> unat k \<le> unat n \<and> same_outside m m' (unat (offset p)) (unat (offset p) + unat k))"
  using onnx.get_output_frame [OF assms] assms by (auto dest: onnx.get_output_count)

theorem witx_get_output_confined_witness:
  "\<exists>m'. witx_get_output echo_ops (echo_ctx [Some \<lparr>dimensions = [1], tensor_type = Fp32, data = [0, 0, 0x80, 0x3F]\<rparr>] [Some [0, 0, 0x80, 0x3F]])
      echo_memory 0 0 (GuestPtr 20) 4 = (Ok 4, m') \<and> same_outside echo_memory m' 20 24"
  using witx_get_output_confined [OF echo_get_output [unfolded echo_ops_def]] echo_get_output by auto

text \<open>
  Claim C2. After any sequence of at most \<open>2 ^ 32 - 1\<close> host calls on a fresh context, whatever
  the calls returned: every handle in a table is below the next handle to be given out (so a
  new handle is never one in use), and every execution context has exactly one input slot and
  one output slot per input and output of its session.
\<close>

theorem nn_handles_sound:
  fixes ort :: "('bld, 's, 'v) ort"
  assumes "nn_run (onnx_backend read_file ort) (ctx_new (onnx_backend read_file ort) bs reg) n c"
    and "n \<le> u32_MAX"
  shows "table_invar (graphs c) \<and> table_invar (executions c) \<and>
    (\<forall>k x. table_get (executions c) k = Some x \<longrightarrow> onnx_exec_wf ort x)"
  using onnx_wf.run_ctx_upto [OF assms(1) ctx_upto_new assms(2)]
  by (simp add: ctx_upto_def table_upto_def)

theorem nn_handles_sound_witness:
  "nn_run echo_ops (ctx_new echo_ops [()] Map.empty) 2 (echo_ctx [None] [None]) \<and>
   table_invar (executions (echo_ctx [None] [None]))"
proof -
  have r: "nn_run echo_ops (ctx_new echo_ops [()] Map.empty) (Suc (Suc 0)) (echo_ctx [None] [None])"
    using nn_step.step_load [OF echo_load] nn_step.step_init [OF echo_init] nn_run.run_start
    by (auto intro: nn_run.run_step)
  then have "table_invar (executions (echo_ctx [None] [None]))"
    using nn_handles_sound [OF r [unfolded echo_ops_def]] by (simp add: u32_MAX_def)
  with r show ?thesis by (simp add: numeral_2_eq_2)
qed

text \<open>
  Claim C4. Setting an input or computing on one execution context changes no other execution
  context and no graph, whatever the call returns.
\<close>

theorem nn_contexts_isolated:
  assumes "witx_set_input ops c m x i t = (r, c') \<or> witx_compute ops c x = (r, c')" and "y \<noteq> x"
  shows "table_get (executions c') y = table_get (executions c) y \<and> graphs c' = graphs c \<and> backends c' = backends c"
  using assms
  by (auto simp: witx_set_input_def witx_compute_def Let_def table_get_put
      split: option.splits outcome.splits prod.splits)

theorem nn_contexts_isolated_witness:
  "table_get (executions (snd (witx_compute echo_ops (echo_ctx [None] [None]) 0))) 1 = None"
proof -
  obtain r c' where e: "witx_compute echo_ops (echo_ctx [None] [None]) 0 = (r, c')"
    by (cases "witx_compute echo_ops (echo_ctx [None] [None]) 0")
  then have "table_get (executions c') 1 = table_get (executions (echo_ctx [None] [None])) 1"
    using nn_contexts_isolated [OF disjI2 [OF e], of 1] by simp
  with e show ?thesis by (simp add: echo_ctx_def table_get_def)
qed

text \<open>
  An error of the host never reaches the module as an error code: whenever a call of
  the interface returns an error, the generated wrapper panics. An unknown handle or a failing
  backend ends the host process instead of returning an errno.
\<close>

theorem nn_errors_panic: "lower_result store func loc (Err e) m = (Panic, m)"
  by (cases e) (simp_all add: lower_result_def)

text \<open>
  Calls with handles that were never given out fail with the usage errors of the
  code: an unknown graph and, for setting an input or fetching an output, also an unknown
  execution context are reported as an invalid graph handle; only computing reports an
  invalid execution context handle.
\<close>

theorem nn_unknown_handles:
  "(table_get (graphs c) g = None \<longrightarrow>
      witx_init_execution_context ops c g = (Err (UsageError InvalidGraphHandle), c)) \<and>
   (table_get (executions c) x = None \<longrightarrow>
      witx_set_input ops c m x i t = (Err (UsageError InvalidGraphHandle), c) \<and>
      witx_compute ops c x = (Err (UsageError InvalidExecutionContextHandle), c) \<and>
      witx_get_output ops c m x i p n = (Err (UsageError InvalidGraphHandle), m))"
  by (simp add: witx_init_execution_context_def witx_set_input_def witx_compute_def witx_get_output_def)

theorem nn_unknown_handles_witness:
  "witx_compute echo_ops (ctx_new echo_ops [()] Map.empty) 5 =
     (Err (UsageError InvalidExecutionContextHandle), ctx_new echo_ops [()] Map.empty)"
  using nn_unknown_handles [where c = "ctx_new echo_ops [()] Map.empty" and x = 5 and ops = echo_ops]
  by (simp add: ctx_new_def table_default_def table_get_def)

end
