(* ===== verification/F32.thy ===== *)
theory F32
  imports Wiggle_Memory
begin

text \<open>
  The 32-bit floating-point arithmetic of Rust's \<^verbatim>\<open>f32\<close> (IEEE 754 binary32, rounding to nearest,
  ties to even) on bit patterns, as far as the benchmark module uses it: division, subtraction,
  addition and multiplication, conversion from integers, and \<^verbatim>\<open>partial_cmp\<close>. Rust leaves the
  payload of a NaN result open; the model returns the canonical quiet NaN.
\<close>

section \<open>Bit patterns\<close>

definition f32_sign :: "f32 \<Rightarrow> bool" where
  "f32_sign x = (2 ^ 31 \<le> unat x)"

definition f32_mag :: "f32 \<Rightarrow> nat" where
  "f32_mag x = unat x mod 2 ^ 31"

definition f32_is_nan :: "f32 \<Rightarrow> bool" where
  "f32_is_nan x = (0x7F800000 < f32_mag x)"

definition f32_is_inf :: "f32 \<Rightarrow> bool" where
  "f32_is_inf x = (f32_mag x = 0x7F800000)"

definition f32_nan :: f32 where "f32_nan = 0x7FC00000"

definition f32_signed :: "bool \<Rightarrow> nat \<Rightarrow> f32" where
  "f32_signed s mag = of_nat ((if s then 2 ^ 31 else 0) + mag)"

text \<open>
  A finite magnitude is \<open>m * 2 ^ e / 2 ^ 149\<close> for the natural numbers \<open>(m, e)\<close> below.
\<close>

definition f32_parts :: "nat \<Rightarrow> nat \<times> nat" where
  "f32_parts mag =
     (let e = mag div 2 ^ 23; m = mag mod 2 ^ 23
      in if e = 0 then (m, 0) else (2 ^ 23 + m, e - 1))"

definition f32_scaled :: "nat \<Rightarrow> nat" where
  "f32_scaled mag = (let (m, e) = f32_parts mag in m * 2 ^ e)"

section \<open>Rounding\<close>

fun ilog2 :: "nat \<Rightarrow> nat" where
  "ilog2 n = (if n \<le> 1 then 0 else Suc (ilog2 (n div 2)))"

declare ilog2.simps [simp del]

definition round_half_even :: "nat \<Rightarrow> nat \<Rightarrow> nat" where
  "round_half_even n d =
     (let q = n div d; r = n mod d
      in if 2 * r < d then q else if d < 2 * r then Suc q else if even q then q else Suc q)"

text \<open>
  \<open>f32_round n d\<close> is the magnitude nearest to \<open>n / d\<close>: with \<open>q = \<lfloor>n * 2 ^ 149 / d\<rfloor>\<close>
  the value in units of the least subnormal, \<open>e\<close> drops the bits that do not fit into 24.
\<close>

definition f32_round :: "nat \<Rightarrow> nat \<Rightarrow> nat" where
  "f32_round n d =
     (let e = ilog2 (n * 2 ^ 149 div d) - 23;
          r = round_half_even (n * 2 ^ 149) (d * 2 ^ e);
          mag = e * 2 ^ 23 + r
      in if 0x7F800000 \<le> mag then 0x7F800000 else mag)"

section \<open>Arithmetic\<close>

definition f32_of_nat :: "nat \<Rightarrow> f32" where
  "f32_of_nat n = f32_signed False (f32_round n 1)"

definition f32_add :: "f32 \<Rightarrow> f32 \<Rightarrow> f32" where
  "f32_add x y =
     (if f32_is_nan x \<or> f32_is_nan y then f32_nan
      else if f32_is_inf x then (if f32_is_inf y \<and> f32_sign x \<noteq> f32_sign y then f32_nan else x)
      else if f32_is_inf y then y
      else
        let a = f32_scaled (f32_mag x); b = f32_scaled (f32_mag y)
        in if f32_sign x = f32_sign y then f32_signed (f32_sign x) (f32_round (a + b) (2 ^ 149))
           else if a = b then 0
           else if b < a then f32_signed (f32_sign x) (f32_round (a - b) (2 ^ 149))
           else f32_signed (f32_sign y) (f32_round (b - a) (2 ^ 149)))"

definition f32_neg :: "f32 \<Rightarrow> f32" where
  "f32_neg x = f32_signed (\<not> f32_sign x) (f32_mag x)"

definition f32_sub :: "f32 \<Rightarrow> f32 \<Rightarrow> f32" where
  "f32_sub x y = f32_add x (if f32_is_nan y then y else f32_neg y)"

definition f32_mul :: "f32 \<Rightarrow> f32 \<Rightarrow> f32" where
  "f32_mul x y =
     (let s = (f32_sign x \<noteq> f32_sign y)
      in if f32_is_nan x \<or> f32_is_nan y then f32_nan
         else if f32_is_inf x \<or> f32_is_inf y
         then (if f32_mag x = 0 \<or> f32_mag y = 0 then f32_nan else f32_signed s 0x7F800000)
         else f32_signed s (f32_round (f32_scaled (f32_mag x) * f32_scaled (f32_mag y)) (2 ^ 298)))"

definition f32_div :: "f32 \<Rightarrow> f32 \<Rightarrow> f32" where
  "f32_div x y =
     (let s = (f32_sign x \<noteq> f32_sign y)
      in if f32_is_nan x \<or> f32_is_nan y then f32_nan
         else if f32_is_inf x then (if f32_is_inf y then f32_nan else f32_signed s 0x7F800000)
         else if f32_is_inf y then f32_signed s 0
         else if f32_mag y = 0 then (if f32_mag x = 0 then f32_nan else f32_signed s 0x7F800000)
         else f32_signed s (f32_round (f32_scaled (f32_mag x)) (f32_scaled (f32_mag y))))"

section \<open>Comparison\<close>

datatype ordering = Less | Equal | Greater

definition f32_key :: "f32 \<Rightarrow> int" where
  "f32_key x = (if f32_sign x then - int (f32_mag x) else int (f32_mag x))"

definition f32_partial_cmp :: "f32 \<Rightarrow> f32 \<Rightarrow> ordering option" where
  "f32_partial_cmp x y =
     (if f32_is_nan x \<or> f32_is_nan y then None
      else if f32_key x < f32_key y then Some Less
      else if f32_key x = f32_key y then Some Equal
      else Some Greater)"

definition f32_gt :: "f32 \<Rightarrow> f32 \<Rightarrow> bool" where
  "f32_gt x y = (f32_partial_cmp x y = Some Greater)"

section \<open>Sanity of the model\<close>

lemma ilog2_bounds: "0 < n \<Longrightarrow> 2 ^ ilog2 n \<le> n \<and> n < 2 ^ Suc (ilog2 n)"
proof (induction n rule: ilog2.induct)
  case (1 n)
  show ?case
  proof (cases "n \<le> 1")
    case True
    with "1.prems" show ?thesis by (simp add: ilog2.simps [of n])
  next
    case False
    with "1.IH" have "2 ^ ilog2 (n div 2) \<le> n div 2 \<and> n div 2 < 2 ^ Suc (ilog2 (n div 2))" by simp
    with False show ?thesis by (simp add: ilog2.simps [of n]) linarith
  qed
qed

lemma round_half_even_exact: "0 < d \<Longrightarrow> round_half_even (q * d) d = q"
  by (simp add: round_half_even_def)

lemma round_half_even_error:
  assumes "0 < d"
  shows "2 * \<bar>int n - int (round_half_even n d) * int d\<bar> \<le> int d"
proof -
  have n: "int n = int (n div d) * int d + int (n mod d)"
    by (metis div_mult_mod_eq of_nat_add of_nat_mult)
  have "n mod d < d" using assms by simp
  then show ?thesis unfolding round_half_even_def Let_def n by (auto simp: algebra_simps abs_if)
qed

lemma f32_round_zero [simp]: "f32_round 0 d = 0"
  by (simp add: f32_round_def round_half_even_def ilog2.simps)

end
