(* ===== verification/Guest_Tracker.thy ===== *)
theory Guest_Tracker
  imports F32 "HOL-Library.AList"
begin

text \<open>
  The measurement side of the benchmark module (\<^verbatim>\<open>wasm-module/src/main.rs\<close>): \<^verbatim>\<open>Metrics\<close> and
  \<^verbatim>\<open>BenchmarkTracker\<close>. A \<^verbatim>\<open>Duration\<close> and an \<^verbatim>\<open>Instant\<close> are numbers of nanoseconds; adding
  durations panics beyond \<open>2 ^ 64\<close> seconds and subtracting panics below zero, as in the standard
  library. The reading of every \<^verbatim>\<open>Instant::now()\<close> is an argument of the operation that takes it.
  A \<^verbatim>\<open>HashMap\<close> is an association list with distinct keys; no operation depends on its order.
\<close>

section \<open>Durations\<close>

type_synonym duration = nat
type_synonym instant = nat

definition nanos_per_sec :: nat where "nanos_per_sec = 1000000000"

definition duration_max :: nat where "duration_max = 2 ^ 64 * nanos_per_sec"

definition dur_add :: "duration \<Rightarrow> duration \<Rightarrow> (duration, 'e) outcome" where
  "dur_add a b = (if a + b < duration_max then Ok (a + b) else Panic)"

definition dur_sub :: "duration \<Rightarrow> duration \<Rightarrow> (duration, 'e) outcome" where
  "dur_sub a b = (if b \<le> a then Ok (a - b) else Panic)"

definition duration_since :: "instant \<Rightarrow> instant \<Rightarrow> duration" where
  "duration_since now earlier = now - earlier"

definition from_secs :: "u64 \<Rightarrow> duration" where
  "from_secs s = unat s * nanos_per_sec"

definition from_micros :: "u64 \<Rightarrow> duration" where
  "from_micros u = unat u * 1000"

definition as_secs_f32 :: "duration \<Rightarrow> f32" where
  "as_secs_f32 d = f32_add (f32_of_nat (d div nanos_per_sec))
     (f32_div (f32_of_nat (d mod nanos_per_sec)) (f32_of_nat nanos_per_sec))"

section \<open>Metrics\<close>

record metrics =
  name :: string
  timestamp :: instant
  wall_clock_time :: duration
  user_time :: duration
  system_time :: duration
  max_rss :: u64
  cpu_usage :: f32

definition metrics_current :: "instant \<Rightarrow> string \<Rightarrow> (metrics, 'e) outcome" where
  "metrics_current now nm =
     (let tv_sec = (1 :: u64); tv_usec = (0 :: u64)
      in bind_ok (dur_add (from_secs tv_sec) (from_micros tv_usec)) (\<lambda>ut.
         bind_ok (dur_add (from_secs tv_sec) (from_micros tv_usec)) (\<lambda>st.
           Ok \<lparr>name = nm, timestamp = now, wall_clock_time = 0, user_time = ut,
               system_time = st, max_rss = 0, cpu_usage = 0\<rparr>)))"

definition cpu_percent :: "duration \<Rightarrow> duration \<Rightarrow> duration \<Rightarrow> (f32, 'e) outcome" where
  "cpu_percent wall ut st =
     (if f32_gt (as_secs_f32 wall) 0
      then map_ok (\<lambda>cpu. f32_mul (f32_div (as_secs_f32 cpu) (as_secs_f32 wall)) (f32_of_nat 100))
             (dur_add ut st)
      else Ok 0)"

definition metrics_diff :: "metrics \<Rightarrow> metrics \<Rightarrow> (metrics, 'e) outcome" where
  "metrics_diff self prev =
     (let wall = duration_since (timestamp self) (timestamp prev)
      in bind_ok (dur_sub (user_time self) (user_time prev)) (\<lambda>ut.
         bind_ok (dur_sub (system_time self) (system_time prev)) (\<lambda>st.
         bind_ok (cpu_percent wall ut st) (\<lambda>cpu.
           Ok \<lparr>name = name self, timestamp = timestamp self, wall_clock_time = wall,
               user_time = ut, system_time = st, max_rss = max_rss self - max_rss prev,
               cpu_usage = cpu\<rparr>))))"

definition metrics_combine :: "metrics \<Rightarrow> metrics \<Rightarrow> (metrics, 'e) outcome" where
  "metrics_combine self other =
     bind_ok (dur_add (wall_clock_time self) (wall_clock_time other)) (\<lambda>wall.
     bind_ok (dur_add (user_time self) (user_time other)) (\<lambda>ut.
     bind_ok (dur_add (system_time self) (system_time other)) (\<lambda>st.
     bind_ok (cpu_percent wall ut st) (\<lambda>cpu.
       Ok \<lparr>name = name self, timestamp = timestamp self, wall_clock_time = wall,
           user_time = ut, system_time = st, max_rss = max (max_rss self) (max_rss other),
           cpu_usage = cpu\<rparr>))))"

section \<open>The tracker\<close>

record benchmark_tracker =
  start_metrics :: metrics
  current_operation :: "metrics option"
  completed_metrics :: "metrics list"
  active_phases :: "(string \<times> metrics) list"
  phase_metrics :: "(string \<times> metrics) list"
  phase_order :: "string list"

definition tracker_new :: "instant \<Rightarrow> (benchmark_tracker, 'e) outcome" where
  "tracker_new now = map_ok (\<lambda>m. \<lparr>start_metrics = m, current_operation = None,
     completed_metrics = [], active_phases = [], phase_metrics = [], phase_order = []\<rparr>)
     (metrics_current now ''Total'')"

definition start_operation ::
  "instant \<Rightarrow> string \<Rightarrow> benchmark_tracker \<Rightarrow> (benchmark_tracker, 'e) outcome" where
  "start_operation now nm k = map_ok (\<lambda>m. k\<lparr>current_operation := Some m\<rparr>) (metrics_current now nm)"

definition finish_operation_internal ::
  "instant \<Rightarrow> metrics \<Rightarrow> benchmark_tracker \<Rightarrow> (benchmark_tracker, 'e) outcome" where
  "finish_operation_internal now started k =
     bind_ok (metrics_current now (name started)) (\<lambda>end_metrics.
     bind_ok (metrics_diff end_metrics started) (\<lambda>diff.
     map_ok (\<lambda>phases. k\<lparr>completed_metrics := completed_metrics k @ [diff], active_phases := phases\<rparr>)
       (collect_ok (map (\<lambda>(p, m). map_ok (Pair p) (metrics_combine m diff)) (active_phases k)))))"

definition finish_operation ::
  "instant \<Rightarrow> benchmark_tracker \<Rightarrow> (benchmark_tracker, 'e) outcome" where
  "finish_operation now k =
     (case current_operation k of
        None \<Rightarrow> Ok k
      | Some started \<Rightarrow> finish_operation_internal now started (k\<lparr>current_operation := None\<rparr>))"

definition start_phase :: "instant \<Rightarrow> string \<Rightarrow> benchmark_tracker \<Rightarrow> benchmark_tracker" where
  "start_phase now p k =
     (let zero = \<lparr>name = p, timestamp = now, wall_clock_time = 0, user_time = 0,
                  system_time = 0, max_rss = 0, cpu_usage = 0\<rparr>;
          k1 = k\<lparr>active_phases := AList.update p zero (active_phases k)\<rparr>
      in if p \<in> set (phase_order k1) then k1
         else k1\<lparr>phase_order := phase_order k1 @ [p]\<rparr>)"

definition end_phase :: "string \<Rightarrow> benchmark_tracker \<Rightarrow> benchmark_tracker" where
  "end_phase p k =
     (case map_of (active_phases k) p of
        None \<Rightarrow> k
      | Some m \<Rightarrow> k\<lparr>active_phases := AList.delete p (active_phases k),
                   phase_metrics := phase_metrics k @ [(p, m)]\<rparr>)"

definition get_total_metrics :: "instant \<Rightarrow> benchmark_tracker \<Rightarrow> (metrics, 'e) outcome" where
  "get_total_metrics now k =
     bind_ok (metrics_current now ''Total'') (\<lambda>current. metrics_diff current (start_metrics k))"

text \<open>
  Printed output is kept as a list of items: the block \<^verbatim>\<open>Display\<close> writes for a metric, or a line
  of text. The layout of numbers inside a block is left to the formatter.
\<close>

datatype output_item = MetricsBlock metrics | TextLine string | Prediction string i32 f32 | ClassIndex i32

definition printed_phases :: "benchmark_tracker \<Rightarrow> metrics list" where
  "printed_phases k =
     (let group_map = map_of (rev (phase_metrics k))
      in List.map_filter group_map (phase_order k))"

definition print_all_metrics :: "instant \<Rightarrow> benchmark_tracker \<Rightarrow> (output_item list, 'e) outcome" where
  "print_all_metrics now k =
     map_ok (\<lambda>total.
         map MetricsBlock (completed_metrics k) @
         (if phase_metrics k = [] then []
          else TextLine (CHR 0x0A # ''=========== Phase Metrics ==========='') #
               map MetricsBlock (printed_phases k) @
               [TextLine (''===================================='' @ [CHR 0x0A])]) @
         [MetricsBlock total])
       (get_total_metrics now k)"

section \<open>Sequences of tracker calls\<close>

datatype tracker_event =
    StartOp string instant
  | FinishOp instant
  | StartPhase string instant
  | EndPhase string

fun tracker_step :: "tracker_event \<Rightarrow> benchmark_tracker \<Rightarrow> (benchmark_tracker, 'e) outcome" where
  "tracker_step (StartOp nm t) k = start_operation t nm k"
| "tracker_step (FinishOp t) k = finish_operation t k"
| "tracker_step (StartPhase p t) k = Ok (start_phase t p k)"
| "tracker_step (EndPhase p) k = Ok (end_phase p k)"

fun tracker_run :: "tracker_event list \<Rightarrow> benchmark_tracker \<Rightarrow> (benchmark_tracker, 'e) outcome" where
  "tracker_run [] k = Ok k"
| "tracker_run (e # es) k = bind_ok (tracker_step e k) (tracker_run es)"

text \<open>
  Reference: the durations of the operations a sequence of calls finishes, given the start time
  of the operation open at its beginning.
\<close>

fun op_times :: "tracker_event list \<Rightarrow> instant option \<Rightarrow> duration list" where
  "op_times [] s = []"
| "op_times (StartOp nm t # es) s = op_times es (Some t)"
| "op_times (FinishOp t # es) s =
     (case s of None \<Rightarrow> op_times es None | Some u \<Rightarrow> (t - u) # op_times es None)"
| "op_times (StartPhase p t # es) s = op_times es s"
| "op_times (EndPhase p # es) s = op_times es s"

fun touches :: "string \<Rightarrow> tracker_event \<Rightarrow> bool" where
  "touches p (StartPhase q t) = (p = q)"
| "touches p (EndPhase q) = (p = q)"
| "touches p (StartOp nm t) = False"
| "touches p (FinishOp t) = False"

definition open_since :: "benchmark_tracker \<Rightarrow> instant option" where
  "open_since k = map_option timestamp (current_operation k)"

definition phase_wall :: "benchmark_tracker \<Rightarrow> string \<Rightarrow> duration option" where
  "phase_wall k p = map_option wall_clock_time (map_of (active_phases k) p)"

section \<open>Accumulated times\<close>

lemma metrics_current_eq:
  "metrics_current now nm = Ok \<lparr>name = nm, timestamp = now, wall_clock_time = 0,
     user_time = nanos_per_sec, system_time = nanos_per_sec, max_rss = 0, cpu_usage = 0\<rparr>"
  by (simp add: metrics_current_def dur_add_def from_secs_def from_micros_def duration_max_def
      nanos_per_sec_def)

lemma metrics_diff_wall:
  "metrics_diff a b = Ok d \<Longrightarrow> wall_clock_time d = timestamp a - timestamp b"
  by (auto simp: metrics_diff_def duration_since_def Let_def bind_ok_Ok_iff)

lemma metrics_combine_wall:
  "metrics_combine a b = Ok c \<Longrightarrow> wall_clock_time c = wall_clock_time a + wall_clock_time b"
  by (auto simp: metrics_combine_def bind_ok_Ok_iff dur_add_def split: if_splits)

lemma collect_combine_map_of:
  assumes "collect_ok (map (\<lambda>(p, m). map_ok (Pair p) (metrics_combine m d)) xs) =
    (Ok ys :: ((string \<times> metrics) list, 'e) outcome)"
  shows "(map_of xs p = None \<longrightarrow> map_of ys p = None) \<and>
    (\<forall>m. map_of xs p = Some m \<longrightarrow>
       (\<exists>m'. map_of ys p = Some m' \<and> metrics_combine m d = (Ok m' :: (metrics, 'e) outcome)))"
  using assms
proof (induction xs arbitrary: ys)
  case Nil
  then show ?case by simp
next
  case (Cons x xs)
  obtain q m where x: "x = (q, m)" by (cases x)
  from Cons.prems obtain m' zs where m': "metrics_combine m d = (Ok m' :: (metrics, 'e) outcome)"
    and zs: "collect_ok (map (\<lambda>(p, m). map_ok (Pair p) (metrics_combine m d)) xs) =
      (Ok zs :: ((string \<times> metrics) list, 'e) outcome)" and ys: "ys = (q, m') # zs"
    by (auto simp: x bind_ok_Ok_iff map_ok_Ok_iff)
  from Cons.IH [OF zs] m' show ?case by (simp add: x ys)
qed

lemma finish_operation_Ok:
  assumes "finish_operation t k = (Ok k' :: (benchmark_tracker, 'e) outcome)"
  shows "current_operation k' = None \<and>
    map wall_clock_time (completed_metrics k') =
      map wall_clock_time (completed_metrics k) @
        (case open_since k of None \<Rightarrow> [] | Some u \<Rightarrow> [t - u]) \<and>
    phase_wall k' p = map_option (\<lambda>w. w + (case open_since k of None \<Rightarrow> 0 | Some u \<Rightarrow> t - u)) (phase_wall k p)"
proof (cases "current_operation k")
  case None
  with assms show ?thesis
    by (auto simp: finish_operation_def open_since_def option.map_id0 option.map_ident)
next
  case (Some started)
  from assms Some obtain d phases where
    d: "metrics_diff \<lparr>name = name started, timestamp = t, wall_clock_time = 0,
       user_time = nanos_per_sec, system_time = nanos_per_sec, max_rss = 0, cpu_usage = 0\<rparr> started =
       (Ok d :: (metrics, 'e) outcome)" and
    phases: "collect_ok (map (\<lambda>(p, m). map_ok (Pair p) (metrics_combine m d)) (active_phases k)) =
       (Ok phases :: ((string \<times> metrics) list, 'e) outcome)" and
    k': "k' = k\<lparr>current_operation := None, completed_metrics := completed_metrics k @ [d],
       active_phases := phases\<rparr>"
    by (auto simp: finish_operation_def finish_operation_internal_def metrics_current_eq
        bind_ok_Ok_iff map_ok_Ok_iff)
  from metrics_diff_wall [OF d] have w: "wall_clock_time d = t - timestamp started" by simp
  from collect_combine_map_of [OF phases, of p] have
    "map_option wall_clock_time (map_of phases p) =
     map_option (\<lambda>x. wall_clock_time x + (t - timestamp started)) (map_of (active_phases k) p)"
    by (cases "map_of (active_phases k) p") (auto simp: w dest!: metrics_combine_wall)
  then show ?thesis
    unfolding k' phase_wall_def open_since_def by (simp add: Some w option.map_comp comp_def)
qed

lemma tracker_step_wall:
  assumes "tracker_step e k = (Ok k' :: (benchmark_tracker, 'e) outcome)" and "\<not> touches p e"
  shows "phase_wall k' p =
      map_option (\<lambda>w. w + sum_list (op_times [e] (open_since k))) (phase_wall k p) \<and>
    map wall_clock_time (completed_metrics k') =
      map wall_clock_time (completed_metrics k) @ op_times [e] (open_since k) \<and>
    (\<forall>es. op_times (e # es) (open_since k) = op_times [e] (open_since k) @ op_times es (open_since k'))"
proof (cases e)
  case (FinishOp t)
  from assms FinishOp have "finish_operation t k = (Ok k' :: (benchmark_tracker, 'e) outcome)" by simp
  from finish_operation_Ok [OF this, of p] FinishOp show ?thesis
    by (auto simp: open_since_def split: option.splits)
qed (use assms in \<open>auto simp: start_operation_def start_phase_def end_phase_def metrics_current_eq
       phase_wall_def open_since_def update_conv' delete_conv' option.map_id0 option.map_ident
       Let_def split: option.splits\<close>)

lemma tracker_run_wall:
  assumes "tracker_run es k = (Ok k' :: (benchmark_tracker, 'e) outcome)"
    and "\<forall>e \<in> set es. \<not> touches p e"
  shows "phase_wall k' p = map_option (\<lambda>w. w + sum_list (op_times es (open_since k))) (phase_wall k p)"
  using assms
proof (induction es arbitrary: k)
  case Nil
  then show ?case by (simp add: option.map_id0 option.map_ident)
next
  case (Cons e es)
  from Cons.prems(1) obtain k1 where k1: "tracker_step e k = (Ok k1 :: (benchmark_tracker, 'e) outcome)"
    and run: "tracker_run es k1 = (Ok k' :: (benchmark_tracker, 'e) outcome)"
    by (auto simp: bind_ok_Ok_iff)
  from Cons.prems(2) have "\<not> touches p e" and rest: "\<forall>e \<in> set es. \<not> touches p e" by auto
  note step = tracker_step_wall [OF k1 this(1)]
  have times: "op_times (e # es) (open_since k) = op_times [e] (open_since k) @ op_times es (open_since k1)"
    using step by blast
  from step [THEN conjunct1] Cons.IH [OF run rest] show ?case
    unfolding times by (cases "phase_wall k p") simp_all
qed

lemma bind_ok_assoc: "bind_ok (bind_ok m f) g = bind_ok m (\<lambda>x. bind_ok (f x) g)"
  by (cases m) auto

lemma tracker_run_append:
  "tracker_run (es @ fs) k =
     (bind_ok (tracker_run es k) (tracker_run fs) :: (benchmark_tracker, 'e) outcome)"
proof (induction es arbitrary: k)
  case (Cons e es)
  then have "tracker_run (es @ fs) =
      (\<lambda>k. bind_ok (tracker_run es k) (tracker_run fs) :: (benchmark_tracker, 'e) outcome)"
    by (intro ext) simp
  then show ?case by (simp add: bind_ok_assoc)
qed simp

section \<open>Resource usage\<close>

definition unmeasured :: "metrics \<Rightarrow> bool" where
  "unmeasured m \<longleftrightarrow> user_time m = 0 \<and> system_time m = 0 \<and> max_rss m = 0 \<and> cpu_usage m = 0"

definition constant_usage :: "metrics \<Rightarrow> bool" where
  "constant_usage m \<longleftrightarrow> user_time m = nanos_per_sec \<and> system_time m = nanos_per_sec \<and> max_rss m = 0"

definition tracker_idle :: "benchmark_tracker \<Rightarrow> bool" where
  "tracker_idle k \<longleftrightarrow> constant_usage (start_metrics k) \<and>
     (\<forall>m. current_operation k = Some m \<longrightarrow> constant_usage m) \<and>
     (\<forall>m \<in> set (completed_metrics k). unmeasured m) \<and>
     (\<forall>p m. (p, m) \<in> set (active_phases k) \<longrightarrow> unmeasured m) \<and>
     (\<forall>p m. (p, m) \<in> set (phase_metrics k) \<longrightarrow> unmeasured m)"

lemma f32_zero [simp]:
  "f32_mag 0 = 0" "\<not> f32_sign 0" "\<not> f32_is_nan 0" "\<not> f32_is_inf 0" "f32_scaled 0 = 0" "f32_signed False 0 = 0"
  by (simp_all add: f32_mag_def f32_sign_def f32_is_nan_def f32_is_inf_def f32_scaled_def
      f32_parts_def f32_signed_def)

lemma f32_of_nat_zero [simp]: "f32_of_nat 0 = 0"
  by (simp add: f32_of_nat_def)

lemma f32_zero_div: "f32_gt y 0 \<Longrightarrow> f32_div 0 y = 0"
  by (auto simp: f32_gt_def f32_partial_cmp_def f32_div_def f32_key_def split: if_splits)

lemma f32_finite_mul_zero:
  "\<not> f32_is_nan y \<Longrightarrow> \<not> f32_is_inf y \<Longrightarrow> \<not> f32_sign y \<Longrightarrow> f32_mul 0 y = 0"
  by (simp add: f32_mul_def)

lemma f32_of_nat_100: "f32_of_nat 100 = 0x42C80000"
  by (simp add: f32_of_nat_def f32_signed_def f32_round_def Let_def ilog2.simps round_half_even_def)

lemma f32_add_zero_zero [simp]: "f32_add 0 0 = 0"
  by (simp add: f32_add_def)

lemma f32_of_nat_nanos: "f32_of_nat nanos_per_sec = 0x4E6E6B28"
  by (simp add: nanos_per_sec_def f32_of_nat_def f32_signed_def f32_round_def Let_def ilog2.simps round_half_even_def)

lemma as_secs_f32_zero [simp]: "as_secs_f32 0 = 0"
  by (simp add: as_secs_f32_def f32_of_nat_nanos f32_zero_div f32_gt_def f32_partial_cmp_def
      f32_key_def f32_is_nan_def f32_mag_def f32_sign_def)

lemma cpu_percent_idle: "cpu_percent wall 0 0 = Ok 0"
proof -
  have "f32_mul 0 (f32_of_nat 100) = 0"
    by (rule f32_finite_mul_zero)
      (simp_all add: f32_of_nat_100 f32_is_nan_def f32_is_inf_def f32_mag_def f32_sign_def)
  then show ?thesis
    by (simp add: cpu_percent_def dur_add_def duration_max_def nanos_per_sec_def f32_zero_div)
qed

lemma metrics_diff_idle:
  assumes "constant_usage a" and "constant_usage b"
  shows "metrics_diff a b = Ok \<lparr>name = name a, timestamp = timestamp a,
    wall_clock_time = timestamp a - timestamp b, user_time = 0, system_time = 0, max_rss = 0, cpu_usage = 0\<rparr>"
  using assms by (simp add: metrics_diff_def constant_usage_def dur_sub_def cpu_percent_idle duration_since_def Let_def)

lemma metrics_combine_idle:
  assumes "unmeasured a" and "unmeasured b"
  shows "metrics_combine a b =
    (if wall_clock_time a + wall_clock_time b < duration_max
     then Ok (a\<lparr>wall_clock_time := wall_clock_time a + wall_clock_time b\<rparr>) else Panic)"
  using assms
  by (simp add: metrics_combine_def unmeasured_def dur_add_def cpu_percent_idle duration_max_def nanos_per_sec_def)

lemma constant_usage_current:
  "constant_usage \<lparr>name = nm, timestamp = t, wall_clock_time = w,
     user_time = nanos_per_sec, system_time = nanos_per_sec, max_rss = 0, cpu_usage = 0\<rparr>"
  by (simp add: constant_usage_def)

lemma collect_combine_idle:
  assumes "\<forall>p m. (p, m) \<in> set xs \<longrightarrow> unmeasured m" and "unmeasured d"
  shows "collect_ok (map (\<lambda>(p, m). map_ok (Pair p) (metrics_combine m d)) xs) =
    (if \<forall>(p, m) \<in> set xs. wall_clock_time m + wall_clock_time d < duration_max
     then Ok (map (\<lambda>(p, m). (p, m\<lparr>wall_clock_time := wall_clock_time m + wall_clock_time d\<rparr>)) xs)
     else Panic)"
  using assms by (induction xs) (auto simp: metrics_combine_idle)

text \<open>Finishing an operation, in closed form.\<close>

lemma finish_operation_idle:
  assumes "tracker_idle k" and "current_operation k = Some m"
  shows "finish_operation t k =
    (let d = \<lparr>name = name m, timestamp = t, wall_clock_time = t - timestamp m,
              user_time = 0, system_time = 0, max_rss = 0, cpu_usage = 0\<rparr>
     in if \<forall>(p, x) \<in> set (active_phases k). wall_clock_time x + (t - timestamp m) < duration_max
        then Ok (k\<lparr>current_operation := None, completed_metrics := completed_metrics k @ [d],
          active_phases := map (\<lambda>(p, x). (p, x\<lparr>wall_clock_time := wall_clock_time x + (t - timestamp m)\<rparr>))
            (active_phases k)\<rparr>)
        else Panic)"
proof -
  from assms have m: "constant_usage m" and act: "\<forall>p x. (p, x) \<in> set (active_phases k) \<longrightarrow> unmeasured x"
    by (auto simp: tracker_idle_def)
  show ?thesis
    by (simp add: finish_operation_def assms(2) finish_operation_internal_def metrics_current_eq
        metrics_diff_idle [OF constant_usage_current m] collect_combine_idle [OF act] unmeasured_def Let_def)
qed

lemma alist_update_member: "(q, x) \<in> set (AList.update p v xs) \<Longrightarrow> (q, x) = (p, v) \<or> (q, x) \<in> set xs"
  by (induction xs) (auto split: if_splits)

lemma alist_delete_member: "(q, x) \<in> set (AList.delete p xs) \<Longrightarrow> (q, x) \<in> set xs"
  by (simp add: AList.delete_eq)

definition zero_metrics :: "instant \<Rightarrow> string \<Rightarrow> metrics" where
  "zero_metrics t p = \<lparr>name = p, timestamp = t, wall_clock_time = 0, user_time = 0,
     system_time = 0, max_rss = 0, cpu_usage = 0\<rparr>"

lemma start_phase_sel [simp]:
  "start_metrics (start_phase t p k) = start_metrics k"
  "current_operation (start_phase t p k) = current_operation k"
  "completed_metrics (start_phase t p k) = completed_metrics k"
  "active_phases (start_phase t p k) = AList.update p (zero_metrics t p) (active_phases k)"
  "phase_metrics (start_phase t p k) = phase_metrics k"
  "phase_order (start_phase t p k) = (if p \<in> set (phase_order k) then phase_order k else phase_order k @ [p])"
  by (simp_all add: start_phase_def zero_metrics_def Let_def)

lemma tracker_step_idle:
  assumes "tracker_idle k" and "tracker_step e k = (Ok k' :: (benchmark_tracker, 'e) outcome)"
  shows "tracker_idle k'"
proof (cases e)
  case (FinishOp t)
  show ?thesis
  proof (cases "current_operation k")
    case None
    with assms FinishOp show ?thesis by (simp add: finish_operation_def)
  next
    case (Some m)
    from assms(2) FinishOp have "finish_operation t k = (Ok k' :: (benchmark_tracker, 'e) outcome)" by simp
    with assms(1) show ?thesis unfolding finish_operation_idle [OF assms(1) Some]
      by (auto simp: tracker_idle_def unmeasured_def Let_def split: if_splits)
  qed
next
  case (StartOp nm t)
  with assms show ?thesis
    by (auto simp: start_operation_def metrics_current_eq tracker_idle_def constant_usage_def)
next
  case (StartPhase p t)
  with assms show ?thesis
    by (auto simp: tracker_idle_def zero_metrics_def unmeasured_def dest!: alist_update_member)
next
  case (EndPhase p)
  with assms show ?thesis
    by (auto simp: end_phase_def tracker_idle_def dest!: alist_delete_member map_of_SomeD split: option.splits)
qed

lemma tracker_run_idle:
  assumes "tracker_run es k = (Ok k' :: (benchmark_tracker, 'e) outcome)" and "tracker_idle k"
  shows "tracker_idle k'"
  using assms
proof (induction es arbitrary: k)
  case (Cons e es)
  from Cons.prems(1) obtain k1 where "tracker_step e k = (Ok k1 :: (benchmark_tracker, 'e) outcome)"
    and "tracker_run es k1 = (Ok k' :: (benchmark_tracker, 'e) outcome)"
    by (auto simp: bind_ok_Ok_iff)
  with Cons.IH Cons.prems(2) tracker_step_idle show ?case by blast
qed simp

lemma tracker_new_idle: "tracker_new t = Ok k \<Longrightarrow> tracker_idle k"
  by (auto simp: tracker_new_def metrics_current_eq tracker_idle_def constant_usage_def)

lemma printed_phases_member:
  "m \<in> set (printed_phases k) \<Longrightarrow> \<exists>p. (p, m) \<in> set (phase_metrics k)"
  by (auto simp: printed_phases_def Let_def List.map_filter_def) (metis map_of_SomeD set_rev)

lemma total_metrics_idle:
  assumes "tracker_idle k"
  shows "get_total_metrics t k = Ok \<lparr>name = ''Total'', timestamp = t,
    wall_clock_time = t - timestamp (start_metrics k), user_time = 0, system_time = 0, max_rss = 0, cpu_usage = 0\<rparr>"
proof -
  from assms have "constant_usage (start_metrics k)" by (simp add: tracker_idle_def)
  then show ?thesis
    by (simp add: get_total_metrics_def metrics_current_eq metrics_diff_idle [OF constant_usage_current])
qed

lemma print_all_metrics_idle:
  assumes "tracker_idle k" and "print_all_metrics t k = Ok out" and "MetricsBlock m \<in> set out"
  shows "unmeasured m"
  using assms unfolding print_all_metrics_def total_metrics_idle [OF assms(1)]
  by (auto simp: tracker_idle_def unmeasured_def split: if_splits dest!: printed_phases_member)

section \<open>Finished phases\<close>

definition tracker_phases_ok :: "benchmark_tracker \<Rightarrow> bool" where
  "tracker_phases_ok k \<longleftrightarrow> distinct (phase_order k) \<and> distinct (map fst (active_phases k)) \<and>
     (\<forall>p m. (p, m) \<in> set (active_phases k) \<longrightarrow> name m = p \<and> p \<in> set (phase_order k)) \<and>
     (\<forall>p m. (p, m) \<in> set (phase_metrics k) \<longrightarrow> name m = p \<and> p \<in> set (phase_order k))"

lemma collect_combine_names:
  assumes "collect_ok (map (\<lambda>(p, m). map_ok (Pair p) (metrics_combine m d)) xs) =
    (Ok ys :: ((string \<times> metrics) list, 'e) outcome)"
  shows "map (\<lambda>(p, m). (p, name m)) ys = map (\<lambda>(p, m). (p, name m)) xs"
  using assms
proof (induction xs arbitrary: ys)
  case (Cons x xs)
  obtain q m where x: "x = (q, m)" by (cases x)
  from Cons.prems obtain m' zs where m': "metrics_combine m d = (Ok m' :: (metrics, 'e) outcome)"
    and zs: "collect_ok (map (\<lambda>(p, m). map_ok (Pair p) (metrics_combine m d)) xs) =
      (Ok zs :: ((string \<times> metrics) list, 'e) outcome)" and ys: "ys = (q, m') # zs"
    by (auto simp: x bind_ok_Ok_iff map_ok_Ok_iff)
  from m' have "name m' = name m" by (auto simp: metrics_combine_def bind_ok_Ok_iff)
  with Cons.IH [OF zs] show ?case by (simp add: x ys)
qed simp

lemma finish_operation_phases:
  assumes "finish_operation t k = (Ok k' :: (benchmark_tracker, 'e) outcome)"
  shows "map (\<lambda>(p, m). (p, name m)) (active_phases k') = map (\<lambda>(p, m). (p, name m)) (active_phases k) \<and>
    phase_metrics k' = phase_metrics k \<and> phase_order k' = phase_order k"
  using assms
  by (auto simp: finish_operation_def finish_operation_internal_def metrics_current_eq
      bind_ok_Ok_iff map_ok_Ok_iff dest: collect_combine_names split: option.splits)

lemma tracker_phases_ok_cong:
  assumes "map (\<lambda>(p, m). (p, name m)) (active_phases k') = map (\<lambda>(p, m). (p, name m)) (active_phases k)"
    and "phase_metrics k' = phase_metrics k" "phase_order k' = phase_order k"
  shows "tracker_phases_ok k' = tracker_phases_ok k"
proof -
  let ?f = "\<lambda>(p, m). (p, name m)"
  have fst: "map fst xs = map fst (map ?f xs)" for xs :: "(string \<times> metrics) list"
    by (simp add: case_prod_beta)
  have all: "(\<forall>p m. (p, m) \<in> set xs \<longrightarrow> name m = p \<and> p \<in> A) =
      (\<forall>p n. (p, n) \<in> set (map ?f xs) \<longrightarrow> n = p \<and> p \<in> A)"
    for xs :: "(string \<times> metrics) list" and A by force
  show ?thesis
    unfolding tracker_phases_ok_def assms(2,3) all [of "active_phases _"]
      fst [of "active_phases _"] assms(1) ..
qed

lemma tracker_step_phases_ok:
  assumes "tracker_step e k = (Ok k' :: (benchmark_tracker, 'e) outcome)" and "tracker_phases_ok k"
  shows "tracker_phases_ok k'"
proof (cases e)
  case (StartOp nm t)
  with assms show ?thesis
    by (auto simp: start_operation_def metrics_current_eq tracker_phases_ok_def)
next
  case (FinishOp t)
  with assms have "finish_operation t k = (Ok k' :: (benchmark_tracker, 'e) outcome)" by simp
  from finish_operation_phases [OF this] have "tracker_phases_ok k' = tracker_phases_ok k"
    by (intro tracker_phases_ok_cong) blast+
  with assms show ?thesis by blast
next
  case (StartPhase p t)
  with assms show ?thesis
    by (auto simp: zero_metrics_def tracker_phases_ok_def distinct_update dest!: alist_update_member)
next
  case (EndPhase p)
  with assms show ?thesis
    by (auto simp: end_phase_def tracker_phases_ok_def distinct_delete
       dest!: alist_delete_member map_of_SomeD split: option.splits)
qed

lemma tracker_run_phases_ok:
  assumes "tracker_run es k = (Ok k' :: (benchmark_tracker, 'e) outcome)" and "tracker_phases_ok k"
  shows "tracker_phases_ok k'"
  using assms
proof (induction es arbitrary: k)
  case (Cons e es)
  from Cons.prems(1) obtain k1 where "tracker_step e k = (Ok k1 :: (benchmark_tracker, 'e) outcome)"
    and "tracker_run es k1 = (Ok k' :: (benchmark_tracker, 'e) outcome)"
    by (auto simp: bind_ok_Ok_iff)
  with Cons.IH Cons.prems(2) tracker_step_phases_ok show ?case by blast
qed simp

lemma tracker_new_phases_ok: "tracker_new t = Ok k \<Longrightarrow> tracker_phases_ok k"
  by (auto simp: tracker_new_def metrics_current_eq tracker_phases_ok_def)

lemma printed_phases_names:
  assumes "tracker_phases_ok k"
  shows "map name (printed_phases k) = filter (\<lambda>p. p \<in> fst ` set (phase_metrics k)) (phase_order k)"
proof -
  have dom: "(map_of (rev (phase_metrics k)) p \<noteq> None) = (p \<in> fst ` set (phase_metrics k))" for p
    by (metis dom_map_of_conv_image_fst domIff set_rev)
  have nm: "map_of (rev (phase_metrics k)) p = Some m \<Longrightarrow> name m = p" for p m
    using assms by (auto simp: tracker_phases_ok_def dest!: map_of_SomeD)
  have "map name (List.map_filter (map_of (rev (phase_metrics k))) ps) =
      filter (\<lambda>p. p \<in> fst ` set (phase_metrics k)) ps" for ps
    by (induction ps) (auto simp: List.map_filter_simps dom [symmetric] dest: nm split: option.splits)
  then show ?thesis by (simp add: printed_phases_def)
qed

lemma tracker_step_total:
  assumes "tracker_idle k"
    and "\<forall>p m. (p, m) \<in> set (active_phases k) \<longrightarrow>
      wall_clock_time m + sum_list (op_times (e # es) (open_since k)) < duration_max"
    and "sum_list (op_times (e # es) (open_since k)) < duration_max"
  shows "\<exists>k'. tracker_step e k = (Ok k' :: (benchmark_tracker, 'e) outcome) \<and>
    (\<forall>p m. (p, m) \<in> set (active_phases k') \<longrightarrow>
      wall_clock_time m + sum_list (op_times es (open_since k')) < duration_max) \<and>
    sum_list (op_times es (open_since k')) < duration_max"
proof (cases e)
  case (FinishOp t)
  show ?thesis
  proof (cases "current_operation k")
    case None
    with assms FinishOp show ?thesis by (auto simp: finish_operation_def open_since_def)
  next
    case (Some m)
    with assms(2) FinishOp have "\<forall>(p, x) \<in> set (active_phases k). wall_clock_time x + (t - timestamp m) < duration_max"
      by (force simp: open_since_def)
    with assms(2,3) FinishOp Some show ?thesis
      by (auto simp: finish_operation_idle [OF assms(1) Some] open_since_def Let_def add.assoc)
  qed
next
  case (StartPhase p t)
  with assms show ?thesis by (auto simp: zero_metrics_def open_since_def dest!: alist_update_member)
next
  case (EndPhase p)
  with assms show ?thesis
    by (auto simp: end_phase_def open_since_def dest!: alist_delete_member split: option.splits)
next
  case (StartOp nm t)
  with assms show ?thesis
    by (auto simp: start_operation_def metrics_current_eq open_since_def)
qed

lemma tracker_run_total:
  assumes "tracker_idle k"
    and "\<forall>p m. (p, m) \<in> set (active_phases k) \<longrightarrow>
      wall_clock_time m + sum_list (op_times es (open_since k)) < duration_max"
    and "sum_list (op_times es (open_since k)) < duration_max"
  shows "\<exists>k'. tracker_run es k = (Ok k' :: (benchmark_tracker, 'e) outcome)"
  using assms
proof (induction es arbitrary: k)
  case (Cons e es)
  from tracker_step_total [OF Cons.prems, where 'e = 'e] obtain k1 where
    k1: "tracker_step e k = (Ok k1 :: (benchmark_tracker, 'e) outcome)" and
    rest: "\<forall>p m. (p, m) \<in> set (active_phases k1) \<longrightarrow>
      wall_clock_time m + sum_list (op_times es (open_since k1)) < duration_max"
      "sum_list (op_times es (open_since k1)) < duration_max"
    by blast
  from Cons.IH [OF tracker_step_idle [OF Cons.prems(1) k1] rest] k1 show ?case by simp
qed simp

section \<open>Properties\<close>

text \<open>
  Claim C8. Phase times. When a phase is started, any tracker calls follow that neither start nor
  end this phase again, and it is ended, then the last recorded phase is this one, and its wall
  clock time is the sum of the times of the operations finished in between.
\<close>

theorem tracker_phase_time:
  assumes "tracker_run (StartPhase p t # es @ [EndPhase p]) k = (Ok k' :: (benchmark_tracker, 'e) outcome)"
    and "\<forall>e \<in> set es. \<not> touches p e"
  shows "\<exists>ps m. phase_metrics k' = ps @ [(p, m)] \<and>
    wall_clock_time m = sum_list (op_times es (open_since k))"
proof -
  from assms(1) obtain k1 where
    k1: "tracker_run es (start_phase t p k) = (Ok k1 :: (benchmark_tracker, 'e) outcome)" and
    k': "k' = end_phase p k1"
    by (auto simp: tracker_run_append bind_ok_Ok_iff)
  have "open_since (start_phase t p k) = open_since k" by (simp add: open_since_def)
  moreover have "phase_wall (start_phase t p k) p = Some 0"
    by (simp add: phase_wall_def zero_metrics_def update_conv')
  ultimately have "phase_wall k1 p = Some (sum_list (op_times es (open_since k)))"
    using tracker_run_wall [OF k1 assms(2)] by simp
  then show ?thesis by (auto simp: phase_wall_def k' end_phase_def)
qed

definition demo_events :: "tracker_event list" where
  "demo_events = [StartOp ''a'' 10, FinishOp 25, StartOp ''b'' 30, FinishOp 37]"

definition demo_tracker :: benchmark_tracker where
  "demo_tracker = (case tracker_new 5 :: (benchmark_tracker, unit) outcome of Ok k \<Rightarrow> k)"

lemma demo_tracker_new: "tracker_new 5 = Ok demo_tracker"
  by (simp add: demo_tracker_def tracker_new_def metrics_current_eq)

lemma demo_open: "open_since demo_tracker = None" "active_phases demo_tracker = []"
  by (simp_all add: demo_tracker_def tracker_new_def metrics_current_eq open_since_def)

lemma demo_run:
  "\<exists>k. tracker_run (StartPhase ''p'' 6 # demo_events @ [EndPhase ''p'']) demo_tracker =
     (Ok k :: (benchmark_tracker, unit) outcome)"
  by (rule tracker_run_total)
    (simp_all add: tracker_new_idle [OF demo_tracker_new] demo_open demo_events_def
      duration_max_def nanos_per_sec_def)

theorem tracker_phase_time_witness:
  "\<exists>k ps m. tracker_run (StartPhase ''p'' 6 # demo_events @ [EndPhase ''p'']) demo_tracker =
     (Ok k :: (benchmark_tracker, unit) outcome) \<and>
   phase_metrics k = ps @ [(''p'', m)] \<and> wall_clock_time m = 22"
proof -
  from demo_run obtain k where k: "tracker_run (StartPhase ''p'' 6 # demo_events @ [EndPhase ''p'']) demo_tracker =
     (Ok k :: (benchmark_tracker, unit) outcome)" by blast
  have "\<forall>e \<in> set demo_events. \<not> touches ''p'' e" by (simp add: demo_events_def)
  from tracker_phase_time [OF k this] k show ?thesis by (auto simp: demo_open demo_events_def)
qed

text \<open>
  Claim C9. The tracker never stops the module: from a new tracker every sequence of calls
  succeeds whose operation times add up to less than \<open>2 ^ 64\<close> seconds.
\<close>

theorem tracker_total:
  assumes "sum_list (op_times es None) < duration_max"
  shows "\<exists>k. bind_ok (tracker_new t0) (tracker_run es) = (Ok k :: (benchmark_tracker, 'e) outcome)"
proof -
  obtain k0 where k0: "tracker_new t0 = (Ok k0 :: (benchmark_tracker, 'e) outcome)"
    by (simp add: tracker_new_def metrics_current_eq)
  then have "active_phases k0 = []" "open_since k0 = None"
    by (auto simp: tracker_new_def metrics_current_eq open_since_def)
  with assms tracker_run_total [OF tracker_new_idle [OF k0], where 'e = 'e, of es] k0 show ?thesis
    by simp
qed

theorem tracker_total_witness:
  "\<exists>k. bind_ok (tracker_new 5) (tracker_run demo_events) = (Ok k :: (benchmark_tracker, unit) outcome)"
  by (rule tracker_total) (simp add: demo_events_def duration_max_def nanos_per_sec_def)

text \<open>
  Claim C10. Resource usage is never measured: whatever calls were made, every metric the tracker
  prints reports zero user time, zero system time, zero resident memory and zero CPU usage.
\<close>

theorem tracker_usage_constant:
  assumes "bind_ok (tracker_new t0) (tracker_run es) = (Ok k :: (benchmark_tracker, 'e) outcome)"
    and "print_all_metrics t k = (Ok out :: (output_item list, 'f) outcome)"
    and "MetricsBlock m \<in> set out"
  shows "unmeasured m"
proof -
  from assms(1) obtain k0 where k0: "tracker_new t0 = (Ok k0 :: (benchmark_tracker, 'e) outcome)"
    and run: "tracker_run es k0 = (Ok k :: (benchmark_tracker, 'e) outcome)" by (auto simp: bind_ok_Ok_iff)
  from print_all_metrics_idle [OF tracker_run_idle [OF run tracker_new_idle [OF k0]] assms(2,3)]
  show ?thesis .
qed

theorem tracker_usage_constant_witness:
  "unmeasured \<lparr>name = ''Total'', timestamp = 9, wall_clock_time = 4, user_time = 0, system_time = 0,
     max_rss = 0, cpu_usage = 0\<rparr>"
proof (rule tracker_usage_constant)
  show "bind_ok (tracker_new 5) (tracker_run []) = (Ok demo_tracker :: (benchmark_tracker, unit) outcome)"
    by (simp add: demo_tracker_def tracker_new_def metrics_current_eq)
  have "timestamp (start_metrics demo_tracker) = 5" "completed_metrics demo_tracker = []"
    "phase_metrics demo_tracker = []"
    by (simp_all add: demo_tracker_def tracker_new_def metrics_current_eq)
  then show "print_all_metrics 9 demo_tracker = (Ok [MetricsBlock \<lparr>name = ''Total'', timestamp = 9,
     wall_clock_time = 4, user_time = 0, system_time = 0, max_rss = 0, cpu_usage = 0\<rparr>] ::
     (output_item list, unit) outcome)"
    by (simp add: print_all_metrics_def total_metrics_idle [OF tracker_new_idle [OF demo_tracker_new]])
qed simp

text \<open>
  Printed phases. However the tracker was used, the phases printed are exactly the
  phases that were ended, each once, in the order in which they were first started.
\<close>

theorem tracker_phases_printed:
  assumes "bind_ok (tracker_new t0) (tracker_run es) = (Ok k :: (benchmark_tracker, 'e) outcome)"
  shows "map name (printed_phases k) = filter (\<lambda>p. p \<in> fst ` set (phase_metrics k)) (phase_order k) \<and>
    distinct (map name (printed_phases k)) \<and>
    set (map name (printed_phases k)) = fst ` set (phase_metrics k)"
proof -
  from assms obtain k0 where k0: "tracker_new t0 = (Ok k0 :: (benchmark_tracker, 'e) outcome)"
    and run: "tracker_run es k0 = (Ok k :: (benchmark_tracker, 'e) outcome)" by (auto simp: bind_ok_Ok_iff)
  note ok = tracker_run_phases_ok [OF run tracker_new_phases_ok [OF k0]]
  from ok show ?thesis
    unfolding printed_phases_names [OF ok] by (auto simp: tracker_phases_ok_def)
qed

theorem tracker_phases_printed_witness:
  "\<exists>k. bind_ok (tracker_new 5) (tracker_run (StartPhase ''p'' 6 # demo_events @ [EndPhase ''p''])) =
     (Ok k :: (benchmark_tracker, unit) outcome) \<and> distinct (map name (printed_phases k)) \<and>
     set (map name (printed_phases k)) = fst ` set (phase_metrics k)"
proof -
  from demo_run obtain k where "bind_ok (tracker_new 5) (tracker_run (StartPhase ''p'' 6 # demo_events @ [EndPhase ''p''])) =
     (Ok k :: (benchmark_tracker, unit) outcome)" by (auto simp: demo_tracker_new)
  with tracker_phases_printed [OF this] show ?thesis by blast
qed

end
