(* ===== verification/Guest_Inference.thy ===== *)
theory Guest_Inference
  imports NN_Onnx Guest_Tracker
begin

text \<open>
  The inference side of the benchmark module (\<^verbatim>\<open>wasm-module/src/main.rs\<close>): reading the image,
  turning it into a normalised tensor, running the model and picking the predicted class, and
  \<^verbatim>\<open>main\<close> itself. The crates \<^verbatim>\<open>wasi_nn\<close>, \<^verbatim>\<open>image\<close> and \<^verbatim>\<open>ndarray\<close> are parameters; what is
  assumed of them is stated by \<open>image_covers\<close> and \<open>ndarray_laws\<close>.
\<close>

section \<open>Library interfaces\<close>

record ('g, 'c, 'raw, 'img, 'arr) guest_env =
  build_from_files :: "string list \<Rightarrow> ('g, string) outcome"
  graph_init_context :: "'g \<Rightarrow> ('c, string) outcome"
  ctx_set_input :: "'c \<Rightarrow> u32 \<Rightarrow> nat list \<Rightarrow> u8 list \<Rightarrow> (unit, string) outcome \<times> 'c"
  ctx_compute :: "'c \<Rightarrow> (unit, string) outcome \<times> 'c"
  ctx_get_output :: "'c \<Rightarrow> u32 \<Rightarrow> f32 list \<Rightarrow> (u32, string) outcome \<times> f32 list \<times> 'c"
  image_open :: "string \<Rightarrow> ('raw, string) outcome"
  resize_triangle :: "'raw \<Rightarrow> u32 \<Rightarrow> u32 \<Rightarrow> 'img"
  get_pixel :: "'img \<Rightarrow> u32 \<Rightarrow> u32 \<Rightarrow> u8 list option"
  from_shape_fn :: "nat \<times> nat \<times> nat \<times> nat \<Rightarrow> (nat \<Rightarrow> nat \<Rightarrow> nat \<Rightarrow> nat \<Rightarrow> f32) \<Rightarrow> 'arr"
  plane_sub_assign :: "'arr \<Rightarrow> nat \<Rightarrow> nat \<Rightarrow> f32 \<Rightarrow> 'arr"
  plane_div_assign :: "'arr \<Rightarrow> nat \<Rightarrow> nat \<Rightarrow> f32 \<Rightarrow> 'arr"
  array_as_slice :: "'arr \<Rightarrow> f32 list option"

text \<open>A four-dimensional array in row-major order.\<close>

definition row_major :: "nat \<times> nat \<times> nat \<times> nat \<Rightarrow> (nat \<Rightarrow> nat \<Rightarrow> nat \<Rightarrow> nat \<Rightarrow> f32) \<Rightarrow> f32 list" where
  "row_major dims f =
     (case dims of (n, c, h, w) \<Rightarrow>
        concat (map (\<lambda>b. concat (map (\<lambda>k. concat (map (\<lambda>j. map (f b k j) [0..<w]) [0..<h])) [0..<c])) [0..<n]))"

text \<open>
  What the code relies on in \<^verbatim>\<open>ndarray\<close>: the array made by \<^verbatim>\<open>from_shape_fn\<close> is in standard
  layout, the assigning operators change exactly the elements of the slice, and \<^verbatim>\<open>as_slice\<close> of such
  an array lists its elements in row-major order.
\<close>

definition ndarray_laws ::
  "('g, 'c, 'raw, 'img, 'arr) guest_env \<Rightarrow> (nat \<times> nat \<times> nat \<times> nat \<Rightarrow> (nat \<Rightarrow> nat \<Rightarrow> nat \<Rightarrow> nat \<Rightarrow> f32) \<Rightarrow> 'arr \<Rightarrow> bool) \<Rightarrow> bool" where
  "ndarray_laws env holds \<longleftrightarrow>
     (\<forall>dims f. holds dims f (from_shape_fn env dims f)) \<and>
     (\<forall>dims f a b k v. holds dims f a \<longrightarrow>
        holds dims (\<lambda>n c j i. if n = b \<and> c = k then f32_sub (f n c j i) v else f n c j i)
          (plane_sub_assign env a b k v)) \<and>
     (\<forall>dims f a b k v. holds dims f a \<longrightarrow>
        holds dims (\<lambda>n c j i. if n = b \<and> c = k then f32_div (f n c j i) v else f n c j i)
          (plane_div_assign env a b k v)) \<and>
     (\<forall>dims f a. holds dims f a \<longrightarrow> array_as_slice env a = Some (row_major dims f))"

definition image_covers :: "('g, 'c, 'raw, 'img, 'arr) guest_env \<Rightarrow> 'img \<Rightarrow> bool" where
  "image_covers env img \<longleftrightarrow> (\<forall>j < 224. \<forall>i < 224.
     \<exists>px. get_pixel env img (of_nat i) (of_nat j) = Some px \<and> length px = 4)"

section \<open>Loading\<close>

definition initialize_env ::
  "('g, 'c, 'raw, 'img, 'arr) guest_env \<Rightarrow> 'g \<Rightarrow> ('c, string) outcome" where
  "initialize_env env model =
     (case graph_init_context env model of
        Ok context \<Rightarrow> Ok context
      | Err _ \<Rightarrow> Err ''Error occured while initializing the env''
      | Panic \<Rightarrow> Panic)"

definition load_model ::
  "('g, 'c, 'raw, 'img, 'arr) guest_env \<Rightarrow> string \<Rightarrow> ('g, string) outcome" where
  "load_model env model_path = build_from_files env [model_path]"

definition read_img ::
  "('g, 'c, 'raw, 'img, 'arr) guest_env \<Rightarrow> string \<Rightarrow> ('img, string) outcome" where
  "read_img env image_path =
     (let image_width = 224; image_height = 224
      in bind_ok (image_open env image_path) (\<lambda>raw.
           Ok (resize_triangle env raw image_width image_height)))"

section \<open>The tensor\<close>

definition f32_lit :: "nat \<Rightarrow> nat \<Rightarrow> f32" where
  "f32_lit n d = f32_signed False (f32_round n d)"

definition mean_rgb :: "f32 list" where
  "mean_rgb = [f32_lit 485 1000, f32_lit 456 1000, f32_lit 406 1000]"

definition std_rgb :: "f32 list" where
  "std_rgb = [f32_lit 229 1000, f32_lit 224 1000, f32_lit 225 1000]"

definition channel_value ::
  "('g, 'c, 'raw, 'img, 'arr) guest_env \<Rightarrow> 'img \<Rightarrow> nat \<Rightarrow> nat \<Rightarrow> nat \<Rightarrow> f32 option" where
  "channel_value env img c j i =
     (case get_pixel env img (of_nat i) (of_nat j) of
        None \<Rightarrow> None
      | Some channels \<Rightarrow>
          if c < length channels then Some (f32_div (f32_of_nat (unat (channels ! c))) (f32_of_nat 255))
          else None)"

text \<open>The loop of pushes over the chunks of four bytes.\<close>

definition guest_f32_vec_to_bytes :: "f32 list \<Rightarrow> u8 list" where
  "guest_f32_vec_to_bytes xs =
     (let chunks = map f32_to_le_bytes xs
      in foldl (\<lambda>result c. foldl (\<lambda>result u. result @ [u]) result c) [] chunks)"

definition image_to_tensor ::
  "('g, 'c, 'raw, 'img, 'arr) guest_env \<Rightarrow> 'img \<Rightarrow> (u8 list, string) outcome" where
  "image_to_tensor env img =
     (if \<exists>c \<in> set [0..<3]. \<exists>j \<in> set [0..<224]. \<exists>i \<in> set [0..<224]. channel_value env img c j i = None
      then Panic
      else
        let array = from_shape_fn env (1, 3, 224, 224) (\<lambda>_ c j i. the (channel_value env img c j i));
            array = foldl (\<lambda>a c. plane_div_assign env (plane_sub_assign env a 0 c (mean_rgb ! c)) 0 c (std_rgb ! c))
                      array [0..<3]
        in map_ok guest_f32_vec_to_bytes (expect (array_as_slice env array)))"

definition process_image ::
  "('g, 'c, 'raw, 'img, 'arr) guest_env \<Rightarrow> 'img \<Rightarrow> (u8 list, string) outcome" where
  "process_image env img = image_to_tensor env img"

section \<open>Running and post-processing\<close>

definition run_model ::
  "('g, 'c, 'raw, 'img, 'arr) guest_env \<Rightarrow> 'c \<Rightarrow> (unit, string) outcome \<times> 'c" where
  "run_model env context =
     (let (r, context) = ctx_compute env context
      in (map_err (\<lambda>_. ''Error occurred while running the model'') r, context))"

definition max_by :: "('a \<Rightarrow> 'a \<Rightarrow> ordering) \<Rightarrow> 'a list \<Rightarrow> 'a option" where
  "max_by cmp xs =
     (case xs of [] \<Rightarrow> None
      | x # ys \<Rightarrow> Some (foldl (\<lambda>a b. if cmp a b = Greater then a else b) x ys))"

definition score_cmp :: "f32 \<times> i32 \<Rightarrow> f32 \<times> i32 \<Rightarrow> ordering" where
  "score_cmp a b = (case f32_partial_cmp (fst a) (fst b) of None \<Rightarrow> Equal | Some r \<Rightarrow> r)"

definition ranked :: "f32 list \<Rightarrow> (f32 \<times> i32) option" where
  "ranked buf = max_by score_cmp (zip buf (map of_nat [1..<Suc (length buf)]))"

definition output_buffer_capacity :: nat where "output_buffer_capacity = 4000"

definition post_process ::
  "('g, 'c, 'raw, 'img, 'arr) guest_env \<Rightarrow> 'c \<Rightarrow> string \<Rightarrow> (i32, string) outcome \<times> output_item list" where
  "post_process env context image_name =
     (let output_buffer = replicate output_buffer_capacity 0;
          (r, output_buffer, context) = ctx_get_output env context 0 output_buffer
      in case r of
           Panic \<Rightarrow> (Panic, [])
         | Err _ \<Rightarrow> (Err ''Error occurred while getting output'', [])
         | Ok _ \<Rightarrow>
             (case ranked output_buffer of
                Some (score, class) \<Rightarrow> (Ok class, [Prediction image_name class score])
              | None \<Rightarrow> (Err ''Error: '', [TextLine (''Error: '' @ [CHR 0x22] @ ''testing'' @ [CHR 0x22])])))"

section \<open>The entry point\<close>

definition model_path :: string where "model_path = ''/assets/models/mobilenetv2-10.onnx''"

definition image_path :: string where "image_path = ''/assets/imgs/unseen_dog.jpg''"

definition main_red_box ::
  "('g, 'c, 'raw, 'img, 'arr) guest_env \<Rightarrow> (nat \<Rightarrow> instant) \<Rightarrow>
   (benchmark_tracker \<times> 'c \<times> 'img, string) outcome" where
  "main_red_box env clock =
     bind_ok (tracker_new (clock 0)) (\<lambda>k.
     bind_ok (start_operation (clock 2) ''loadmodel'' (start_phase (clock 1) ''RED BOX Phase'' k)) (\<lambda>k.
     bind_ok (unwrap (load_model env model_path)) (\<lambda>model.
     bind_ok (finish_operation (clock 3) k) (\<lambda>k.
     bind_ok (start_operation (clock 4) ''envload'' k) (\<lambda>k.
     bind_ok (unwrap (initialize_env env model)) (\<lambda>context.
     bind_ok (finish_operation (clock 5) k) (\<lambda>k.
     bind_ok (start_operation (clock 6) ''readimg'' k) (\<lambda>k.
     bind_ok (unwrap (read_img env image_path)) (\<lambda>original_img.
     bind_ok (finish_operation (clock 7) k) (\<lambda>k.
       Ok (end_phase ''RED BOX Phase'' k, context, original_img)))))))))))"

text \<open>
  \<^verbatim>\<open>set_input\<close> and \<^verbatim>\<open>run_model\<close> return a \<^verbatim>\<open>Result\<close> that \<^verbatim>\<open>main\<close> drops; only their panics stop it.
\<close>

definition main_green_box ::
  "('g, 'c, 'raw, 'img, 'arr) guest_env \<Rightarrow> (nat \<Rightarrow> instant) \<Rightarrow> benchmark_tracker \<times> 'c \<times> 'img \<Rightarrow>
   (benchmark_tracker \<times> 'c, string) outcome" where
  "main_green_box env clock s =
     (case s of (k, context, original_img) \<Rightarrow>
       bind_ok (start_operation (clock 9) ''Pre-processing'' (start_phase (clock 8) ''GREEN BOX Phase'' k)) (\<lambda>k.
       bind_ok (unwrap (process_image env original_img)) (\<lambda>input.
       let (r, context) = ctx_set_input env context 0 [1, 3, 224, 224] input
       in if r = Panic then Panic else
       bind_ok (finish_operation (clock 10) k) (\<lambda>k.
       bind_ok (start_operation (clock 11) ''Inference'' k) (\<lambda>k.
       let (r, context) = run_model env context
       in if r = Panic then Panic else
       bind_ok (finish_operation (clock 12) k) (\<lambda>k.
       map_ok (\<lambda>k. (k, context)) (start_operation (clock 13) ''Post-processing'' k)))))))"

definition guest_main ::
  "('g, 'c, 'raw, 'img, 'arr) guest_env \<Rightarrow> (nat \<Rightarrow> instant) \<Rightarrow> (unit, string) outcome \<times> output_item list" where
  "guest_main env clock =
     (case bind_ok (main_red_box env clock) (main_green_box env clock) of
        Panic \<Rightarrow> (Panic, [])
      | Err e \<Rightarrow> (Err e, [])
      | Ok (k, context) \<Rightarrow>
          (let (r, lines) = post_process env context image_path
           in case unwrap r of
                Panic \<Rightarrow> (Panic, lines)
              | Err e \<Rightarrow> (Err e, lines)
              | Ok output \<Rightarrow>
                  (case bind_ok (finish_operation (clock 14) k)
                          (\<lambda>k. print_all_metrics (clock 15) (end_phase ''GREEN BOX Phase'' k)) of
                     Panic \<Rightarrow> (Panic, lines)
                   | Err e \<Rightarrow> (Err e, lines)
                   | Ok out \<Rightarrow> (Ok (), lines @ out @ [ClassIndex output]))))"

section \<open>Correctness of the tensor\<close>

lemma foldl_push: "foldl (\<lambda>r u. r @ [u]) acc xs = acc @ xs"
  by (induction xs arbitrary: acc) simp_all

text \<open>The module and the host use the same encoding.\<close>

lemma guest_f32_vec_to_bytes_eq: "guest_f32_vec_to_bytes xs = f32_vec_to_bytes xs"
proof -
  have "foldl (\<lambda>r c. foldl (\<lambda>r u. r @ [u]) r c) acc css = acc @ concat css" for acc :: "u8 list" and css
    by (induction css arbitrary: acc) (simp_all add: foldl_push)
  then show ?thesis by (simp add: guest_f32_vec_to_bytes_def f32_vec_to_bytes_def)
qed

lemma concat_map_nth:
  assumes "\<And>k. length (f k) = m" and "i < n" and "j < m"
  shows "concat (map f [0..<n]) ! (i * m + j) = f i ! j"
  using assms(2)
proof (induction n)
  case (Suc n)
  have len: "length (concat (map f [0..<n])) = n * m"
    using assms(1) by (induction n) (simp_all)
  show ?case
  proof (cases "i = n")
    case True
    then show ?thesis by (simp add: nth_append len)
  next
    case False
    with Suc.prems have "i < n" by simp
    then have "Suc i * m \<le> n * m" by (intro mult_le_mono1) simp
    with assms(3) have "i * m + j < n * m" by simp
    with Suc.IH \<open>i < n\<close> show ?thesis by (simp add: nth_append len)
  qed
qed simp

lemma length_concat_upt: "(\<And>k. length (f k) = m) \<Longrightarrow> length (concat (map f [0..<n])) = n * m"
  by (induction n) simp_all

lemma index_bound: "j < h \<Longrightarrow> i < w \<Longrightarrow> j * w + i < h * (w :: nat)"
proof -
  assume "j < h" "i < w"
  from \<open>j < h\<close> have "Suc j * w \<le> h * w" by (intro mult_le_mono1) simp
  with \<open>i < w\<close> show ?thesis by simp
qed

lemma length_row_major: "length (row_major (n, c, h, w) f) = n * (c * (h * w))"
  by (simp add: row_major_def length_concat_upt)

lemma row_major_nth:
  assumes "b < n" "k < c" "j < h" "i < w"
  shows "row_major (n, c, h, w) f ! (b * (c * (h * w)) + (k * (h * w) + (j * w + i))) = f b k j i"
proof -
  have "j * w + i < h * w" using assms(3,4) by (rule index_bound)
  moreover from assms(2) this have "k * (h * w) + (j * w + i) < c * (h * w)" by (rule index_bound)
  ultimately show ?thesis
    using assms by (simp add: row_major_def concat_map_nth length_concat_upt)
qed

definition normalised :: "f32 \<Rightarrow> nat \<Rightarrow> f32" where
  "normalised v c = f32_div (f32_sub v (mean_rgb ! c)) (std_rgb ! c)"

lemma channel_planes:
  assumes "ndarray_laws env holds" and "holds dims f a"
  shows "holds dims (\<lambda>n c j i. if n = 0 \<and> c < m then normalised (f n c j i) c else f n c j i)
    (foldl (\<lambda>a c. plane_div_assign env (plane_sub_assign env a 0 c (mean_rgb ! c)) 0 c (std_rgb ! c)) a [0..<m])"
proof (induction m)
  case 0
  with assms(2) show ?case by simp
next
  case (Suc m)
  let ?g = "\<lambda>n c j i. if n = 0 \<and> c < m then normalised (f n c j i) c else f n c j i"
  let ?h = "\<lambda>n c j i. if n = 0 \<and> c = m then f32_sub (?g n c j i) (mean_rgb ! m) else ?g n c j i"
  let ?h' = "\<lambda>n c j i. if n = 0 \<and> c = m then f32_div (?h n c j i) (std_rgb ! m) else ?h n c j i"
  let ?a = "foldl (\<lambda>a c. plane_div_assign env (plane_sub_assign env a 0 c (mean_rgb ! c)) 0 c (std_rgb ! c)) a [0..<m]"
  from assms(1) Suc.IH have "holds dims ?h (plane_sub_assign env ?a 0 m (mean_rgb ! m))"
    unfolding ndarray_laws_def by blast
  with assms(1) have "holds dims ?h' (plane_div_assign env (plane_sub_assign env ?a 0 m (mean_rgb ! m)) 0 m (std_rgb ! m))"
    unfolding ndarray_laws_def by blast
  moreover have "?h' = (\<lambda>n c j i. if n = 0 \<and> c < Suc m then normalised (f n c j i) c else f n c j i)"
    by (auto simp: fun_eq_iff normalised_def)
  ultimately show ?case by (simp only: upt_Suc_append foldl_append foldl.simps le0 simp_thms if_True)
qed

lemma image_to_tensor_value:
  assumes "ndarray_laws env holds" and "image_covers env img"
  shows "image_to_tensor env img = Ok (f32_vec_to_bytes (row_major (1, 3, 224, 224)
    (\<lambda>n c j i. if n = 0 \<and> c < 3 then normalised (the (channel_value env img c j i)) c
                else the (channel_value env img c j i))))"
proof -
  have "channel_value env img c j i \<noteq> None" if "c < 3" "j < 224" "i < 224" for c j i
  proof -
    from assms(2) that obtain px where "get_pixel env img (of_nat i) (of_nat j) = Some px" "length px = 4"
      unfolding image_covers_def by blast
    with that(1) show ?thesis by (simp add: channel_value_def)
  qed
  then have ok: "\<not> (\<exists>c \<in> set [0..<3]. \<exists>j \<in> set [0..<224]. \<exists>i \<in> set [0..<224]. channel_value env img c j i = None)"
    by (simp only: set_upt Bex_def atLeastLessThan_iff) blast
  let ?f = "\<lambda>n c j i. the (channel_value env img c j i)"
  have "holds (1, 3, 224, 224) ?f (from_shape_fn env (1, 3, 224, 224) ?f)"
    using assms(1) unfolding ndarray_laws_def by blast
  note planes = channel_planes [OF assms(1) this, of 3]
  have slice: "holds dims f a \<Longrightarrow> array_as_slice env a = Some (row_major dims f)" for dims f a
    using assms(1) unfolding ndarray_laws_def by blast
  show ?thesis
    unfolding image_to_tensor_def if_not_P [OF ok] Let_def slice [OF planes] expect.simps map_ok.simps
      guest_f32_vec_to_bytes_eq by (rule refl)
qed

section \<open>The best score\<close>

lemma max_by_snoc:
  "xs \<noteq> [] \<Longrightarrow> max_by cmp (xs @ [y]) =
     (case max_by cmp xs of Some x \<Rightarrow> Some (if cmp x y = Greater then x else y))"
  by (cases xs) (simp_all add: max_by_def)

lemma ranked_snoc:
  "xs \<noteq> [] \<Longrightarrow> ranked (xs @ [y]) =
     (case ranked xs of Some x \<Rightarrow>
        Some (if score_cmp x (y, of_nat (Suc (length xs))) = Greater then x else (y, of_nat (Suc (length xs)))))"
proof -
  assume xs: "xs \<noteq> []"
  have upt: "[1..<Suc (length (xs @ [y]))] = [1..<Suc (length xs)] @ [Suc (length xs)]" by simp
  let ?zs = "zip xs (map of_nat [1..<Suc (length xs)]) :: (f32 \<times> i32) list"
  have zip: "zip (xs @ [y]) (map of_nat [1..<Suc (length (xs @ [y]))]) = ?zs @ [(y, of_nat (Suc (length xs)))]"
    unfolding upt map_append by (subst zip_append) (simp_all del: upt_Suc)
  have "?zs \<noteq> []" using xs by (cases xs) (simp_all add: upt_rec)
  from max_by_snoc [OF this] show ?thesis unfolding ranked_def zip .
qed

lemma score_cmp_Greater:
  "\<not> f32_is_nan (fst a) \<Longrightarrow> \<not> f32_is_nan (fst b) \<Longrightarrow>
   (score_cmp a b = Greater) = (f32_key (fst b) < f32_key (fst a))"
  by (auto simp: score_cmp_def f32_partial_cmp_def)

text \<open>Without NaN the last of the greatest scores wins; its class counts from one.\<close>

lemma ranked_last_max:
  assumes "xs \<noteq> []" and "\<forall>x \<in> set xs. \<not> f32_is_nan x"
  shows "\<exists>c < length xs. ranked xs = Some (xs ! c, of_nat (Suc c)) \<and>
    (\<forall>i < length xs. f32_key (xs ! i) \<le> f32_key (xs ! c)) \<and>
    (\<forall>i. c < i \<and> i < length xs \<longrightarrow> f32_key (xs ! i) < f32_key (xs ! c))"
  using assms
proof (induction xs rule: rev_induct)
  case (snoc y xs)
  show ?case
  proof (cases "xs = []")
    case True
    then show ?thesis by (simp add: ranked_def max_by_def)
  next
    case False
    from snoc.prems have "\<forall>x \<in> set xs. \<not> f32_is_nan x" by simp
    from snoc.IH [OF False this] obtain c where c: "c < length xs" "ranked xs = Some (xs ! c, of_nat (Suc c))"
      and max: "\<forall>i < length xs. f32_key (xs ! i) \<le> f32_key (xs ! c)"
      and last: "\<forall>i. c < i \<and> i < length xs \<longrightarrow> f32_key (xs ! i) < f32_key (xs ! c)" by blast
    from snoc.prems c(1) have nn: "\<not> f32_is_nan (xs ! c)" "\<not> f32_is_nan y" by auto
    show ?thesis
    proof (cases "f32_key y < f32_key (xs ! c)")
      case True
      with c nn have "ranked (xs @ [y]) = Some ((xs @ [y]) ! c, of_nat (Suc c))"
        by (simp add: ranked_snoc False score_cmp_Greater nth_append)
      moreover from max True c(1) have "\<forall>i < length (xs @ [y]). f32_key ((xs @ [y]) ! i) \<le> f32_key ((xs @ [y]) ! c)"
        by (simp add: nth_append less_Suc_eq)
      moreover from last True c(1) have "\<forall>i. c < i \<and> i < length (xs @ [y]) \<longrightarrow> f32_key ((xs @ [y]) ! i) < f32_key ((xs @ [y]) ! c)"
        by (simp add: nth_append less_Suc_eq)
      moreover from c(1) have "c < length (xs @ [y])" by simp
      ultimately show ?thesis by blast
    next
      case ge: False
      with c nn have "ranked (xs @ [y]) = Some ((xs @ [y]) ! length xs, of_nat (Suc (length xs)))"
        by (simp add: ranked_snoc False score_cmp_Greater)
      moreover from ge max have "\<forall>i < length xs. f32_key (xs ! i) \<le> f32_key y"
        by (meson not_less order_trans)
      ultimately show ?thesis
        by (intro exI [of _ "length xs"]) (auto simp: nth_append less_Suc_eq)
    qed
  qed
qed simp

lemma f32_gt_zero_iff: "\<not> f32_is_nan x \<Longrightarrow> f32_gt x 0 = (0 < f32_key x)"
  by (auto simp: f32_gt_def f32_partial_cmp_def f32_key_def)

lemma f32_key_zero [simp]: "f32_key 0 = 0"
  by (simp add: f32_key_def)

text \<open>A buffer longer than the scores: its zeros take part.\<close>

lemma ranked_padded_none:
  assumes "0 < n" and "\<forall>x \<in> set scores. \<not> f32_is_nan x" and "\<forall>x \<in> set scores. \<not> f32_gt x 0"
  shows "ranked (scores @ replicate n 0) = Some (0, of_nat (length scores + n))"
proof -
  let ?buf = "scores @ replicate n (0 :: f32)"
  have "?buf \<noteq> []" and "\<forall>x \<in> set ?buf. \<not> f32_is_nan x" using assms by auto
  from ranked_last_max [OF this] obtain c where c: "c < length ?buf" "ranked ?buf = Some (?buf ! c, of_nat (Suc c))"
    and last: "\<forall>i. c < i \<and> i < length ?buf \<longrightarrow> f32_key (?buf ! i) < f32_key (?buf ! c)" by blast
  have le: "f32_key x \<le> 0" if "x \<in> set ?buf" for x
    using that assms by (force simp: f32_gt_zero_iff)
  have zero: "?buf ! (length ?buf - 1) = 0"
    using assms(1) by (cases n) (simp_all add: nth_append del: replicate.simps)
  have "c = length ?buf - 1"
  proof (rule ccontr)
    assume "c \<noteq> length ?buf - 1"
    with c(1) have "c < length ?buf - 1" "length ?buf - 1 < length ?buf" by auto
    with last have "f32_key (?buf ! (length ?buf - 1)) < f32_key (?buf ! c)" by blast
    moreover note zero
    moreover have "f32_key (?buf ! c) \<le> 0" using c(1) by (intro le nth_mem)
    ultimately show False by simp
  qed
  moreover have "Suc (length ?buf - 1) = length scores + n" using assms(1) by simp
  ultimately show ?thesis using c(2) zero by metis
qed

lemma ranked_padded_some:
  assumes "x \<in> set scores" and "f32_gt x 0" and "\<forall>x \<in> set scores. \<not> f32_is_nan x"
  shows "ranked (scores @ replicate n 0) = ranked scores"
proof -
  let ?buf = "scores @ replicate n (0 :: f32)"
  have "?buf \<noteq> []" and "\<forall>x \<in> set ?buf. \<not> f32_is_nan x" using assms by auto
  from ranked_last_max [OF this] obtain c where c: "c < length ?buf" "ranked ?buf = Some (?buf ! c, of_nat (Suc c))"
    and max: "\<forall>i < length ?buf. f32_key (?buf ! i) \<le> f32_key (?buf ! c)"
    and last: "\<forall>i. c < i \<and> i < length ?buf \<longrightarrow> f32_key (?buf ! i) < f32_key (?buf ! c)" by blast
  from assms(1,3) have "scores \<noteq> []" by auto
  from ranked_last_max [OF this assms(3)] obtain d where
    d: "d < length scores" "ranked scores = Some (scores ! d, of_nat (Suc d))"
    and max': "\<forall>i < length scores. f32_key (scores ! i) \<le> f32_key (scores ! d)"
    and last': "\<forall>i. d < i \<and> i < length scores \<longrightarrow> f32_key (scores ! i) < f32_key (scores ! d)" by blast
  from assms obtain i where "i < length scores" "0 < f32_key (scores ! i)"
    by (metis f32_gt_zero_iff in_set_conv_nth)
  moreover from this(1) have "?buf ! i = scores ! i" and len: "i < length ?buf" by (simp_all add: nth_append)
  ultimately have "0 < f32_key (?buf ! c)" using max [rule_format, OF len] by simp
  moreover have "?buf ! c = 0" if "\<not> c < length scores" using that c(1) by (simp add: nth_append)
  ultimately have cs: "c < length scores" by (cases "c < length scores") simp_all
  have "?buf ! d = scores ! d" "?buf ! c = scores ! c" "d < length ?buf"
    using d(1) cs by (simp_all add: nth_append)
  note eqs = this
  have "\<not> c < d" using last [rule_format, of d] max' [rule_format, of c] eqs cs by auto
  moreover have "\<not> d < c" using max [rule_format, of d] last' [rule_format, of c] eqs cs by auto
  ultimately have "c = d" by simp
  with c(2) d(2) eqs show ?thesis by simp
qed

section \<open>The report of a run\<close>

definition op_report :: "(nat \<Rightarrow> instant) \<Rightarrow> string \<Rightarrow> nat \<Rightarrow> nat \<Rightarrow> metrics" where
  "op_report clock nm s e = \<lparr>name = nm, timestamp = clock e, wall_clock_time = clock e - clock s,
     user_time = 0, system_time = 0, max_rss = 0, cpu_usage = 0\<rparr>"

definition phase_report :: "(nat \<Rightarrow> instant) \<Rightarrow> string \<Rightarrow> nat \<Rightarrow> duration \<Rightarrow> metrics" where
  "phase_report clock nm s w = \<lparr>name = nm, timestamp = clock s, wall_clock_time = w,
     user_time = 0, system_time = 0, max_rss = 0, cpu_usage = 0\<rparr>"

definition red_time :: "(nat \<Rightarrow> instant) \<Rightarrow> duration" where
  "red_time clock = (clock 3 - clock 2) + (clock 5 - clock 4) + (clock 7 - clock 6)"

definition green_time :: "(nat \<Rightarrow> instant) \<Rightarrow> duration" where
  "green_time clock = (clock 10 - clock 9) + (clock 12 - clock 11) + (clock 14 - clock 13)"

definition guest_report :: "(nat \<Rightarrow> instant) \<Rightarrow> output_item list" where
  "guest_report clock =
     map MetricsBlock
       [op_report clock ''loadmodel'' 2 3, op_report clock ''envload'' 4 5, op_report clock ''readimg'' 6 7,
        op_report clock ''Pre-processing'' 9 10, op_report clock ''Inference'' 11 12,
        op_report clock ''Post-processing'' 13 14] @
     [TextLine (CHR 0x0A # ''=========== Phase Metrics ===========''),
      MetricsBlock (phase_report clock ''RED BOX Phase'' 1 (red_time clock)),
      MetricsBlock (phase_report clock ''GREEN BOX Phase'' 8 (green_time clock)),
      TextLine (''===================================='' @ [CHR 0x0A]),
      MetricsBlock (op_report clock ''Total'' 0 15)]"

lemma finish_operation_one:
  assumes "current_operation k = Some m" and "constant_usage m"
    and "active_phases k = [(p, a)]" and "unmeasured a" and "wall_clock_time a + (t - timestamp m) < duration_max"
  shows "finish_operation t k = Ok (k\<lparr>current_operation := None,
    completed_metrics := completed_metrics k @ [\<lparr>name = name m, timestamp = t, wall_clock_time = t - timestamp m,
       user_time = 0, system_time = 0, max_rss = 0, cpu_usage = 0\<rparr>],
    active_phases := [(p, a\<lparr>wall_clock_time := wall_clock_time a + (t - timestamp m)\<rparr>)]\<rparr>)"
  using assms
  by (simp add: finish_operation_def finish_operation_internal_def metrics_current_eq
      metrics_diff_idle [OF constant_usage_current] metrics_combine_idle unmeasured_def)

definition red_tracker :: "(nat \<Rightarrow> instant) \<Rightarrow> benchmark_tracker" where
  "red_tracker clock =
     \<lparr>start_metrics = \<lparr>name = ''Total'', timestamp = clock 0, wall_clock_time = 0,
        user_time = nanos_per_sec, system_time = nanos_per_sec, max_rss = 0, cpu_usage = 0\<rparr>,
      current_operation = None,
      completed_metrics = [op_report clock ''loadmodel'' 2 3, op_report clock ''envload'' 4 5, op_report clock ''readimg'' 6 7],
      active_phases = [],
      phase_metrics = [(''RED BOX Phase'', phase_report clock ''RED BOX Phase'' 1 (red_time clock))],
      phase_order = [''RED BOX Phase'']\<rparr>"

lemmas tracker_eval =
  tracker_new_def start_operation_def metrics_current_eq finish_operation_one constant_usage_def
  unmeasured_def start_phase_def end_phase_def Let_def

lemma main_red_box_result:
  assumes "load_model env model_path = Ok g" and "initialize_env env g = Ok c0"
    and "read_img env image_path = Ok img" and "red_time clock < duration_max"
  shows "main_red_box env clock = Ok (red_tracker clock, c0, img)"
  using assms
  by (simp add: main_red_box_def tracker_eval red_tracker_def op_report_def phase_report_def red_time_def)

definition green_tracker :: "(nat \<Rightarrow> instant) \<Rightarrow> benchmark_tracker" where
  "green_tracker clock = (red_tracker clock)
     \<lparr>current_operation := Some \<lparr>name = ''Post-processing'', timestamp = clock 13, wall_clock_time = 0,
        user_time = nanos_per_sec, system_time = nanos_per_sec, max_rss = 0, cpu_usage = 0\<rparr>,
      completed_metrics := completed_metrics (red_tracker clock) @
        [op_report clock ''Pre-processing'' 9 10, op_report clock ''Inference'' 11 12],
      active_phases := [(''GREEN BOX Phase'',
        phase_report clock ''GREEN BOX Phase'' 8 ((clock 10 - clock 9) + (clock 12 - clock 11)))],
      phase_order := [''RED BOX Phase'', ''GREEN BOX Phase'']\<rparr>"

lemma main_green_box_result:
  assumes "process_image env img = Ok input"
    and "ctx_set_input env c0 0 [1, 3, 224, 224] input = (r1, c1)" and "r1 \<noteq> Panic"
    and "ctx_compute env c1 = (r2, c2)" and "r2 \<noteq> Panic" and "green_time clock < duration_max"
  shows "main_green_box env clock (red_tracker clock, c0, img) = Ok (green_tracker clock, c2)"
  using assms
  by (simp add: main_green_box_def run_model_def map_err_Panic_iff tracker_eval red_tracker_def
      green_tracker_def op_report_def phase_report_def green_time_def)

lemma final_report:
  assumes "green_time clock < duration_max"
  shows "bind_ok (finish_operation (clock 14) (green_tracker clock))
    (\<lambda>k. print_all_metrics (clock 15) (end_phase ''GREEN BOX Phase'' k)) = Ok (guest_report clock)"
  using assms
  by (simp add: tracker_eval green_tracker_def red_tracker_def op_report_def phase_report_def green_time_def
      guest_report_def print_all_metrics_def get_total_metrics_def printed_phases_def List.map_filter_def
      metrics_diff_idle [OF constant_usage_current])

section \<open>Properties\<close>

text \<open>
  Claim C5. A benchmark run. If the model and the image load, the image becomes a tensor and
  post-processing yields a class, and the phases take less than \<open>2 ^ 64\<close> seconds, then \<^verbatim>\<open>main\<close>
  returns and prints the prediction, the six operations in order, the two phases with the sums of the
  times of their own three operations, the total, and the class. Whether setting the input and
  running the model succeeded or returned an error makes no difference to what is done.
\<close>

theorem guest_main_result:
  assumes "load_model env model_path = Ok g" and "initialize_env env g = Ok c0"
    and "read_img env image_path = Ok img" and "process_image env img = Ok input"
    and "ctx_set_input env c0 0 [1, 3, 224, 224] input = (r1, c1)" and "r1 \<noteq> Panic"
    and "ctx_compute env c1 = (r2, c2)" and "r2 \<noteq> Panic"
    and "post_process env c2 image_path = (Ok class, lines)"
    and "red_time clock < duration_max" and "green_time clock < duration_max"
  shows "guest_main env clock = (Ok (), lines @ guest_report clock @ [ClassIndex class])"
  unfolding guest_main_def main_red_box_result [OF assms(1-3,10)] bind_ok.simps
    main_green_box_result [OF assms(4-8,11)] outcome.case prod.case assms(9) Let_def unwrap.simps
    final_report [OF assms(11)] by (rule refl)

text \<open>
  Claim C6. The input tensor. For an image of at least 224 by 224 pixels the tensor is the bytes of
  \<open>3 * 224 * 224\<close> floats which the host decodes again; the float of channel \<open>c\<close>, row \<open>j\<close> and column \<open>i\<close>
  is at position \<open>(c * 224 + j) * 224 + i\<close> and is the colour value divided by 255, less the channel's
  mean, divided by the channel's standard deviation.
\<close>

theorem image_to_tensor_layout:
  assumes "ndarray_laws env holds" and "image_covers env img"
  shows "\<exists>bytes xs. image_to_tensor env img = Ok bytes \<and> length bytes = 4 * (3 * 224 * 224) \<and>
    bytes_to_f32_vec bytes = (Ok xs :: (f32 list, 'e) outcome) \<and>
    (\<forall>c < 3. \<forall>j < 224. \<forall>i < 224. \<forall>px. get_pixel env img (of_nat i) (of_nat j) = Some px \<longrightarrow>
       xs ! ((c * 224 + j) * 224 + i) = normalised (f32_div (f32_of_nat (unat (px ! c))) (f32_of_nat 255)) c)"
proof -
  let ?f = "\<lambda>n c j i. if n = (0 :: nat) \<and> c < 3 then normalised (the (channel_value env img c j i)) c
                else the (channel_value env img c j i)"
  let ?xs = "row_major (1, 3, 224, 224) ?f"
  have "?xs ! ((c * 224 + j) * 224 + i) = normalised (f32_div (f32_of_nat (unat (px ! c))) (f32_of_nat 255)) c"
    if "c < 3" "j < 224" "i < 224" "get_pixel env img (of_nat i) (of_nat j) = Some px" for c j i px
  proof -
    have "?xs ! (0 * (3 * (224 * 224)) + (c * (224 * 224) + (j * 224 + i))) = ?f 0 c j i"
      using that by (intro row_major_nth) simp_all
    moreover from assms(2) that have "length px = 4" unfolding image_covers_def by fastforce
    ultimately show ?thesis using that by (simp add: channel_value_def algebra_simps)
  qed
  moreover have "length ?xs = 3 * 224 * 224" by (simp add: length_row_major)
  ultimately show ?thesis
    unfolding image_to_tensor_value [OF assms]
    by (intro exI [of _ "f32_vec_to_bytes ?xs"] exI [of _ ?xs]) (simp add: bytes_to_f32_vec_to_bytes)
qed

text \<open>
  Claim C7. The predicted class. Suppose the model's scores are fewer than the 4000 elements of the
  buffer (MobileNet has 1000) and none is NaN. If a score is positive, the prediction is the position,
  counted from one, of the last greatest score. Otherwise the prediction is 4000, the
  last element of the zero padding, which is no class of the model.
\<close>

theorem post_process_class:
  assumes "ctx_get_output env context 0 (replicate 4000 0) =
      (Ok n, scores @ replicate (4000 - length scores) 0, context')"
    and "length scores < 4000" and "\<forall>x \<in> set scores. \<not> f32_is_nan x"
  shows "(if \<exists>x \<in> set scores. f32_gt x 0
     then \<exists>k < length scores. fst (post_process env context nm) = Ok (of_nat (Suc k)) \<and>
       (\<forall>i < length scores. f32_key (scores ! i) \<le> f32_key (scores ! k)) \<and>
       (\<forall>i. k < i \<and> i < length scores \<longrightarrow> f32_key (scores ! i) < f32_key (scores ! k))
     else fst (post_process env context nm) = Ok 4000)"
proof (cases "\<exists>x \<in> set scores. f32_gt x 0")
  case True
  then have "scores \<noteq> []" by auto
  from ranked_last_max [OF this assms(3)] obtain k where k: "k < length scores"
    "ranked scores = Some (scores ! k, of_nat (Suc k))"
    "\<forall>i < length scores. f32_key (scores ! i) \<le> f32_key (scores ! k)"
    "\<forall>i. k < i \<and> i < length scores \<longrightarrow> f32_key (scores ! i) < f32_key (scores ! k)" by blast
  from True ranked_padded_some [OF _ _ assms(3), of _ "4000 - length scores"] k(2)
  have "ranked (scores @ replicate (4000 - length scores) 0) = Some (scores ! k, of_nat (Suc k))" by auto
  with assms(1) have "fst (post_process env context nm) = Ok (of_nat (Suc k))"
    by (simp add: post_process_def output_buffer_capacity_def)
  with k True show ?thesis by auto
next
  case False
  with assms ranked_padded_none [OF _ assms(3), of "4000 - length scores"] show ?thesis
    by (simp add: post_process_def output_buffer_capacity_def)
qed

section \<open>A concrete run\<close>

text \<open>
  Libraries for which the hypotheses hold: arrays are functions with their dimensions, the image
  is black, and the model answers with the given scores.
\<close>

type_synonym demo_array = "(nat \<times> nat \<times> nat \<times> nat) \<times> (nat \<Rightarrow> nat \<Rightarrow> nat \<Rightarrow> nat \<Rightarrow> f32)"

definition demo_env :: "f32 list \<Rightarrow> (unit, unit, unit, unit, demo_array) guest_env" where
  "demo_env scores =
     \<lparr>build_from_files = (\<lambda>_. Ok ()), graph_init_context = (\<lambda>_. Ok ()),
      ctx_set_input = (\<lambda>c _ _ _. (Ok (), c)), ctx_compute = (\<lambda>c. (Err ''busy'', c)),
      ctx_get_output = (\<lambda>c _ buf. (Ok (of_nat (4 * length scores)), overwrite buf 0 scores, c)),
      image_open = (\<lambda>_. Ok ()), resize_triangle = (\<lambda>_ _ _. ()),
      get_pixel = (\<lambda>_ _ _. Some [0, 0, 0, 255]),
      from_shape_fn = (\<lambda>dims f. (dims, f)),
      plane_sub_assign = (\<lambda>a b k v. (fst a, \<lambda>n c j i. if n = b \<and> c = k then f32_sub (snd a n c j i) v else snd a n c j i)),
      plane_div_assign = (\<lambda>a b k v. (fst a, \<lambda>n c j i. if n = b \<and> c = k then f32_div (snd a n c j i) v else snd a n c j i)),
      array_as_slice = (\<lambda>a. Some (row_major (fst a) (snd a)))\<rparr>"

lemma demo_ndarray: "ndarray_laws (demo_env scores) (\<lambda>dims f a. a = (dims, f))"
  by (simp add: ndarray_laws_def demo_env_def fun_eq_iff)

lemma demo_image: "image_covers (demo_env scores) img"
  by (simp add: image_covers_def demo_env_def)

lemma demo_get_output:
  assumes "length scores \<le> 4000"
  shows "ctx_get_output (demo_env scores) context 0 (replicate 4000 0) =
      (Ok (of_nat (4 * length scores)), scores @ replicate (4000 - length scores) 0, context)"
  using assms by (simp add: demo_env_def overwrite_def)

lemma demo_scores:
  "\<not> f32_is_nan 0xBF800000" "\<not> f32_gt 0xBF800000 0" "\<not> f32_is_nan 0x3F800000" "f32_gt 0x3F800000 0"
  by (simp_all add: f32_is_nan_def f32_gt_def f32_partial_cmp_def f32_key_def f32_mag_def f32_sign_def)

lemma demo_post_process:
  "post_process (demo_env [0x3F800000]) () nm = (Ok 1, [Prediction nm 1 0x3F800000])"
proof -
  from demo_scores have "ranked ([0x3F800000] @ replicate 3999 0) = ranked [0x3F800000]"
    by (intro ranked_padded_some [of "0x3F800000"]) auto
  then have "ranked ([0x3F800000] @ replicate 3999 0) = Some (0x3F800000, 1)"
    by (simp add: ranked_def max_by_def)
  with demo_get_output [of "[0x3F800000]" "()"] show ?thesis
    by (simp add: post_process_def output_buffer_capacity_def)
qed

theorem guest_main_result_witness:
  "guest_main (demo_env [0x3F800000]) (\<lambda>n. 10 * n) =
     (Ok (), [Prediction image_path 1 0x3F800000] @ guest_report (\<lambda>n. 10 * n) @ [ClassIndex 1])"
proof (rule guest_main_result)
  let ?env = "demo_env [0x3F800000]"
  show "load_model ?env model_path = Ok ()" "initialize_env ?env () = Ok ()" "read_img ?env image_path = Ok ()"
    by (simp_all add: load_model_def initialize_env_def read_img_def demo_env_def)
  show "process_image ?env () = Ok (f32_vec_to_bytes (row_major (1, 3, 224, 224)
    (\<lambda>n c j i. if n = 0 \<and> c < 3 then normalised (the (channel_value ?env () c j i)) c
                else the (channel_value ?env () c j i))))"
    unfolding process_image_def by (rule image_to_tensor_value [OF demo_ndarray demo_image])
  show "ctx_set_input ?env () 0 [1, 3, 224, 224] input = (Ok (), ())" for input by (simp add: demo_env_def)
  show "ctx_compute ?env () = (Err ''busy'', ())" by (simp add: demo_env_def)
  show "post_process ?env () image_path = (Ok 1, [Prediction image_path 1 0x3F800000])"
    by (rule demo_post_process)
  show "red_time (\<lambda>n. 10 * n) < duration_max" "green_time (\<lambda>n. 10 * n) < duration_max"
    by (simp_all add: red_time_def green_time_def duration_max_def nanos_per_sec_def)
qed simp_all

theorem image_to_tensor_layout_witness:
  "\<exists>bytes xs. image_to_tensor (demo_env []) () = Ok bytes \<and> length bytes = 602112 \<and>
    bytes_to_f32_vec bytes = (Ok xs :: (f32 list, unit) outcome) \<and>
    xs ! 0 = normalised 0 0"
proof -
  have px: "get_pixel (demo_env []) () (of_nat 0) (of_nat 0) = Some [0, 0, 0, 255]" by (simp add: demo_env_def)
  have zero: "f32_div (f32_of_nat (unat ([0, 0, 0, 255 :: u8] ! 0))) (f32_of_nat 255) = 0"
  proof -
    have "f32_of_nat 255 = 0x437F0000"
      by (simp add: f32_of_nat_def f32_signed_def f32_round_def Let_def ilog2.simps round_half_even_def)
    then show ?thesis
      by (simp add: f32_zero_div f32_gt_def f32_partial_cmp_def f32_key_def f32_is_nan_def f32_mag_def f32_sign_def)
  qed
  from image_to_tensor_layout [where 'e = unit, OF demo_ndarray demo_image, of "[]" "()"] obtain bytes xs where
    b: "image_to_tensor (demo_env []) () = Ok bytes" "length bytes = 4 * (3 * 224 * 224)"
    "bytes_to_f32_vec bytes = (Ok xs :: (f32 list, unit) outcome)" and
    xs: "\<forall>c < 3. \<forall>j < 224. \<forall>i < 224. \<forall>px. get_pixel (demo_env []) () (of_nat i) (of_nat j) = Some px \<longrightarrow>
       xs ! ((c * 224 + j) * 224 + i) = normalised (f32_div (f32_of_nat (unat (px ! c))) (f32_of_nat 255)) c"
    by blast
  from xs [rule_format, of 0 0 0, OF _ _ _ px] have "xs ! 0 = normalised 0 0" unfolding zero by simp
  with b show ?thesis by auto
qed

theorem post_process_class_witness:
  "fst (post_process (demo_env [0xBF800000]) () ''dog'') = Ok 4000"
  using post_process_class [OF demo_get_output, of "[0xBF800000]" "()" "''dog''"] demo_scores by simp

end
