(* ===== verification/WASI_Types.thy ===== *)
theory WASI_Types
  imports Wiggle_Memory
begin

text \<open>
  Types of \<^verbatim>\<open>crates/wasi-common/src\<close>: error numbers and their sources
  (\<^verbatim>\<open>snapshots/preview_1/error.rs\<close>), file types, flags and the conversions between the host's types
  and those of the WASI snapshot (\<^verbatim>\<open>file.rs\<close>, end of \<^verbatim>\<open>snapshots/preview_1.rs\<close>). The types of the snapshot
  are the ones generated from \<^verbatim>\<open>witx/preview1/typenames.witx\<close>: an enumeration is numbered in its order,
  and the flag number \<open>i\<close> of a flags type is the bit \<open>i\<close>.
\<close>

unbundle bit_operations_syntax

section \<open>Error numbers\<close>

datatype (plugins only: size) errno =
    ESuccess | ETooBig | EAcces | EAddrinuse | EAddrnotavail | EAfnosupport | EAgain | EAlready
     | EBadf | EBadmsg | EBusy | ECanceled | EChild | EConnaborted | EConnrefused | EConnreset
     | EDeadlk | EDestaddrreq | EDom | EDquot | EExist | EFault | EFbig | EHostunreach | EIdrm
     | EIlseq | EInprogress | EIntr | EInval | EIo | EIsconn | EIsdir | ELoop | EMfile | EMlink
     | EMsgsize | EMultihop | ENametoolong | ENetdown | ENetreset | ENetunreach | ENfile
     | ENobufs | ENodev | ENoent | ENoexec | ENolck | ENolink | ENomem | ENomsg | ENoprotoopt
     | ENospc | ENosys | ENotconn | ENotdir | ENotempty | ENotrecoverable | ENotsock | ENotsup
     | ENotty | ENxio | EOverflow | EOwnerdead | EPerm | EPipe | EProto | EProtonosupport
     | EPrototype | ERange | ERofs | ESpipe | ESrch | EStale | ETimedout | ETxtbsy | EXdev
     | ENotcapable

text \<open>An error number is returned to the module as its position in the enumeration.\<close>

primrec errno_code :: "errno \<Rightarrow> nat" where
  "errno_code ESuccess = 0" | "errno_code ETooBig = 1" | "errno_code EAcces = 2"
| "errno_code EAddrinuse = 3" | "errno_code EAddrnotavail = 4" | "errno_code EAfnosupport = 5"
| "errno_code EAgain = 6" | "errno_code EAlready = 7" | "errno_code EBadf = 8"
| "errno_code EBadmsg = 9" | "errno_code EBusy = 10" | "errno_code ECanceled = 11"
| "errno_code EChild = 12" | "errno_code EConnaborted = 13" | "errno_code EConnrefused = 14"
| "errno_code EConnreset = 15" | "errno_code EDeadlk = 16" | "errno_code EDestaddrreq = 17"
| "errno_code EDom = 18" | "errno_code EDquot = 19" | "errno_code EExist = 20"
| "errno_code EFault = 21" | "errno_code EFbig = 22" | "errno_code EHostunreach = 23"
| "errno_code EIdrm = 24" | "errno_code EIlseq = 25" | "errno_code EInprogress = 26"
| "errno_code EIntr = 27" | "errno_code EInval = 28" | "errno_code EIo = 29"
| "errno_code EIsconn = 30" | "errno_code EIsdir = 31" | "errno_code ELoop = 32"
| "errno_code EMfile = 33" | "errno_code EMlink = 34" | "errno_code EMsgsize = 35"
| "errno_code EMultihop = 36" | "errno_code ENametoolong = 37" | "errno_code ENetdown = 38"
| "errno_code ENetreset = 39" | "errno_code ENetunreach = 40" | "errno_code ENfile = 41"
| "errno_code ENobufs = 42" | "errno_code ENodev = 43" | "errno_code ENoent = 44"
| "errno_code ENoexec = 45" | "errno_code ENolck = 46" | "errno_code ENolink = 47"
| "errno_code ENomem = 48" | "errno_code ENomsg = 49" | "errno_code ENoprotoopt = 50"
| "errno_code ENospc = 51" | "errno_code ENosys = 52" | "errno_code ENotconn = 53"
| "errno_code ENotdir = 54" | "errno_code ENotempty = 55" | "errno_code ENotrecoverable = 56"
| "errno_code ENotsock = 57" | "errno_code ENotsup = 58" | "errno_code ENotty = 59"
| "errno_code ENxio = 60" | "errno_code EOverflow = 61" | "errno_code EOwnerdead = 62"
| "errno_code EPerm = 63" | "errno_code EPipe = 64" | "errno_code EProto = 65"
| "errno_code EProtonosupport = 66" | "errno_code EPrototype = 67" | "errno_code ERange = 68"
| "errno_code ERofs = 69" | "errno_code ESpipe = 70" | "errno_code ESrch = 71"
| "errno_code EStale = 72" | "errno_code ETimedout = 73" | "errno_code ETxtbsy = 74"
| "errno_code EXdev = 75" | "errno_code ENotcapable = 76"

definition errno_list :: "errno list" where
  "errno_list =
    [ESuccess, ETooBig, EAcces, EAddrinuse, EAddrnotavail, EAfnosupport, EAgain, EAlready, EBadf,
     EBadmsg, EBusy, ECanceled, EChild, EConnaborted, EConnrefused, EConnreset, EDeadlk, EDestaddrreq,
     EDom, EDquot, EExist, EFault, EFbig, EHostunreach, EIdrm, EIlseq, EInprogress, EIntr, EInval,
     EIo, EIsconn, EIsdir, ELoop, EMfile, EMlink, EMsgsize, EMultihop, ENametoolong, ENetdown,
     ENetreset, ENetunreach, ENfile, ENobufs, ENodev, ENoent, ENoexec, ENolck, ENolink, ENomem,
     ENomsg, ENoprotoopt, ENospc, ENosys, ENotconn, ENotdir, ENotempty, ENotrecoverable, ENotsock,
     ENotsup, ENotty, ENxio, EOverflow, EOwnerdead, EPerm, EPipe, EProto, EProtonosupport, EPrototype,
     ERange, ERofs, ESpipe, ESrch, EStale, ETimedout, ETxtbsy, EXdev, ENotcapable]"

lemma errno_list_code: "errno_list ! errno_code e = e"
  by (cases e) (simp_all only: errno_code.simps errno_list_def nth_Cons_numeral nth_Cons_0 nth_Cons_Suc One_nat_def, simp_all)

lemma errno_code_inj: "errno_code e = errno_code e' \<longleftrightarrow> e = e'"
  by (metis errno_list_code)

lemma errno_code_less: "errno_code e < length errno_list"
  by (cases e) (simp_all add: errno_list_def)

text \<open>
  \<^verbatim>\<open>types::Error\<close> is an error number for the module or a trap that stops it. Context messages do
  not change which of the two it is and are left out.
\<close>

datatype wasi_error = Errno errno | Trap string

definition not_found :: wasi_error where "not_found = Errno ENoent"
definition too_big :: wasi_error where "too_big = Errno ETooBig"
definition badf :: wasi_error where "badf = Errno EBadf"
definition exist :: wasi_error where "exist = Errno EExist"
definition illegal_byte_sequence :: wasi_error where "illegal_byte_sequence = Errno EIlseq"
definition invalid_argument :: wasi_error where "invalid_argument = Errno EInval"
definition io :: wasi_error where "io = Errno EIo"
definition name_too_long :: wasi_error where "name_too_long = Errno ENametoolong"
definition not_dir :: wasi_error where "not_dir = Errno ENotdir"
definition not_supported :: wasi_error where "not_supported = Errno ENotsup"
definition overflow :: wasi_error where "overflow = Errno EOverflow"
definition range_error :: wasi_error where "range_error = Errno ERange"
definition seek_pipe :: wasi_error where "seek_pipe = Errno ESpipe"
definition perm :: wasi_error where "perm = Errno EPerm"

text \<open>
  The error numbers of the operating system by their names in \<^verbatim>\<open>rustix\<close>; the numbering is that
  crate's. On Linux \<^verbatim>\<open>WOULDBLOCK\<close> is \<^verbatim>\<open>AGAIN\<close> and \<^verbatim>\<open>OPNOTSUPP\<close> is \<^verbatim>\<open>NOTSUP\<close>.
\<close>

datatype (plugins only: size) rustix_errno =
    OS_AGAIN | OS_PIPE | OS_PERM | OS_NOENT | OS_NOMEM | OS_TOOBIG | OS_IO | OS_BADF | OS_BUSY
     | OS_ACCESS | OS_FAULT | OS_NOTDIR | OS_ISDIR | OS_INVAL | OS_EXIST | OS_FBIG | OS_NOSPC
     | OS_SPIPE | OS_MFILE | OS_MLINK | OS_NAMETOOLONG | OS_NFILE | OS_NOTEMPTY | OS_LOOP
     | OS_OVERFLOW | OS_ILSEQ | OS_NOTSUP | OS_ADDRINUSE | OS_CANCELED | OS_ADDRNOTAVAIL
     | OS_AFNOSUPPORT | OS_ALREADY | OS_CONNABORTED | OS_CONNREFUSED | OS_CONNRESET
     | OS_DESTADDRREQ | OS_DQUOT | OS_HOSTUNREACH | OS_INPROGRESS | OS_INTR | OS_ISCONN
     | OS_MSGSIZE | OS_NETDOWN | OS_NETRESET | OS_NETUNREACH | OS_NOBUFS | OS_NOPROTOOPT
     | OS_NOTCONN | OS_NOTSOCK | OS_PROTONOSUPPORT | OS_PROTOTYPE | OS_STALE | OS_TIMEDOUT | OS_OTHER i32

definition errno_of_rustix :: "rustix_errno \<Rightarrow> errno option" where
  "errno_of_rustix e =
     (case e of
        OS_AGAIN \<Rightarrow> Some EAgain
      | OS_PIPE \<Rightarrow> Some EPipe
      | OS_PERM \<Rightarrow> Some EPerm
      | OS_NOENT \<Rightarrow> Some ENoent
      | OS_NOMEM \<Rightarrow> Some ENomem
      | OS_TOOBIG \<Rightarrow> Some ETooBig
      | OS_IO \<Rightarrow> Some EIo
      | OS_BADF \<Rightarrow> Some EBadf
      | OS_BUSY \<Rightarrow> Some EBusy
      | OS_ACCESS \<Rightarrow> Some EAcces
      | OS_FAULT \<Rightarrow> Some EFault
      | OS_NOTDIR \<Rightarrow> Some ENotdir
      | OS_ISDIR \<Rightarrow> Some EIsdir
      | OS_INVAL \<Rightarrow> Some EInval
      | OS_EXIST \<Rightarrow> Some EExist
      | OS_FBIG \<Rightarrow> Some EFbig
      | OS_NOSPC \<Rightarrow> Some ENospc
      | OS_SPIPE \<Rightarrow> Some ESpipe
      | OS_MFILE \<Rightarrow> Some EMfile
      | OS_MLINK \<Rightarrow> Some EMlink
      | OS_NAMETOOLONG \<Rightarrow> Some ENametoolong
      | OS_NFILE \<Rightarrow> Some ENfile
      | OS_NOTEMPTY \<Rightarrow> Some ENotempty
      | OS_LOOP \<Rightarrow> Some ELoop
      | OS_OVERFLOW \<Rightarrow> Some EOverflow
      | OS_ILSEQ \<Rightarrow> Some EIlseq
      | OS_NOTSUP \<Rightarrow> Some ENotsup
      | OS_ADDRINUSE \<Rightarrow> Some EAddrinuse
      | OS_CANCELED \<Rightarrow> Some ECanceled
      | OS_ADDRNOTAVAIL \<Rightarrow> Some EAddrnotavail
      | OS_AFNOSUPPORT \<Rightarrow> Some EAfnosupport
      | OS_ALREADY \<Rightarrow> Some EAlready
      | OS_CONNABORTED \<Rightarrow> Some EConnaborted
      | OS_CONNREFUSED \<Rightarrow> Some EConnrefused
      | OS_CONNRESET \<Rightarrow> Some EConnreset
      | OS_DESTADDRREQ \<Rightarrow> Some EDestaddrreq
      | OS_DQUOT \<Rightarrow> Some EDquot
      | OS_HOSTUNREACH \<Rightarrow> Some EHostunreach
      | OS_INPROGRESS \<Rightarrow> Some EInprogress
      | OS_INTR \<Rightarrow> Some EIntr
      | OS_ISCONN \<Rightarrow> Some EIsconn
      | OS_MSGSIZE \<Rightarrow> Some EMsgsize
      | OS_NETDOWN \<Rightarrow> Some ENetdown
      | OS_NETRESET \<Rightarrow> Some ENetreset
      | OS_NETUNREACH \<Rightarrow> Some ENetunreach
      | OS_NOBUFS \<Rightarrow> Some ENobufs
      | OS_NOPROTOOPT \<Rightarrow> Some ENoprotoopt
      | OS_NOTCONN \<Rightarrow> Some ENotconn
      | OS_NOTSOCK \<Rightarrow> Some ENotsock
      | OS_PROTONOSUPPORT \<Rightarrow> Some EProtonosupport
      | OS_PROTOTYPE \<Rightarrow> Some EPrototype
      | OS_STALE \<Rightarrow> Some EStale
      | OS_TIMEDOUT \<Rightarrow> Some ETimedout
      | OS_OTHER n \<Rightarrow> None)"

definition from_raw_os_error :: "(i32 \<Rightarrow> rustix_errno) \<Rightarrow> i32 option \<Rightarrow> wasi_error option" where
  "from_raw_os_error rustix err =
     (case err of None \<Rightarrow> None | Some n \<Rightarrow> map_option Errno (errno_of_rustix (rustix n)))"

datatype error_kind = NotFound | PermissionDenied | AlreadyExists | InvalidInput | WouldBlock | OtherKind

record io_error =
  raw_os_error :: "i32 option"
  kind :: error_kind

definition error_from_io :: "(i32 \<Rightarrow> rustix_errno) \<Rightarrow> io_error \<Rightarrow> wasi_error" where
  "error_from_io rustix err =
     (case from_raw_os_error rustix (raw_os_error err) of
        Some e \<Rightarrow> e
      | None \<Rightarrow>
          (case kind err of
             NotFound \<Rightarrow> Errno ENoent
           | PermissionDenied \<Rightarrow> Errno EPerm
           | AlreadyExists \<Rightarrow> Errno EExist
           | InvalidInput \<Rightarrow> Errno EInval
           | WouldBlock \<Rightarrow> Errno EAgain
           | OtherKind \<Rightarrow> Trap ''Unknown OS error''))"

definition error_from_rand :: "(i32 \<Rightarrow> rustix_errno) \<Rightarrow> i32 option \<Rightarrow> wasi_error" where
  "error_from_rand rustix err =
     (case from_raw_os_error rustix err of Some e \<Rightarrow> e | None \<Rightarrow> Errno EIo)"

fun error_from_guest :: "guest_error \<Rightarrow> wasi_error" where
  "error_from_guest (InvalidFlagValue _) = Errno EInval"
| "error_from_guest (InvalidEnumValue _) = Errno EInval"
| "error_from_guest PtrOverflow = Trap ''Pointer overflow''"
| "error_from_guest (PtrOutOfBounds _) = Trap ''Pointer out of bounds''"
| "error_from_guest (PtrNotAligned _ _) = Trap ''Pointer not aligned''"
| "error_from_guest (PtrBorrowed _) = Errno EFault"
| "error_from_guest InvalidUtf8 = Errno EIlseq"
| "error_from_guest TryFromIntError = Errno EOverflow"
| "error_from_guest SliceLengthsDiffer = Errno EFault"
| "error_from_guest BorrowCheckerOutOfHandles = Errno EFault"
| "error_from_guest (InFunc _ _ _ e) = error_from_guest e"

definition error_from_int :: wasi_error where "error_from_int = Errno EOverflow"

section \<open>File types and attributes\<close>

datatype file_type =
    Unknown | BlockDevice | CharacterDevice | Directory | RegularFile
  | SocketDgram | SocketStream | SymbolicLink | PipeFile

datatype witx_filetype =
    FtUnknown | FtBlockDevice | FtCharacterDevice | FtDirectory | FtRegularFile
  | FtSocketDgram | FtSocketStream | FtSymbolicLink

fun filetype_tag :: "witx_filetype \<Rightarrow> u8" where
  "filetype_tag FtUnknown = 0"
| "filetype_tag FtBlockDevice = 1"
| "filetype_tag FtCharacterDevice = 2"
| "filetype_tag FtDirectory = 3"
| "filetype_tag FtRegularFile = 4"
| "filetype_tag FtSocketDgram = 5"
| "filetype_tag FtSocketStream = 6"
| "filetype_tag FtSymbolicLink = 7"

fun filetype_from :: "file_type \<Rightarrow> witx_filetype" where
  "filetype_from Directory = FtDirectory"
| "filetype_from BlockDevice = FtBlockDevice"
| "filetype_from CharacterDevice = FtCharacterDevice"
| "filetype_from RegularFile = FtRegularFile"
| "filetype_from SocketDgram = FtSocketDgram"
| "filetype_from SocketStream = FtSocketStream"
| "filetype_from SymbolicLink = FtSymbolicLink"
| "filetype_from Unknown = FtUnknown"
| "filetype_from PipeFile = FtUnknown"

text \<open>A \<^verbatim>\<open>SystemTime\<close> is its distance from the Unix epoch in nanoseconds, negative before it.\<close>

type_synonym system_time = int

record filestat =
  device_id :: u64
  inode :: u64
  filetype :: file_type
  nlink :: u64
  file_size :: u64
  atim :: "system_time option"
  mtim :: "system_time option"
  ctim :: "system_time option"

record witx_filestat =
  st_dev :: u64
  st_ino :: u64
  st_filetype :: witx_filetype
  st_nlink :: u64
  st_size :: u64
  st_atim :: u64
  st_mtim :: u64
  st_ctim :: u64

definition time_field :: "system_time option \<Rightarrow> (u64, 'e) outcome" where
  "time_field t =
     (case t of
        None \<Rightarrow> Ok 0
      | Some t \<Rightarrow> if t < 0 then Panic else Ok (of_int t))"

definition filestat_from :: "filestat \<Rightarrow> (witx_filestat, 'e) outcome" where
  "filestat_from stat =
     bind_ok (time_field (atim stat)) (\<lambda>a.
     bind_ok (time_field (mtim stat)) (\<lambda>m.
     bind_ok (time_field (ctim stat)) (\<lambda>c.
       Ok \<lparr>st_dev = device_id stat, st_ino = inode stat,
           st_filetype = filetype_from (filetype stat), st_nlink = nlink stat,
           st_size = file_size stat, st_atim = a, st_mtim = m, st_ctim = c\<rparr>)))"

datatype advice = Normal | Sequential | Random | WillNeed | DontNeed | NoReuse

datatype witx_advice = AdvNormal | AdvSequential | AdvRandom | AdvWillneed | AdvDontneed | AdvNoreuse

fun advice_from :: "witx_advice \<Rightarrow> advice" where
  "advice_from AdvNormal = Normal"
| "advice_from AdvSequential = Sequential"
| "advice_from AdvRandom = Random"
| "advice_from AdvWillneed = WillNeed"
| "advice_from AdvDontneed = DontNeed"
| "advice_from AdvNoreuse = NoReuse"

datatype system_time_spec = SymbolicNow | Absolute system_time

definition systimespec ::
  "bool \<Rightarrow> u64 \<Rightarrow> bool \<Rightarrow> (system_time_spec option, wasi_error) outcome" where
  "systimespec set_it ts now =
     (if set_it \<and> now then Err invalid_argument
      else if set_it then Ok (Some (Absolute (int (unat ts))))
      else if now then Ok (Some SymbolicNow)
      else Ok None)"

section \<open>Flags\<close>

definition contains :: "'a::len word \<Rightarrow> 'a word \<Rightarrow> bool" where
  "contains x f = (x AND f = f)"

text \<open>The macro \<^verbatim>\<open>convert_flags!\<close>, given the pairs of a flag on both sides.\<close>

definition convert_flags :: "('a::len word \<times> 'b::len word) list \<Rightarrow> 'a word \<Rightarrow> 'b word" where
  "convert_flags pairs f = fold (\<lambda>(a, b) out. if contains f a then out OR b else out) pairs 0"

definition fdflags_names :: "(u32 \<times> u16) list" where
  "fdflags_names = [(0b1, 1), (0b10, 2), (0b100, 4), (0b1000, 8), (0b10000, 16)]"

definition riflags_names :: "(u32 \<times> u16) list" where
  "riflags_names = [(0b1, 1), (0b10, 2)]"

definition roflags_names :: "(u32 \<times> u16) list" where
  "roflags_names = [(0b1, 1)]"

definition sdflags_names :: "(u32 \<times> u8) list" where
  "sdflags_names = [(0b1, 1), (0b10, 2)]"

definition swap_names :: "('a \<times> 'b) list \<Rightarrow> ('b \<times> 'a) list" where
  "swap_names = map (\<lambda>(a, b). (b, a))"

definition witx_fdflags_from :: "u32 \<Rightarrow> u16" where
  "witx_fdflags_from = convert_flags fdflags_names"

definition fdflags_from :: "u16 \<Rightarrow> u32" where
  "fdflags_from = convert_flags (swap_names fdflags_names)"

definition riflags_from :: "u16 \<Rightarrow> u32" where
  "riflags_from = convert_flags (swap_names riflags_names)"

definition witx_roflags_from :: "u32 \<Rightarrow> u16" where
  "witx_roflags_from = convert_flags roflags_names"

definition sdflags_from :: "u8 \<Rightarrow> u32" where
  "sdflags_from = convert_flags (swap_names sdflags_names)"

definition oflags_from :: "u16 \<Rightarrow> u32" where
  "oflags_from = convert_flags [(1, 0b1), (2, 0b10), (4, 0b100), (8, 0b1000)]"

definition witx_oflags_from :: "u32 \<Rightarrow> u16" where
  "witx_oflags_from = convert_flags [(0b1, 1), (0b10, 2), (0b100, 4), (0b1000, 8)]"

definition RW_HANGUP :: u32 where "RW_HANGUP = 0b1"

definition eventrwflags_from :: "u32 \<Rightarrow> u16" where
  "eventrwflags_from flags = (if contains flags RW_HANGUP then 0 OR 1 else 0)"

section \<open>Rights and access modes\<close>

definition MODE_READ :: u32 where "MODE_READ = 0b1"
definition MODE_WRITE :: u32 where "MODE_WRITE = 0b10"

text \<open>The rights in the order of the snapshot's type.\<close>

datatype (plugins only: size) right =
    FD_DATASYNC | FD_READ | FD_SEEK | FD_FDSTAT_SET_FLAGS | FD_SYNC | FD_TELL | FD_WRITE
     | FD_ADVISE | FD_ALLOCATE | PATH_CREATE_DIRECTORY | PATH_CREATE_FILE | PATH_LINK_SOURCE
     | PATH_LINK_TARGET | PATH_OPEN | FD_READDIR | PATH_READLINK | PATH_RENAME_SOURCE
     | PATH_RENAME_TARGET | PATH_FILESTAT_GET | PATH_FILESTAT_SET_SIZE
     | PATH_FILESTAT_SET_TIMES | FD_FILESTAT_GET | FD_FILESTAT_SET_SIZE | FD_FILESTAT_SET_TIMES
     | PATH_SYMLINK | PATH_REMOVE_DIRECTORY | PATH_UNLINK_FILE | POLL_FD_READWRITE
     | SOCK_SHUTDOWN | SOCK_ACCEPT

definition right_index :: "right \<Rightarrow> nat" where
  "right_index r =
     (case r of
        FD_DATASYNC \<Rightarrow> 0
      | FD_READ \<Rightarrow> 1
      | FD_SEEK \<Rightarrow> 2
      | FD_FDSTAT_SET_FLAGS \<Rightarrow> 3
      | FD_SYNC \<Rightarrow> 4
      | FD_TELL \<Rightarrow> 5
      | FD_WRITE \<Rightarrow> 6
      | FD_ADVISE \<Rightarrow> 7
      | FD_ALLOCATE \<Rightarrow> 8
      | PATH_CREATE_DIRECTORY \<Rightarrow> 9
      | PATH_CREATE_FILE \<Rightarrow> 10
      | PATH_LINK_SOURCE \<Rightarrow> 11
      | PATH_LINK_TARGET \<Rightarrow> 12
      | PATH_OPEN \<Rightarrow> 13
      | FD_READDIR \<Rightarrow> 14
      | PATH_READLINK \<Rightarrow> 15
      | PATH_RENAME_SOURCE \<Rightarrow> 16
      | PATH_RENAME_TARGET \<Rightarrow> 17
      | PATH_FILESTAT_GET \<Rightarrow> 18
      | PATH_FILESTAT_SET_SIZE \<Rightarrow> 19
      | PATH_FILESTAT_SET_TIMES \<Rightarrow> 20
      | FD_FILESTAT_GET \<Rightarrow> 21
      | FD_FILESTAT_SET_SIZE \<Rightarrow> 22
      | FD_FILESTAT_SET_TIMES \<Rightarrow> 23
      | PATH_SYMLINK \<Rightarrow> 24
      | PATH_REMOVE_DIRECTORY \<Rightarrow> 25
      | PATH_UNLINK_FILE \<Rightarrow> 26
      | POLL_FD_READWRITE \<Rightarrow> 27
      | SOCK_SHUTDOWN \<Rightarrow> 28
      | SOCK_ACCEPT \<Rightarrow> 29)"

definition rights_of :: "right list \<Rightarrow> u64" where
  "rights_of rs = fold (\<lambda>r out. out OR push_bit (right_index r) 1) rs 0"

definition has_right :: "u64 \<Rightarrow> right \<Rightarrow> bool" where
  "has_right x r = contains x (push_bit (right_index r) 1)"

definition directory_base_rights :: u64 where
  "directory_base_rights = rights_of
     [PATH_CREATE_DIRECTORY, PATH_CREATE_FILE, PATH_LINK_SOURCE, PATH_LINK_TARGET, PATH_OPEN,
      FD_READDIR, PATH_READLINK, PATH_RENAME_SOURCE, PATH_RENAME_TARGET, PATH_SYMLINK,
      PATH_REMOVE_DIRECTORY, PATH_UNLINK_FILE, PATH_FILESTAT_GET, PATH_FILESTAT_SET_TIMES,
      FD_FILESTAT_GET, FD_FILESTAT_SET_TIMES]"

definition directory_inheriting_rights :: u64 where
  "directory_inheriting_rights = rights_of
     [FD_DATASYNC, FD_READ, FD_SEEK, FD_FDSTAT_SET_FLAGS, FD_SYNC, FD_TELL, FD_WRITE, FD_ADVISE,
      FD_ALLOCATE, FD_FILESTAT_GET, FD_FILESTAT_SET_SIZE, FD_FILESTAT_SET_TIMES, POLL_FD_READWRITE]
     OR directory_base_rights"

record fd_stat =
  fds_filetype :: file_type
  fds_flags :: u32
  fds_access_mode :: u32

record witx_fdstat =
  fs_filetype :: witx_filetype
  fs_flags :: u16
  fs_rights_base :: u64
  fs_rights_inheriting :: u64

definition fdstat_from :: "fd_stat \<Rightarrow> witx_fdstat" where
  "fdstat_from fdstat =
     (let base = 0;
          base = (if contains (fds_access_mode fdstat) MODE_READ then base OR rights_of [FD_READ] else base);
          base = (if contains (fds_access_mode fdstat) MODE_WRITE then base OR rights_of [FD_WRITE] else base)
      in \<lparr>fs_filetype = filetype_from (fds_filetype fdstat),
          fs_flags = witx_fdflags_from (fds_flags fdstat),
          fs_rights_base = base, fs_rights_inheriting = 0\<rparr>)"

section \<open>Properties\<close>

lemma and_flag:
  fixes x :: "'a::len word"
  shows "x AND 2 ^ i = (if contains x (2 ^ i) then 2 ^ i else 0)"
proof (cases "bit x i")
  case True
  then have "x AND 2 ^ i = 2 ^ i" by (intro bit_word_eqI) (auto simp: bit_simps)
  then show ?thesis by (simp add: contains_def)
next
  case False
  then have "x AND 2 ^ i = 0" by (intro bit_word_eqI) (auto simp: bit_simps)
  then show ?thesis by (auto simp: contains_def)
qed

lemma and_flags:
  fixes x :: "'a::len word"
  shows "x AND 1 = (if contains x 1 then 1 else 0)" "x AND 2 = (if contains x 2 then 2 else 0)"
    "x AND 4 = (if contains x 4 then 4 else 0)" "x AND 8 = (if contains x 8 then 8 else 0)"
    "x AND 16 = (if contains x 16 then 16 else 0)"
  using and_flag [of x 0] and_flag [of x 1] and_flag [of x 2] and_flag [of x 3] and_flag [of x 4] by simp_all

lemma and_masks:
  fixes x :: "'a::len word"
  shows "x AND 31 = (x AND 1) OR (x AND 2) OR (x AND 4) OR (x AND 8) OR (x AND 16)"
    "x AND 15 = (x AND 1) OR (x AND 2) OR (x AND 4) OR (x AND 8)"
  by (simp_all flip: bit.conj_disj_distrib)

lemmas flag_convs = fdflags_from_def witx_fdflags_from_def oflags_from_def witx_oflags_from_def convert_flags_def
  fdflags_names_def swap_names_def

definition bits5 :: "bool \<Rightarrow> bool \<Rightarrow> bool \<Rightarrow> bool \<Rightarrow> bool \<Rightarrow> 'a::len word" where
  "bits5 a b c d e = (if a then 1 else 0) OR (if b then 2 else 0) OR (if c then 4 else 0) OR (if d then 8 else 0) OR
     (if e then 16 else 0)"

lemma and_31: "x AND 31 = bits5 (contains x 1) (contains x 2) (contains x 4) (contains x 8) (contains x 16)"
  unfolding and_masks and_flags bits5_def ..

lemma and_15: "x AND 15 = bits5 (contains x 1) (contains x 2) (contains x 4) (contains x 8) False"
  unfolding and_masks and_flags bits5_def by simp

lemma convert_bits:
  "witx_fdflags_from x = bits5 (contains x 1) (contains x 2) (contains x 4) (contains x 8) (contains x 16)"
  "fdflags_from y = bits5 (contains y 1) (contains y 2) (contains y 4) (contains y 8) (contains y 16)"
  "witx_oflags_from x = bits5 (contains x 1) (contains x 2) (contains x 4) (contains x 8) False"
  "oflags_from y = bits5 (contains y 1) (contains y 2) (contains y 4) (contains y 8) False"
  by (simp_all add: flag_convs bits5_def or.assoc)

lemma contains_bits5:
  "contains (bits5 a b c d e :: u16) 1 \<longleftrightarrow> a" "contains (bits5 a b c d e :: u16) 2 \<longleftrightarrow> b"
  "contains (bits5 a b c d e :: u16) 4 \<longleftrightarrow> c" "contains (bits5 a b c d e :: u16) 8 \<longleftrightarrow> d"
  "contains (bits5 a b c d e :: u16) 16 \<longleftrightarrow> e"
  "contains (bits5 a b c d e :: u32) 1 \<longleftrightarrow> a" "contains (bits5 a b c d e :: u32) 2 \<longleftrightarrow> b"
  "contains (bits5 a b c d e :: u32) 4 \<longleftrightarrow> c" "contains (bits5 a b c d e :: u32) 8 \<longleftrightarrow> d"
  "contains (bits5 a b c d e :: u32) 16 \<longleftrightarrow> e"
  by (cases a; cases b; cases c; cases d; cases e; simp add: bits5_def contains_def)+

text \<open>
  Claim C23. Flags survive the conversion between the host's and the module's encoding in both
  directions: descriptor flags and open flags come back with exactly their defined bits.
\<close>

theorem flags_roundtrip:
  "fdflags_from (witx_fdflags_from x) = x AND 0b11111 \<and> witx_fdflags_from (fdflags_from y) = y AND 0b11111 \<and>
   oflags_from (witx_oflags_from x) = x AND 0b1111 \<and> witx_oflags_from (oflags_from y) = y AND 0b1111"
  by (simp add: convert_bits contains_bits5 and_31 and_15)

end
