(* ===== verification/WASI_Table.thy ===== *)
theory WASI_Table
  imports WASI_Types Handle_Tables "HOL-Library.AList"
begin

text \<open>
  The table of open files and directories, \<^verbatim>\<open>crates/wasi-common/src/table.rs\<close>, with the entries of
  \<^verbatim>\<open>file.rs\<close> and \<^verbatim>\<open>dir.rs\<close>. A \<^verbatim>\<open>HashMap\<close> is an association list with distinct keys. An element of the table
  is \<^verbatim>\<open>Any\<close>-typed: a file, a directory or something an embedder put there. An \<^verbatim>\<open>Arc\<close> carries whether
  it is shared, which decides \<^verbatim>\<open>Arc::get_mut\<close>. Files and directories themselves are trait objects: \<open>'f\<close> and
  \<open>'d\<close> stand for them, their methods are in \<open>WASI_Ctx\<close>.
\<close>

section \<open>Entries\<close>

record 'f file_entry =
  entry_file :: 'f
  access_mode :: u32

record 'd dir_entry =
  preopen_path :: "u8 list option"
  entry_dir :: 'd

datatype ('f, 'd) any_entry = FileEntry "'f file_entry" | DirEntry "'d dir_entry" | OtherEntry string

datatype 'a arc = Arc (arc_shared: bool) (arc_deref: 'a)

definition file_entry_new :: "'f \<Rightarrow> u32 \<Rightarrow> 'f file_entry" where
  "file_entry_new f mode = \<lparr>entry_file = f, access_mode = mode\<rparr>"

definition dir_entry_new :: "u8 list option \<Rightarrow> 'd \<Rightarrow> 'd dir_entry" where
  "dir_entry_new path d = \<lparr>preopen_path = path, entry_dir = d\<rparr>"

definition is_file_entry :: "('f, 'd) any_entry \<Rightarrow> bool" where
  "is_file_entry e = (case e of FileEntry _ \<Rightarrow> True | _ \<Rightarrow> False)"

definition is_dir_entry :: "('f, 'd) any_entry \<Rightarrow> bool" where
  "is_dir_entry e = (case e of DirEntry _ \<Rightarrow> True | _ \<Rightarrow> False)"

section \<open>The table\<close>

record 'v wasi_table =
  fd_map :: "(u32 \<times> 'v arc) list"
  next_fd :: u32

definition wasi_table_new :: "'v wasi_table" where
  "wasi_table_new = \<lparr>fd_map = [], next_fd = 3\<rparr>"

definition insert_at :: "u32 \<Rightarrow> 'v arc \<Rightarrow> 'v wasi_table \<Rightarrow> 'v wasi_table" where
  "insert_at key a t = t\<lparr>fd_map := AList.update key a (fd_map t)\<rparr>"

definition contains_key :: "'v wasi_table \<Rightarrow> u32 \<Rightarrow> bool" where
  "contains_key t key = (map_of (fd_map t) key \<noteq> None)"

text \<open>
  The loop of \<^verbatim>\<open>push\<close>: the next key is taken and advanced, wrapping around, until one is free. It
  passes at most one key per entry, so the number of entries and one more is enough fuel.
\<close>

fun push_loop :: "nat \<Rightarrow> 'v arc \<Rightarrow> 'v wasi_table \<Rightarrow> (u32 \<times> 'v wasi_table) option" where
  "push_loop 0 a t = None"
| "push_loop (Suc fuel) a t =
     (let key = next_fd t;
          t = t\<lparr>next_fd := next_fd t + 1\<rparr>
      in if contains_key t key then push_loop fuel a t
         else Some (key, insert_at key a t))"

definition push :: "'v arc \<Rightarrow> 'v wasi_table \<Rightarrow> (u32, wasi_error) outcome \<times> 'v wasi_table" where
  "push a t =
     (if length (fd_map t) = u32_MAX then (Err (Trap ''table has no free keys''), t)
      else case push_loop (Suc (length (fd_map t))) a t of
        Some (key, t') \<Rightarrow> (Ok key, t')
      | None \<Rightarrow> (Panic, t))"

definition table_is :: "('v \<Rightarrow> bool) \<Rightarrow> 'v wasi_table \<Rightarrow> u32 \<Rightarrow> bool" where
  "table_is is_t t key =
     (case map_of (fd_map t) key of Some r \<Rightarrow> is_t (arc_deref r) | None \<Rightarrow> False)"

definition wasi_table_get :: "('v \<Rightarrow> 'w option) \<Rightarrow> 'v wasi_table \<Rightarrow> u32 \<Rightarrow> ('w, wasi_error) outcome" where
  "wasi_table_get downcast t key =
     (case map_of (fd_map t) key of
        Some r \<Rightarrow> ok_or badf (downcast (arc_deref r))
      | None \<Rightarrow> Err badf)"

definition wasi_table_get_mut :: "('v \<Rightarrow> 'w option) \<Rightarrow> 'v wasi_table \<Rightarrow> u32 \<Rightarrow> ('w, wasi_error) outcome" where
  "wasi_table_get_mut downcast t key =
     (case map_of (fd_map t) key of
        None \<Rightarrow> Err badf
      | Some r \<Rightarrow> if arc_shared r then Err badf else ok_or badf (downcast (arc_deref r)))"

definition wasi_table_delete ::
  "('v \<Rightarrow> bool) \<Rightarrow> u32 \<Rightarrow> 'v wasi_table \<Rightarrow> ('v option, wasi_error) outcome \<times> 'v wasi_table" where
  "wasi_table_delete is_t key t =
     (let t' = t\<lparr>fd_map := AList.delete key (fd_map t)\<rparr>
      in case map_of (fd_map t) key of
           None \<Rightarrow> (Ok None, t')
         | Some r \<Rightarrow> if is_t (arc_deref r) then (Ok (Some (arc_deref r)), t') else (Panic, t'))"

definition renumber :: "u32 \<Rightarrow> u32 \<Rightarrow> 'v wasi_table \<Rightarrow> (unit, wasi_error) outcome \<times> 'v wasi_table" where
  "renumber from to t =
     (case map_of (fd_map t) from of
        None \<Rightarrow> (Err badf, t)
      | Some entry \<Rightarrow>
          (Ok (), t\<lparr>fd_map := AList.update to entry (AList.delete from (fd_map t))\<rparr>))"

definition as_file :: "('f, 'd) any_entry \<Rightarrow> 'f file_entry option" where
  "as_file e = (case e of FileEntry f \<Rightarrow> Some f | _ \<Rightarrow> None)"

definition as_dir :: "('f, 'd) any_entry \<Rightarrow> 'd dir_entry option" where
  "as_dir e = (case e of DirEntry d \<Rightarrow> Some d | _ \<Rightarrow> None)"

definition get_file :: "('f, 'd) any_entry wasi_table \<Rightarrow> u32 \<Rightarrow> ('f file_entry, wasi_error) outcome" where
  "get_file = wasi_table_get as_file"

definition get_file_mut :: "('f, 'd) any_entry wasi_table \<Rightarrow> u32 \<Rightarrow> ('f file_entry, wasi_error) outcome" where
  "get_file_mut = wasi_table_get_mut as_file"

definition get_dir :: "('f, 'd) any_entry wasi_table \<Rightarrow> u32 \<Rightarrow> ('d dir_entry, wasi_error) outcome" where
  "get_dir = wasi_table_get as_dir"

section \<open>Invariant\<close>

definition fd_lookup :: "'v wasi_table \<Rightarrow> u32 \<Rightarrow> 'v option" where
  "fd_lookup t key = map_option arc_deref (map_of (fd_map t) key)"

definition wasi_table_invar :: "'v wasi_table \<Rightarrow> bool" where
  "wasi_table_invar t = distinct (map fst (fd_map t))"

definition wasi_table_room :: "'v wasi_table \<Rightarrow> nat" where
  "wasi_table_room t = u32_MAX - length (fd_map t)"

lemma contains_key_iff: "contains_key t k \<longleftrightarrow> fd_lookup t k \<noteq> None"
  by (simp add: contains_key_def fd_lookup_def)

lemma fd_lookup_insert_at: "fd_lookup (insert_at k a t) = (fd_lookup t)(k \<mapsto> arc_deref a)"
  by (auto simp: fd_lookup_def insert_at_def update_conv')

lemma invar_insert_at: "wasi_table_invar t \<Longrightarrow> wasi_table_invar (insert_at k a t)"
  by (simp add: wasi_table_invar_def insert_at_def distinct_update)

lemma invar_new: "wasi_table_invar wasi_table_new"
  by (simp add: wasi_table_invar_def wasi_table_new_def)

lemma invar_delete: "wasi_table_invar t \<Longrightarrow> wasi_table_invar (t\<lparr>fd_map := AList.delete k (fd_map t)\<rparr>)"
  by (simp add: wasi_table_invar_def distinct_delete)

lemma invar_renumber: "wasi_table_invar t \<Longrightarrow> renumber from to t = (r, t') \<Longrightarrow> wasi_table_invar t'"
  by (auto simp: renumber_def wasi_table_invar_def distinct_update distinct_delete split: option.splits)

lemma invar_wasi_table_delete:
  "wasi_table_invar t \<Longrightarrow> wasi_table_delete p k t = (r, t') \<Longrightarrow> wasi_table_invar t'"
  by (auto simp: wasi_table_delete_def Let_def invar_delete split: option.splits if_splits)

text \<open>The keys the loop passes are all in use, so it ends within the number of entries and one.\<close>

lemma push_loop_None:
  assumes "push_loop n a t = None"
  shows "\<forall>i < n. contains_key t (next_fd t + of_nat i)"
  using assms
proof (induction n arbitrary: t)
  case (Suc n)
  let ?t = "t\<lparr>next_fd := next_fd t + 1\<rparr>"
  from Suc.prems have used: "contains_key ?t (next_fd t)" and "push_loop n a ?t = None"
    by (auto simp: Let_def split: if_splits)
  from Suc.IH [OF this(2)] have rest: "\<forall>i < n. contains_key ?t (next_fd t + 1 + of_nat i)" by simp
  show ?case
  proof (intro allI impI)
    fix i assume "i < Suc n"
    then show "contains_key t (next_fd t + of_nat i)"
      using used rest by (cases i) (auto simp: contains_key_def add.assoc)
  qed
qed simp

lemma of_nat_u32_inj_on: "inj_on (\<lambda>i. (x :: u32) + of_nat i) {..<n}" if "n \<le> 2 ^ 32"
proof (rule inj_onI)
  fix i j assume "i \<in> {..<n}" "j \<in> {..<n}" "x + of_nat i = x + of_nat j"
  then have "unat (of_nat i :: u32) = unat (of_nat j :: u32)" and "i < 2 ^ 32" "j < 2 ^ 32"
    using that by auto
  then show "i = j" by (simp add: unat_of_nat)
qed

lemma push_loop_Some:
  assumes "length (fd_map t) < u32_MAX"
  shows "push_loop (Suc (length (fd_map t))) a t \<noteq> None"
proof
  define n where "n = Suc (length (fd_map t))"
  assume "push_loop (Suc (length (fd_map t))) a t = None"
  then have "push_loop n a t = None" unfolding n_def .
  from push_loop_None [OF this] have sub: "(\<lambda>i. next_fd t + of_nat i) ` {..<n} \<subseteq> set (map fst (fd_map t))"
    unfolding contains_key_def map_of_eq_None_iff by (intro image_subsetI) simp
  have "n \<le> 2 ^ 32" using assms by (simp add: n_def u32_MAX_def)
  then have "card ((\<lambda>i. next_fd t + of_nat i) ` {..<n}) = n"
    by (simp add: card_image of_nat_u32_inj_on)
  moreover have "card ((\<lambda>i. next_fd t + of_nat i) ` {..<n}) \<le> card (set (map fst (fd_map t)))"
    by (rule card_mono [OF _ sub]) simp
  moreover have "card (set (map fst (fd_map t))) \<le> length (fd_map t)"
    using card_length [of "map fst (fd_map t)"] by simp
  ultimately show False by (simp add: n_def)
qed

lemma push_loop_fresh:
  assumes "push_loop n a t = Some (k, t')"
  shows "fd_lookup t k = None \<and> fd_map t' = AList.update k a (fd_map t)"
  using assms
proof (induction n arbitrary: t)
  case (Suc n)
  let ?t = "t\<lparr>next_fd := next_fd t + 1\<rparr>"
  show ?case
  proof (cases "contains_key ?t (next_fd t)")
    case True
    with Suc.prems have "push_loop n a ?t = Some (k, t')" by (simp add: Let_def)
    from Suc.IH [OF this] show ?thesis by (simp add: fd_lookup_def)
  next
    case False
    with Suc.prems have "k = next_fd t" "t' = insert_at k a ?t" by (auto simp: Let_def)
    with False show ?thesis by (simp add: contains_key_def fd_lookup_def insert_at_def)
  qed
qed simp

lemma push_Ok:
  assumes "push a t = (Ok k, t')"
  shows "fd_lookup t k = None \<and> fd_lookup t' = (fd_lookup t)(k \<mapsto> arc_deref a) \<and>
    fd_map t' = AList.update k a (fd_map t)"
proof -
  from assms obtain n where "push_loop n a t = Some (k, t')"
    by (auto simp: push_def simp del: push_loop.simps split: if_splits option.splits prod.splits)
  from push_loop_fresh [OF this] show ?thesis
    by (auto simp: fd_lookup_def update_conv')
qed

lemma push_not_Ok: "push a t = (r, t') \<Longrightarrow> (\<forall>k. r \<noteq> Ok k) \<Longrightarrow> t' = t"
  by (auto simp: push_def simp del: push_loop.simps split: if_splits option.splits prod.splits)

lemma invar_push: "wasi_table_invar t \<Longrightarrow> push a t = (r, t') \<Longrightarrow> wasi_table_invar t'"
  using push_Ok [of a t _ t'] push_not_Ok [of a t r t']
  by (cases r) (auto simp: wasi_table_invar_def distinct_update)

lemma length_update_fresh:
  "map_of xs k = None \<Longrightarrow> length (AList.update k v xs) = Suc (length xs)"
  by (induction xs) (auto split: if_splits)

lemma push_room:
  assumes "0 < wasi_table_room t"
  shows "\<exists>k t'. push a t = (Ok k, t') \<and> length (fd_map t') = Suc (length (fd_map t))"
proof -
  from assms have len: "length (fd_map t) < u32_MAX" by (simp add: wasi_table_room_def)
  from push_loop_Some [OF this, of a] obtain k t' where
    p: "push_loop (Suc (length (fd_map t))) a t = Some (k, t')" by auto
  with len have "push a t = (Ok k, t')" by (simp add: push_def del: push_loop.simps)
  moreover from push_loop_fresh [OF p] have "length (fd_map t') = Suc (length (fd_map t))"
    by (simp add: fd_lookup_def length_update_fresh)
  ultimately show ?thesis by blast
qed

definition push_opt :: "'v wasi_table \<Rightarrow> 'v \<Rightarrow> (u32 \<times> 'v wasi_table) option" where
  "push_opt t v = (case push (Arc False v) t of (Ok k, t') \<Rightarrow> Some (k, t') | _ \<Rightarrow> None)"

interpretation fds: handle_table fd_lookup push_opt wasi_table_room wasi_table_invar
proof unfold_locales
  fix t :: "'v wasi_table" and v
  assume inv: "wasi_table_invar t" and room: "0 < wasi_table_room t"
  from push_room [OF room, of "Arc False v"] obtain k t' where
    p: "push (Arc False v) t = (Ok k, t')" and len: "length (fd_map t') = Suc (length (fd_map t))" by blast
  from push_Ok [OF p] invar_push [OF inv p] p len show
    "\<exists>k t'. push_opt t v = Some (k, t') \<and> fd_lookup t k = None \<and>
      fd_lookup t' = (fd_lookup t)(k \<mapsto> v) \<and> wasi_table_invar t' \<and> wasi_table_room t \<le> Suc (wasi_table_room t')"
    by (auto simp: push_opt_def wasi_table_room_def)
qed

section \<open>Properties\<close>

lemma fd_lookup_delete: "fd_lookup (snd (wasi_table_delete p k t)) = (fd_lookup t)(k := None)"
  by (auto simp: wasi_table_delete_def Let_def fd_lookup_def delete_conv' split: option.splits)

lemma fd_lookup_renumber:
  "fd_lookup (snd (renumber from to t)) =
     (case fd_lookup t from of None \<Rightarrow> fd_lookup t | Some e \<Rightarrow> (fd_lookup t)(from := None, to \<mapsto> e))"
  by (auto simp: renumber_def fd_lookup_def update_conv' delete_conv' fun_eq_iff split: option.splits)

text \<open>
  Claim C21. The table implements a finite map from descriptors. Seen as a map, inserting at a
  descriptor updates it, deleting removes exactly it, renumbering moves an existing entry and changes
  nothing otherwise, and \<^verbatim>\<open>push\<close> on a table with fewer than \<open>2 ^ 32 - 1\<close> entries ends and adds the entry
  at a descriptor that was not in use, also after the counter has wrapped around. All keep the
  keys distinct.
\<close>

theorem fd_table_refines_map:
  assumes "wasi_table_invar t"
  shows "fd_lookup (insert_at k a t) = (fd_lookup t)(k \<mapsto> arc_deref a) \<and> wasi_table_invar (insert_at k a t) \<and>
    fd_lookup (snd (wasi_table_delete p k t)) = (fd_lookup t)(k := None) \<and>
    wasi_table_invar (snd (wasi_table_delete p k t)) \<and>
    fd_lookup (snd (renumber from to t)) =
      (case fd_lookup t from of None \<Rightarrow> fd_lookup t | Some e \<Rightarrow> (fd_lookup t)(from := None, to \<mapsto> e)) \<and>
    wasi_table_invar (snd (renumber from to t)) \<and>
    (length (fd_map t) < u32_MAX \<longrightarrow>
      (\<exists>key t'. push a t = (Ok key, t') \<and> fd_lookup t key = None \<and>
         fd_lookup t' = (fd_lookup t)(key \<mapsto> arc_deref a) \<and> wasi_table_invar t'))"
proof (intro conjI impI)
  show "fd_lookup (insert_at k a t) = (fd_lookup t)(k \<mapsto> arc_deref a)" by (rule fd_lookup_insert_at)
  show "wasi_table_invar (insert_at k a t)" by (rule invar_insert_at [OF assms])
  show "fd_lookup (snd (wasi_table_delete p k t)) = (fd_lookup t)(k := None)" by (rule fd_lookup_delete)
  show "wasi_table_invar (snd (wasi_table_delete p k t))"
    by (rule invar_wasi_table_delete [OF assms prod.collapse [symmetric]])
  show "fd_lookup (snd (renumber from to t)) =
      (case fd_lookup t from of None \<Rightarrow> fd_lookup t | Some e \<Rightarrow> (fd_lookup t)(from := None, to \<mapsto> e))"
    by (rule fd_lookup_renumber)
  show "wasi_table_invar (snd (renumber from to t))"
    by (rule invar_renumber [OF assms prod.collapse [symmetric]])
  assume "length (fd_map t) < u32_MAX"
  then have "0 < wasi_table_room t" by (simp add: wasi_table_room_def)
  from push_room [OF this, of a] obtain key t' where "push a t = (Ok key, t')" by blast
  with push_Ok [OF this] invar_push [OF assms this] show
    "\<exists>key t'. push a t = (Ok key, t') \<and> fd_lookup t key = None \<and>
         fd_lookup t' = (fd_lookup t)(key \<mapsto> arc_deref a) \<and> wasi_table_invar t'" by blast
qed

definition demo_table :: "nat wasi_table" where
  "demo_table = \<lparr>fd_map = [(0xFFFFFFFF, Arc False 7), (0, Arc False 8)], next_fd = 0xFFFFFFFF\<rparr>"

theorem fd_table_refines_map_witness:
  "(\<exists>key t'. push (Arc False 9) demo_table = (Ok key, t') \<and> fd_lookup t' = (fd_lookup demo_table)(key \<mapsto> 9)) \<and>
   fst (push (Arc False 9) demo_table) = Ok 1"
proof -
  have "wasi_table_invar demo_table" "length (fd_map demo_table) < u32_MAX"
    by (simp_all add: wasi_table_invar_def demo_table_def u32_MAX_def)
  then have "\<exists>key t'. push (Arc False 9) demo_table = (Ok key, t') \<and> fd_lookup t' = (fd_lookup demo_table)(key \<mapsto> 9)"
    using fd_table_refines_map [of demo_table 0 "Arc False 9" "\<lambda>_. True" 0 0] by auto
  moreover have "fst (push (Arc False 9) demo_table) = Ok 1"
    by (simp add: push_def demo_table_def u32_MAX_def contains_key_def insert_at_def Let_def)
  ultimately show ?thesis by blast
qed

text \<open>
  Descriptors are distinct: opening any number of files and directories within the room of
  the table gives pairwise different descriptors that were free, each of which finds its entry, and
  leaves every other descriptor alone.
\<close>

theorem fds_distinct:
  assumes "wasi_table_invar t" and "length vs \<le> wasi_table_room t"
  shows "\<exists>ks t'. fds.insert_all vs t = Some (ks, t') \<and> length ks = length vs \<and> distinct ks \<and>
     (\<forall>k \<in> set ks. fd_lookup t k = None) \<and> (\<forall>i < length vs. fd_lookup t' (ks ! i) = Some (vs ! i)) \<and>
     (\<forall>k. k \<notin> set ks \<longrightarrow> fd_lookup t' k = fd_lookup t k) \<and> wasi_table_invar t'"
  by (rule fds.insert_all_distinct [OF assms])

theorem fds_distinct_witness:
  "\<exists>ks t'. fds.insert_all [1, 2, 3 :: nat] wasi_table_new = Some (ks, t') \<and> distinct ks \<and> length ks = 3"
proof -
  have "wasi_table_invar (wasi_table_new :: nat wasi_table)" "length [1, 2, 3 :: nat] \<le> wasi_table_room (wasi_table_new :: nat wasi_table)"
    by (simp_all add: wasi_table_invar_def wasi_table_room_def wasi_table_new_def u32_MAX_def)
  from fds_distinct [OF this] show ?thesis by auto
qed

end
