(* ===== verification/WASI_Ctx.thy ===== *)
theory WASI_Ctx
  imports WASI_Table
begin

text \<open>
  The WASI context: argument and environment strings (\<^verbatim>\<open>string_array.rs\<close>), the traits of files,
  directories, the scheduler, clocks and randomness (\<^verbatim>\<open>file.rs\<close>, \<^verbatim>\<open>dir.rs\<close>, \<^verbatim>\<open>sched.rs\<close>, \<^verbatim>\<open>clocks.rs\<close>) with
  their default methods, pipes (\<^verbatim>\<open>pipe.rs\<close>), the context (\<^verbatim>\<open>ctx.rs\<close>) and its builder (\<^verbatim>\<open>sync/mod.rs\<close>).

  A trait object is a value \<open>'f\<close> or \<open>'d\<close> whose methods are in a record and act on the state \<open>'w\<close> of the
  world outside (the file system, other processes). A method that fills buffers returns them. A Rust
  string is the list of its UTF-8 bytes. Asynchronous calls are awaited at once by the host, so a
  call is a function of the state.
\<close>

section \<open>Calls that change a state\<close>

type_synonym ('s, 'a) act = "'s \<Rightarrow> ('a, wasi_error) outcome \<times> 's"

definition ret :: "'a \<Rightarrow> ('s, 'a) act" where
  "ret x s = (Ok x, s)"

definition throw :: "wasi_error \<Rightarrow> ('s, 'a) act" where
  "throw e s = (Err e, s)"

definition lift :: "('a, wasi_error) outcome \<Rightarrow> ('s, 'a) act" where
  "lift r s = (r, s)"

definition lift_guest :: "('a, guest_error) outcome \<Rightarrow> ('s, 'a) act" where
  "lift_guest r = lift (map_err error_from_guest r)"

definition gets :: "('s \<Rightarrow> 'a) \<Rightarrow> ('s, 'a) act" where
  "gets f s = (Ok (f s), s)"

definition bind :: "('s, 'a) act \<Rightarrow> ('a \<Rightarrow> ('s, 'b) act) \<Rightarrow> ('s, 'b) act" where
  "bind m f s =
     (case m s of
        (Ok x, s') \<Rightarrow> f x s'
      | (Err e, s') \<Rightarrow> (Err e, s')
      | (Panic, s') \<Rightarrow> (Panic, s'))"

section \<open>Arrays of strings\<close>

record string_array =
  elems :: "u8 list list"

datatype string_array_error = NumberElements | ElementSize | CumulativeSize

definition string_array_new :: string_array where
  "string_array_new = \<lparr>elems = []\<rparr>"

definition number_elements :: "string_array \<Rightarrow> u32" where
  "number_elements sa = of_nat (length (elems sa))"

definition cumulative_size :: "string_array \<Rightarrow> u32" where
  "cumulative_size sa = of_nat (sum_list (map (\<lambda>e. length e + 1) (elems sa)))"

definition string_array_push ::
  "u8 list \<Rightarrow> string_array \<Rightarrow> (unit, string_array_error) outcome \<times> string_array" where
  "string_array_push elem sa =
     (if length (elems sa) + 1 > u32_MAX then (Err NumberElements, sa)
      else if length elem + 1 > u32_MAX then (Err ElementSize, sa)
      else if unat (cumulative_size sa) + length elem + 1 > u32_MAX then (Err CumulativeSize, sa)
      else (Ok (), sa\<lparr>elems := elems sa @ [elem]\<rparr>))"

text \<open>One round of the loop of \<^verbatim>\<open>write_to_guest\<close>.\<close>

definition write_elem ::
  "slice_ptr \<Rightarrow> u32 \<Rightarrow> u8 list \<Rightarrow> (sized_ptr, guest_error) outcome \<Rightarrow> (guest_memory, unit) act" where
  "write_elem buffer cursor bytes head =
     (let n = of_nat (length bytes)
      in bind (lift_guest (get_range 1 buffer cursor (cursor + n))) (\<lambda>r.
         case r of
           None \<Rightarrow> throw invalid_argument
         | Some elem_buffer \<Rightarrow>
             bind (\<lambda>m. let (r, m') = copy_from_slice u8_prim m bytes elem_buffer
                       in (map_err error_from_guest r, m')) (\<lambda>_.
             bind (lift_guest (ptr_get 1 buffer (cursor + n))) (\<lambda>r.
             case r of
               None \<Rightarrow> throw invalid_argument
             | Some p \<Rightarrow>
                 bind (\<lambda>m. let (r, m') = mem_write (integer_primitive u8_prim) m p 0
                           in (map_err error_from_guest r, m')) (\<lambda>_.
                 bind (lift_guest head) (\<lambda>head.
                 bind (lift_guest (ptr_get 1 buffer cursor)) (\<lambda>r.
                 case r of
                   None \<Rightarrow> lift Panic
                 | Some q \<Rightarrow> (\<lambda>m. let (r, m') = mem_write ptr_guest_type m head q
                                  in (map_err error_from_guest r, m'))))))))) "

fun write_elems ::
  "slice_ptr \<Rightarrow> u32 \<Rightarrow> (u8 list \<times> (sized_ptr, guest_error) outcome) list \<Rightarrow> (guest_memory, unit) act" where
  "write_elems buffer cursor [] = ret ()"
| "write_elems buffer cursor ((bytes, head) # rest) =
     bind (write_elem buffer cursor bytes head) (\<lambda>_.
       write_elems buffer (cursor + (of_nat (length bytes) + 1)) rest)"

definition write_to_guest :: "string_array \<Rightarrow> sized_ptr \<Rightarrow> sized_ptr \<Rightarrow> (guest_memory, unit) act" where
  "write_to_guest sa buffer element_heads =
     write_elems (as_array buffer (cumulative_size sa)) 0
       (zip (elems sa) (ptr_iter 4 (as_array element_heads (number_elements sa))))"

section \<open>Files and directories\<close>

datatype seek_from = SeekStart u64 | SeekEnd "64 word" | SeekCurrent "64 word"

record ('w, 'f) file_methods =
  get_filetype :: "'f \<Rightarrow> ('w, file_type) act"
  sock_accept :: "'f \<Rightarrow> u32 \<Rightarrow> ('w, 'f) act"
  sock_recv :: "'f \<Rightarrow> u8 list list \<Rightarrow> u32 \<Rightarrow> 'w \<Rightarrow> (u64 \<times> u32, wasi_error) outcome \<times> u8 list list \<times> 'w"
  sock_send :: "'f \<Rightarrow> u8 list list \<Rightarrow> u32 \<Rightarrow> ('w, u64) act"
  sock_shutdown :: "'f \<Rightarrow> u32 \<Rightarrow> ('w, unit) act"
  datasync :: "'f \<Rightarrow> ('w, unit) act"
  sync :: "'f \<Rightarrow> ('w, unit) act"
  get_fdflags :: "'f \<Rightarrow> ('w, u32) act"
  set_fdflags :: "'f \<Rightarrow> u32 \<Rightarrow> 'w \<Rightarrow> (unit, wasi_error) outcome \<times> 'f \<times> 'w"
  get_filestat :: "'f \<Rightarrow> ('w, filestat) act"
  set_filestat_size :: "'f \<Rightarrow> u64 \<Rightarrow> ('w, unit) act"
  advise :: "'f \<Rightarrow> u64 \<Rightarrow> u64 \<Rightarrow> advice \<Rightarrow> ('w, unit) act"
  set_times :: "'f \<Rightarrow> system_time_spec option \<Rightarrow> system_time_spec option \<Rightarrow> ('w, unit) act"
  read_vectored :: "'f \<Rightarrow> u8 list list \<Rightarrow> 'w \<Rightarrow> (u64, wasi_error) outcome \<times> u8 list list \<times> 'w"
  read_vectored_at :: "'f \<Rightarrow> u8 list list \<Rightarrow> u64 \<Rightarrow> 'w \<Rightarrow> (u64, wasi_error) outcome \<times> u8 list list \<times> 'w"
  write_vectored :: "'f \<Rightarrow> u8 list list \<Rightarrow> ('w, u64) act"
  write_vectored_at :: "'f \<Rightarrow> u8 list list \<Rightarrow> u64 \<Rightarrow> ('w, u64) act"
  seek :: "'f \<Rightarrow> seek_from \<Rightarrow> ('w, u64) act"
  peek :: "'f \<Rightarrow> u8 list \<Rightarrow> 'w \<Rightarrow> (u64, wasi_error) outcome \<times> u8 list \<times> 'w"
  num_ready_bytes :: "'f \<Rightarrow> ('w, u64) act"
  readable :: "'f \<Rightarrow> ('w, unit) act"
  writable :: "'f \<Rightarrow> ('w, unit) act"

text \<open>The trait's default methods: everything but the file type.\<close>

definition wasi_file_default :: "('f \<Rightarrow> ('w, file_type) act) \<Rightarrow> ('w, 'f) file_methods" where
  "wasi_file_default ft =
     \<lparr>get_filetype = ft,
      sock_accept = (\<lambda>f _. throw badf),
      sock_recv = (\<lambda>f bufs _ w. (Err badf, bufs, w)),
      sock_send = (\<lambda>f _ _. throw badf),
      sock_shutdown = (\<lambda>f _. throw badf),
      datasync = (\<lambda>f. ret ()),
      sync = (\<lambda>f. ret ()),
      get_fdflags = (\<lambda>f. ret 0),
      set_fdflags = (\<lambda>f _ w. (Err badf, f, w)),
      get_filestat = (\<lambda>f. bind (ft f) (\<lambda>t. ret \<lparr>device_id = 0, inode = 0, filetype = t, nlink = 0,
        file_size = 0, atim = None, mtim = None, ctim = None\<rparr>)),
      set_filestat_size = (\<lambda>f _. throw badf),
      advise = (\<lambda>f _ _ _. throw badf),
      set_times = (\<lambda>f _ _. throw badf),
      read_vectored = (\<lambda>f bufs w. (Err badf, bufs, w)),
      read_vectored_at = (\<lambda>f bufs _ w. (Err badf, bufs, w)),
      write_vectored = (\<lambda>f _. throw badf),
      write_vectored_at = (\<lambda>f _ _. throw badf),
      seek = (\<lambda>f _. throw badf),
      peek = (\<lambda>f buf w. (Err badf, buf, w)),
      num_ready_bytes = (\<lambda>f. ret 0),
      readable = (\<lambda>f. throw badf),
      writable = (\<lambda>f. throw badf)\<rparr>"

definition file_entry_get_fdstat :: "('w, 'f) file_methods \<Rightarrow> 'f file_entry \<Rightarrow> ('w, fd_stat) act" where
  "file_entry_get_fdstat F e =
     bind (get_filetype F (entry_file e)) (\<lambda>ft.
     bind (get_fdflags F (entry_file e)) (\<lambda>fl.
       ret \<lparr>fds_filetype = ft, fds_flags = fl, fds_access_mode = access_mode e\<rparr>))"

datatype ('f, 'd) open_result = OpenFile 'f | OpenDir 'd

record readdir_entity =
  rd_next :: u64
  rd_inode :: u64
  rd_name :: "u8 list"
  rd_filetype :: file_type

record ('w, 'f, 'd) dir_methods =
  open_file :: "'d \<Rightarrow> bool \<Rightarrow> u8 list \<Rightarrow> u32 \<Rightarrow> bool \<Rightarrow> bool \<Rightarrow> u32 \<Rightarrow> ('w, ('f, 'd) open_result) act"
  create_dir :: "'d \<Rightarrow> u8 list \<Rightarrow> ('w, unit) act"
  readdir :: "'d \<Rightarrow> u64 \<Rightarrow> ('w, (readdir_entity, wasi_error) outcome list) act"
  symlink :: "'d \<Rightarrow> u8 list \<Rightarrow> u8 list \<Rightarrow> ('w, unit) act"
  remove_dir :: "'d \<Rightarrow> u8 list \<Rightarrow> ('w, unit) act"
  unlink_file :: "'d \<Rightarrow> u8 list \<Rightarrow> ('w, unit) act"
  read_link :: "'d \<Rightarrow> u8 list \<Rightarrow> ('w, u8 list) act"
  dir_get_filestat :: "'d \<Rightarrow> ('w, filestat) act"
  get_path_filestat :: "'d \<Rightarrow> u8 list \<Rightarrow> bool \<Rightarrow> ('w, filestat) act"
  rename_to :: "'d \<Rightarrow> u8 list \<Rightarrow> 'd \<Rightarrow> u8 list \<Rightarrow> ('w, unit) act"
  hard_link :: "'d \<Rightarrow> u8 list \<Rightarrow> 'd \<Rightarrow> u8 list \<Rightarrow> ('w, unit) act"
  dir_set_times :: "'d \<Rightarrow> u8 list \<Rightarrow> system_time_spec option \<Rightarrow> system_time_spec option \<Rightarrow> bool \<Rightarrow> ('w, unit) act"

definition wasi_dir_default :: "('w, 'f, 'd) dir_methods" where
  "wasi_dir_default =
     \<lparr>open_file = (\<lambda>d _ _ _ _ _ _. throw not_supported),
      create_dir = (\<lambda>d _. throw not_supported),
      readdir = (\<lambda>d _. throw not_supported),
      symlink = (\<lambda>d _ _. throw not_supported),
      remove_dir = (\<lambda>d _. throw not_supported),
      unlink_file = (\<lambda>d _. throw not_supported),
      read_link = (\<lambda>d _. throw not_supported),
      dir_get_filestat = (\<lambda>d. throw not_supported),
      get_path_filestat = (\<lambda>d _ _. throw not_supported),
      rename_to = (\<lambda>d _ _ _. throw not_supported),
      hard_link = (\<lambda>d _ _ _. throw not_supported),
      dir_set_times = (\<lambda>d _ _ _ _. throw not_supported)\<rparr>"

section \<open>Pipes\<close>

text \<open>
  \<open>read\<close> and \<open>write\<close> are the methods of the underlying \<^verbatim>\<open>Read\<close> and \<^verbatim>\<open>Write\<close>; their error is an \<^verbatim>\<open>io::Error\<close>
  and their result a \<^verbatim>\<open>usize\<close>.
\<close>

definition usize_to_u64 :: "nat \<Rightarrow> (u64, wasi_error) outcome" where
  "usize_to_u64 n = (if n < 2 ^ 64 then Ok (of_nat n) else Err error_from_int)"

definition read_pipe ::
  "(i32 \<Rightarrow> rustix_errno) \<Rightarrow> ('f \<Rightarrow> u8 list list \<Rightarrow> 'w \<Rightarrow> (nat, io_error) outcome \<times> u8 list list \<times> 'w) \<Rightarrow>
   ('w, 'f) file_methods" where
  "read_pipe rustix read =
     (wasi_file_default (\<lambda>f. ret PipeFile))
       \<lparr>read_vectored := (\<lambda>f bufs w.
          let (r, bufs', w') = read f bufs w
          in (bind_ok (map_err (error_from_io rustix) r) usize_to_u64, bufs', w'))\<rparr>"

definition FDFLAGS_APPEND :: u32 where "FDFLAGS_APPEND = 0b1"

definition write_pipe ::
  "(i32 \<Rightarrow> rustix_errno) \<Rightarrow> ('f \<Rightarrow> u8 list list \<Rightarrow> 'w \<Rightarrow> (nat, io_error) outcome \<times> 'w) \<Rightarrow>
   ('w, 'f) file_methods" where
  "write_pipe rustix write =
     (wasi_file_default (\<lambda>f. ret PipeFile))
       \<lparr>get_fdflags := (\<lambda>f. ret FDFLAGS_APPEND),
        write_vectored := (\<lambda>f bufs w.
          let (r, w') = write f bufs w
          in (bind_ok (map_err (error_from_io rustix) r) usize_to_u64, w'))\<rparr>"

section \<open>Clocks\<close>

text \<open>Instants and durations are nanoseconds; the reading of a clock is an argument.\<close>

record wasi_clocks =
  has_system :: bool
  creation_time :: "nat option"

definition clocks_new :: wasi_clocks where
  "clocks_new = \<lparr>has_system = False, creation_time = None\<rparr>"

definition with_system :: "wasi_clocks \<Rightarrow> wasi_clocks" where
  "with_system c = c\<lparr>has_system := True\<rparr>"

definition with_monotonic :: "nat \<Rightarrow> wasi_clocks \<Rightarrow> wasi_clocks" where
  "with_monotonic now c = c\<lparr>creation_time := Some now\<rparr>"

definition clocks_system :: "wasi_clocks \<Rightarrow> (unit, wasi_error) outcome" where
  "clocks_system c = ok_or badf (if has_system c then Some () else None)"

definition clocks_monotonic :: "wasi_clocks \<Rightarrow> (nat, wasi_error) outcome" where
  "clocks_monotonic c = ok_or badf (creation_time c)"

section \<open>Subscriptions\<close>

text \<open>A subscription to a file carries its status; a clock subscription is decided when asked.\<close>

datatype 'f subscription =
    SubRead 'f "(u64 \<times> u32, wasi_error) outcome option"
  | SubWrite 'f "(u64 \<times> u32, wasi_error) outcome option"
  | SubMonotonic (sub_deadline: nat) (sub_precision: nat)

datatype subscription_result =
    ResRead "(u64 \<times> u32, wasi_error) outcome"
  | ResWrite "(u64 \<times> u32, wasi_error) outcome"
  | ResMonotonic "(unit, wasi_error) outcome"

type_synonym 'f poll = "('f subscription \<times> u64) list"

definition poll_new :: "'f poll" where "poll_new = []"

definition subscribe_monotonic_clock :: "nat \<Rightarrow> nat \<Rightarrow> u64 \<Rightarrow> 'f poll \<Rightarrow> 'f poll" where
  "subscribe_monotonic_clock deadline precision ud p = p @ [(SubMonotonic deadline precision, ud)]"

definition subscribe_read :: "'f \<Rightarrow> u64 \<Rightarrow> 'f poll \<Rightarrow> 'f poll" where
  "subscribe_read f ud p = p @ [(SubRead f None, ud)]"

definition subscribe_write :: "'f \<Rightarrow> u64 \<Rightarrow> 'f poll \<Rightarrow> 'f poll" where
  "subscribe_write f ud p = p @ [(SubWrite f None, ud)]"

definition clock_result :: "nat \<Rightarrow> nat \<Rightarrow> (unit, wasi_error) outcome option" where
  "clock_result now deadline = (if deadline \<le> now then Some (Ok ()) else None)"

text \<open>\<open>now\<close> reads the monotonic clock; every clock subscription reads it once more.\<close>

fun from_subscription ::
  "(nat \<Rightarrow> 'w \<Rightarrow> nat \<times> 'w) \<Rightarrow> 'f subscription \<Rightarrow> 'w \<Rightarrow> subscription_result option \<times> 'w" where
  "from_subscription now (SubRead f st) w = (map_option ResRead st, w)"
| "from_subscription now (SubWrite f st) w = (map_option ResWrite st, w)"
| "from_subscription now (SubMonotonic deadline precision) w =
     (let (t, w') = now precision w in (map_option ResMonotonic (clock_result t deadline), w'))"

fun poll_results ::
  "(nat \<Rightarrow> 'w \<Rightarrow> nat \<times> 'w) \<Rightarrow> 'f poll \<Rightarrow> 'w \<Rightarrow> (subscription_result \<times> u64) list \<times> 'w" where
  "poll_results now [] w = ([], w)"
| "poll_results now ((sub, ud) # p) w =
     (let (r, w') = from_subscription now sub w;
          (rs, w'') = poll_results now p w'
      in (case r of None \<Rightarrow> rs | Some x \<Rightarrow> (x, ud) # rs, w''))"

definition earliest_clock_deadline :: "'f poll \<Rightarrow> (nat \<times> nat) option" where
  "earliest_clock_deadline p =
     (case List.map_filter (\<lambda>(sub, _). case sub of SubMonotonic d q \<Rightarrow> Some (d, q) | _ \<Rightarrow> None) p of
        [] \<Rightarrow> None
      | t # ts \<Rightarrow> Some (foldl (\<lambda>a b. if fst b < fst a then b else a) t ts))"

definition rw_complete :: "u64 \<Rightarrow> u32 \<Rightarrow> 'f subscription \<Rightarrow> 'f subscription" where
  "rw_complete n flags sub =
     (case sub of
        SubRead f _ \<Rightarrow> SubRead f (Some (Ok (n, flags)))
      | SubWrite f _ \<Rightarrow> SubWrite f (Some (Ok (n, flags)))
      | _ \<Rightarrow> sub)"

definition rw_error :: "wasi_error \<Rightarrow> 'f subscription \<Rightarrow> 'f subscription" where
  "rw_error e sub =
     (case sub of
        SubRead f _ \<Rightarrow> SubRead f (Some (Err e))
      | SubWrite f _ \<Rightarrow> SubWrite f (Some (Err e))
      | _ \<Rightarrow> sub)"

section \<open>The context\<close>

record ('f, 'd) wasi_ctx =
  args :: string_array
  env :: string_array
  clocks :: wasi_clocks
  table :: "('f, 'd) any_entry wasi_table"
  ctx_cloned :: bool

definition insert_file :: "u32 \<Rightarrow> 'f \<Rightarrow> u32 \<Rightarrow> ('f, 'd) wasi_ctx \<Rightarrow> ('f, 'd) wasi_ctx" where
  "insert_file fd f mode c =
     c\<lparr>table := insert_at fd (Arc False (FileEntry (file_entry_new f mode))) (table c)\<rparr>"

definition push_file ::
  "'f \<Rightarrow> u32 \<Rightarrow> ('f, 'd) wasi_ctx \<Rightarrow> (u32, wasi_error) outcome \<times> ('f, 'd) wasi_ctx" where
  "push_file f mode c =
     (let (r, t) = push (Arc False (FileEntry (file_entry_new f mode))) (table c)
      in (r, c\<lparr>table := t\<rparr>))"

definition insert_dir :: "u32 \<Rightarrow> 'd \<Rightarrow> u8 list \<Rightarrow> ('f, 'd) wasi_ctx \<Rightarrow> ('f, 'd) wasi_ctx" where
  "insert_dir fd d path c =
     c\<lparr>table := insert_at fd (Arc False (DirEntry (dir_entry_new (Some path) d))) (table c)\<rparr>"

definition push_dir ::
  "'d \<Rightarrow> u8 list \<Rightarrow> ('f, 'd) wasi_ctx \<Rightarrow> (u32, wasi_error) outcome \<times> ('f, 'd) wasi_ctx" where
  "push_dir d path c =
     (let (r, t) = push (Arc False (DirEntry (dir_entry_new (Some path) d))) (table c)
      in (r, c\<lparr>table := t\<rparr>))"

definition push_arg ::
  "u8 list \<Rightarrow> ('f, 'd) wasi_ctx \<Rightarrow> (unit, string_array_error) outcome \<times> ('f, 'd) wasi_ctx" where
  "push_arg arg c =
     (if ctx_cloned c then (Panic, c)
      else let (r, sa) = string_array_push arg (args c) in (r, c\<lparr>args := sa\<rparr>))"

definition push_env ::
  "u8 list \<Rightarrow> u8 list \<Rightarrow> ('f, 'd) wasi_ctx \<Rightarrow> (unit, string_array_error) outcome \<times> ('f, 'd) wasi_ctx" where
  "push_env var val c =
     (if ctx_cloned c then (Panic, c)
      else let (r, sa) = string_array_push (var @ [0x3D] @ val) (env c) in (r, c\<lparr>env := sa\<rparr>))"

definition set_stdin :: "'f \<Rightarrow> ('f, 'd) wasi_ctx \<Rightarrow> ('f, 'd) wasi_ctx" where
  "set_stdin f = insert_file 0 f MODE_READ"

definition set_stdout :: "'f \<Rightarrow> ('f, 'd) wasi_ctx \<Rightarrow> ('f, 'd) wasi_ctx" where
  "set_stdout f = insert_file 1 f MODE_WRITE"

definition set_stderr :: "'f \<Rightarrow> ('f, 'd) wasi_ctx \<Rightarrow> ('f, 'd) wasi_ctx" where
  "set_stderr f = insert_file 2 f MODE_WRITE"

definition push_preopened_dir ::
  "'d \<Rightarrow> u8 list \<Rightarrow> ('f, 'd) wasi_ctx \<Rightarrow> (unit, wasi_error) outcome \<times> ('f, 'd) wasi_ctx" where
  "push_preopened_dir d path c =
     (let (r, t) = push (Arc False (DirEntry (dir_entry_new (Some path) d))) (table c)
      in (map_ok (\<lambda>_. ()) r, c\<lparr>table := t\<rparr>))"

text \<open>\<open>nothing\<close> and \<open>sink\<close> are the pipes over \<^verbatim>\<open>std::io::empty()\<close> and \<^verbatim>\<open>std::io::sink()\<close>.\<close>

definition wasi_ctx_new ::
  "'f \<Rightarrow> 'f \<Rightarrow> wasi_clocks \<Rightarrow> ('f, 'd) any_entry wasi_table \<Rightarrow> ('f, 'd) wasi_ctx" where
  "wasi_ctx_new nothing sink cl t =
     set_stderr sink (set_stdout sink (set_stdin nothing
       \<lparr>args = string_array_new, env = string_array_new, clocks = cl, table = t, ctx_cloned = False\<rparr>))"

section \<open>The builder\<close>

record ('f, 'd) wasi_ctx_builder =
  b_ctx :: "('f, 'd) wasi_ctx"
  built :: bool

record 'f stdio =
  io_clocks :: wasi_clocks
  io_empty :: 'f
  io_sink :: 'f
  io_stdin :: 'f
  io_stdout :: 'f
  io_stderr :: 'f

definition builder_new :: "'f stdio \<Rightarrow> ('f, 'd) wasi_ctx_builder" where
  "builder_new std =
     \<lparr>b_ctx = wasi_ctx_new (io_empty std) (io_sink std) (io_clocks std) wasi_table_new, built = False\<rparr>"

definition builder_env ::
  "u8 list \<Rightarrow> u8 list \<Rightarrow> ('f, 'd) wasi_ctx_builder \<Rightarrow> (unit, string_array_error) outcome \<times> ('f, 'd) wasi_ctx_builder" where
  "builder_env var val b = (let (r, c) = push_env var val (b_ctx b) in (r, b\<lparr>b_ctx := c\<rparr>))"

fun builder_envs ::
  "(u8 list \<times> u8 list) list \<Rightarrow> ('f, 'd) wasi_ctx_builder \<Rightarrow> (unit, string_array_error) outcome \<times> ('f, 'd) wasi_ctx_builder" where
  "builder_envs [] b = (Ok (), b)"
| "builder_envs ((k, v) # kvs) b =
     (case push_env k v (b_ctx b) of
        (Ok _, c) \<Rightarrow> builder_envs kvs (b\<lparr>b_ctx := c\<rparr>)
      | (r, c) \<Rightarrow> (r, b\<lparr>b_ctx := c\<rparr>))"

definition builder_arg ::
  "u8 list \<Rightarrow> ('f, 'd) wasi_ctx_builder \<Rightarrow> (unit, string_array_error) outcome \<times> ('f, 'd) wasi_ctx_builder" where
  "builder_arg arg b = (let (r, c) = push_arg arg (b_ctx b) in (r, b\<lparr>b_ctx := c\<rparr>))"

fun builder_args ::
  "u8 list list \<Rightarrow> ('f, 'd) wasi_ctx_builder \<Rightarrow> (unit, string_array_error) outcome \<times> ('f, 'd) wasi_ctx_builder" where
  "builder_args [] b = (Ok (), b)"
| "builder_args (a # as) b =
     (case push_arg a (b_ctx b) of
        (Ok _, c) \<Rightarrow> builder_args as (b\<lparr>b_ctx := c\<rparr>)
      | (r, c) \<Rightarrow> (r, b\<lparr>b_ctx := c\<rparr>))"

definition inherit_stdio :: "'f stdio \<Rightarrow> ('f, 'd) wasi_ctx_builder \<Rightarrow> ('f, 'd) wasi_ctx_builder" where
  "inherit_stdio std b =
     b\<lparr>b_ctx := set_stderr (io_stderr std) (set_stdout (io_stdout std) (set_stdin (io_stdin std) (b_ctx b)))\<rparr>"

definition preopened_dir ::
  "'d \<Rightarrow> u8 list \<Rightarrow> ('f, 'd) wasi_ctx_builder \<Rightarrow> (unit, wasi_error) outcome \<times> ('f, 'd) wasi_ctx_builder" where
  "preopened_dir d guest_path b =
     (let (r, c) = push_preopened_dir d guest_path (b_ctx b) in (r, b\<lparr>b_ctx := c\<rparr>))"

definition preopened_socket :: "u32 \<Rightarrow> 'f \<Rightarrow> ('f, 'd) wasi_ctx_builder \<Rightarrow> ('f, 'd) wasi_ctx_builder" where
  "preopened_socket fd socket b =
     b\<lparr>b_ctx := insert_file fd socket (MODE_READ OR MODE_WRITE) (b_ctx b)\<rparr>"

definition build ::
  "'f stdio \<Rightarrow> ('f, 'd) wasi_ctx_builder \<Rightarrow>
   (('f, 'd) wasi_ctx, wasi_error) outcome \<times> ('f, 'd) wasi_ctx_builder" where
  "build std b =
     (if built b then (Panic, b)
      else (Ok (b_ctx b), (builder_new std)\<lparr>built := True\<rparr>))"

section \<open>Rules for calls\<close>

named_theorems act_simps \<open>unfolding of the call combinators\<close>

lemma bind_ret [act_simps]: "bind (ret x) f = f x"
  by (simp add: bind_def ret_def fun_eq_iff)

lemma bind_throw [act_simps]: "bind (throw e) f = throw e"
  by (simp add: bind_def throw_def fun_eq_iff)

lemma bind_lift [act_simps]:
  "bind (lift (Ok x)) f = f x" "bind (lift (Err e)) f = throw e" "bind (lift Panic) f = lift Panic"
  by (simp_all add: bind_def lift_def throw_def fun_eq_iff)

lemma bind_gets [act_simps]: "bind (gets g) f = (\<lambda>s. f (g s) s)"
  by (simp add: bind_def gets_def fun_eq_iff)

lemma lift_guest_simps [act_simps]:
  "lift_guest (Ok x) = lift (Ok x)" "lift_guest (Err e) = lift (Err (error_from_guest e))"
  "lift_guest Panic = lift Panic"
  by (simp_all add: lift_guest_def)

lemma bind_apply: "m s = (Ok x, s') \<Longrightarrow> bind m f s = f x s'"
  by (simp add: bind_def)

lemma bind_apply_Err: "m s = (Err e, s') \<Longrightarrow> bind m f s = (Err e, s')"
  by (simp add: bind_def)

lemma bind_apply_Panic: "m s = (Panic, s') \<Longrightarrow> bind m f s = (Panic, s')"
  by (simp add: bind_def)

lemma bind_OkE:
  assumes "bind m f s = (Ok y, s'')"
  obtains x s' where "m s = (Ok x, s')" and "f x s' = (Ok y, s'')"
  using assms by (auto simp: bind_def split: prod.splits outcome.splits)

section \<open>Writing strings to the guest\<close>

lemma overwrite_append:
  "i + length ys + length zs \<le> length xs \<Longrightarrow>
   overwrite (overwrite xs i ys) (i + length ys) zs = overwrite xs i (ys @ zs)"
  by (intro nth_equalityI) (auto simp: overwrite_nth nth_append)

lemma overwrite_commute:
  "i + length ys \<le> length xs \<Longrightarrow> j + length zs \<le> length xs \<Longrightarrow>
   i + length ys \<le> j \<or> j + length zs \<le> i \<Longrightarrow>
   overwrite (overwrite xs i ys) j zs = overwrite (overwrite xs j zs) i ys"
  by (intro nth_equalityI) (auto simp: overwrite_nth)

lemma overwrite_Nil [simp]: "overwrite xs i [] = xs"
  by (simp add: overwrite_def)

lemma with_bytes_twice [simp]: "with_bytes (with_bytes m xs) ys = with_bytes m ys"
  by (cases m) simp_all

lemma with_bytes_same [simp]: "with_bytes m (mem_bytes m) = m"
  by (cases m) simp_all

lemma u8_byte: "to_le_bytes u8_prim v = [v]"
  using unat_u8_lt [of v] by (simp add: u8_prim_def word_prim_def)

lemma u8_bytes: "concat (map (to_le_bytes u8_prim) xs) = xs"
  by (induction xs) (simp_all add: u8_byte)

lemma copy_bytes:
  assumes "unat n = length src" and "unat off + length src \<le> length (mem_bytes m)"
  shows "copy_from_slice u8_prim m src (GuestPtr (off, n)) =
    (Ok (), with_bytes m (overwrite (mem_bytes m) (unat off) src))"
proof (cases "src = []")
  case True
  with assms(1) show ?thesis by (simp add: copy_from_slice_def)
next
  case False
  have "u8.aligned_at m off" by (simp add: u8.aligned_at_def)
  with False assms unat_u32_lt [of n] show ?thesis
    by (subst u8.copy_from_slice_Ok_iff) (simp_all add: in_bounds_def u8_bytes)
qed

lemma write_byte:
  assumes "unat (offset p) < length (mem_bytes m)"
  shows "mem_write (integer_primitive u8_prim) m p v =
    (Ok (), with_bytes m (overwrite (mem_bytes m) (unat (offset p)) [v]))"
  using assms by (simp add: mem_write_def integer_primitive_def u8.prim_write_Ok_iff u8.aligned_at_def u8_byte)

lemma write_ptr:
  assumes "unat (offset p) + 4 \<le> length (mem_bytes m)" and "4 dvd host_addr m + unat (offset p)"
  shows "mem_write ptr_guest_type m p q =
    (Ok (), with_bytes m (overwrite (mem_bytes m) (unat (offset p)) (le_encode 4 (unat (offset q)))))"
proof -
  have "to_le_bytes u32_prim v = le_encode 4 (unat v)" for v by (simp add: u32_prim_def word_prim_def)
  with assms show ?thesis
    by (simp add: mem_write_def ptr_guest_type_def u32.prim_write_Ok_iff u32.aligned_at_def)
qed

text \<open>One string: its bytes and a terminating zero at the cursor, its address at the head.\<close>

lemma write_elem_Ok:
  assumes buf: "unat (offset_base buffer) + unat (ptr_len buffer) \<le> length (mem_bytes m)"
    and mem: "length (mem_bytes m) \<le> 2 ^ 32"
    and fits: "unat cursor + length bytes < unat (ptr_len buffer)"
    and head: "unat (offset h) + 4 \<le> length (mem_bytes m)" "4 dvd host_addr m + unat (offset h)"
  shows "write_elem buffer cursor bytes (Ok h) m =
    (Ok (), with_bytes m (overwrite (overwrite (mem_bytes m) (unat (offset_base buffer) + unat cursor) (bytes @ [0]))
       (unat (offset h)) (le_encode 4 (unat (offset_base buffer) + unat cursor))))"
proof -
  let ?b = "unat (offset_base buffer)" and ?n = "of_nat (length bytes) :: u32"
  have small: "length bytes < 2 ^ 32" using fits unat_u32_lt [of "ptr_len buffer"] by simp
  then have n: "unat ?n = length bytes" by (simp add: unat_of_nat)
  have cn: "unat (cursor + ?n) = unat cursor + length bytes"
    using fits unat_u32_lt [of "ptr_len buffer"] n by (simp add: unat_word_ariths)
  have bc: "unat (offset_base buffer + cursor) = ?b + unat cursor"
    using buf mem fits by (simp add: unat_word_ariths)
  have bcn: "unat (offset_base buffer + (cursor + ?n)) = ?b + unat cursor + length bytes"
    using buf mem fits cn by (simp add: unat_word_ariths)
  have space: "ptr_in_space 1 buffer" using buf mem by (simp add: ptr_in_space_def)
  have lt: "cursor < ptr_len buffer" "cursor + ?n < ptr_len buffer" "cursor \<le> cursor + ?n"
    using fits cn by (simp_all add: word_less_nat_alt word_le_nat_alt)
  have range: "get_range 1 buffer cursor (cursor + ?n) = Ok (Some (GuestPtr (offset_base buffer + cursor, ?n)))"
    using get_range_in_space [OF space lt(3)] lt by (simp add: less_imp_le)
  have get: "ptr_get 1 buffer (cursor + ?n) = Ok (Some (GuestPtr (offset_base buffer + (cursor + ?n))))"
    "ptr_get 1 buffer cursor = Ok (Some (GuestPtr (offset_base buffer + cursor)))"
    using ptr_get_in_space [OF space] lt by simp_all
  let ?m1 = "with_bytes m (overwrite (mem_bytes m) (?b + unat cursor) bytes)"
  have copy: "copy_from_slice u8_prim m bytes (GuestPtr (offset_base buffer + cursor, ?n)) = (Ok (), ?m1)"
    using copy_bytes [of ?n bytes "offset_base buffer + cursor" m] n bc buf fits by simp
  let ?m2 = "with_bytes m (overwrite (mem_bytes m) (?b + unat cursor) (bytes @ [0]))"
  have zero: "mem_write (integer_primitive u8_prim) ?m1 (GuestPtr (offset_base buffer + (cursor + ?n))) 0 = (Ok (), ?m2)"
    using write_byte [of "GuestPtr (offset_base buffer + (cursor + ?n))" ?m1 0] bcn buf fits
    by (simp add: overwrite_append)
  have ptr: "mem_write ptr_guest_type ?m2 h (GuestPtr (offset_base buffer + cursor)) =
    (Ok (), with_bytes m (overwrite (overwrite (mem_bytes m) (?b + unat cursor) (bytes @ [0]))
       (unat (offset h)) (le_encode 4 (?b + unat cursor))))"
    using write_ptr [of h ?m2 "GuestPtr (offset_base buffer + cursor)"] head buf fits bc by simp
  show ?thesis
    by (simp add: write_elem_def Let_def range get act_simps bind_def copy zero ptr)
qed


definition args_block :: "u8 list list \<Rightarrow> u8 list" where
  "args_block es = concat (map (\<lambda>e. e @ [0]) es)"

fun args_ptrs :: "nat \<Rightarrow> u8 list list \<Rightarrow> u8 list" where
  "args_ptrs b [] = []"
| "args_ptrs b (e # es) = le_encode 4 b @ args_ptrs (b + length e + 1) es"

lemma length_args_ptrs [simp]: "length (args_ptrs b es) = 4 * length es"
  by (induction es arbitrary: b) simp_all

lemma args_block_Cons: "args_block (e # es) = (e @ [0]) @ args_block es"
  by (simp add: args_block_def)

lemma write_elems_Ok:
  assumes "unat (offset_base buffer) + unat (ptr_len buffer) \<le> length (mem_bytes m)"
    and "length (mem_bytes m) \<le> 2 ^ 32"
    and "unat cursor + length (args_block es) \<le> unat (ptr_len buffer)"
    and "length hs = length es" and "\<forall>i < length hs. \<exists>p. hs ! i = Ok p \<and> unat (offset p) = h + 4 * i"
    and "h + 4 * length es \<le> length (mem_bytes m)" and "4 dvd host_addr m + h"
    and "h + 4 * length es \<le> unat (offset_base buffer) + unat cursor \<or>
         unat (offset_base buffer) + unat cursor + length (args_block es) \<le> h"
  shows "write_elems buffer cursor (zip es hs) m =
    (Ok (), with_bytes m (overwrite (overwrite (mem_bytes m) (unat (offset_base buffer) + unat cursor) (args_block es))
       h (args_ptrs (unat (offset_base buffer) + unat cursor) es)))"
  using assms
proof (induction es arbitrary: cursor hs h m)
  case Nil
  then show ?case by (simp add: ret_def args_block_def)
next
  case (Cons e es)
  let ?B = "unat (offset_base buffer)" and ?L = "unat (ptr_len buffer)"
  let ?c' = "cursor + (of_nat (length e) + 1)" and ?a = "?B + unat cursor"
  obtain hd0 hs' where hs: "hs = hd0 # hs'" using Cons.prems(4) by (cases hs) auto
  from Cons.prems(5) hs obtain p0 where p0: "hd0 = Ok p0" "unat (offset p0) = h" by force
  have len: "unat cursor + (length e + 1) + length (args_block es) \<le> ?L"
    using Cons.prems(3) by (simp add: args_block_Cons)
  then have c': "unat ?c' = unat cursor + length e + 1"
    using unat_u32_lt [of "ptr_len buffer"] by (simp add: unat_word_ariths unat_of_nat)
  let ?X = "mem_bytes m" and ?e = "e @ [0]" and ?p = "le_encode 4 ?a"
  let ?m1 = "with_bytes m (overwrite (overwrite ?X ?a ?e) h ?p)"
  have first: "write_elem buffer cursor e hd0 m = (Ok (), ?m1)"
    using write_elem_Ok [of buffer m cursor e p0] Cons.prems len p0 by simp
  have fit1: "?a + length ?e \<le> length ?X" "h + 4 \<le> length ?X" using Cons.prems len by simp_all
  have rest: "write_elems buffer ?c' (zip es hs') ?m1 =
    (Ok (), with_bytes ?m1 (overwrite (overwrite (mem_bytes ?m1) (?B + unat ?c') (args_block es))
       (h + 4) (args_ptrs (?B + unat ?c') es)))"
  proof (rule Cons.IH)
    have "\<exists>p. hs' ! i = Ok p \<and> unat (offset p) = h + 4 + 4 * i" if "i < length hs'" for i
      using Cons.prems(5) [rule_format, of "Suc i"] that hs by (simp add: add.assoc)
    then show "\<forall>i < length hs'. \<exists>p. hs' ! i = Ok p \<and> unat (offset p) = h + 4 + 4 * i" by blast
    show "4 dvd host_addr ?m1 + (h + 4)" using Cons.prems(7) by (metis add.assoc dvd_add dvd_refl with_bytes_simps(2))
    show "h + 4 + 4 * length es \<le> ?B + unat ?c' \<or> ?B + unat ?c' + length (args_block es) \<le> h + 4"
      using Cons.prems(8) c' by (auto simp: args_block_Cons)
  qed (use Cons.prems len c' hs fit1 in \<open>simp_all add: args_block_Cons\<close>)
  let ?Y = "overwrite ?X ?a ?e"
  have adv: "?B + unat ?c' = ?a + length ?e" using c' by simp
  have "overwrite (overwrite ?Y h ?p) (?a + length ?e) (args_block es) =
      overwrite (overwrite ?Y (?a + length ?e) (args_block es)) h ?p"
    using Cons.prems(1,8) len fit1 by (intro overwrite_commute) (auto simp: args_block_Cons)
  then have "overwrite (overwrite (mem_bytes ?m1) (?B + unat ?c') (args_block es)) (h + 4) (args_ptrs (?B + unat ?c') es) =
      overwrite (overwrite (overwrite ?Y (?a + length ?e) (args_block es)) h ?p)
        (h + length ?p) (args_ptrs (?B + unat ?c') es)"
    unfolding adv by simp
  also have "overwrite ?Y (?a + length ?e) (args_block es) = overwrite ?X ?a (args_block (e # es))"
    unfolding args_block_Cons by (rule overwrite_append) (use Cons.prems(1) len in simp)
  also have "overwrite (overwrite (overwrite ?X ?a (args_block (e # es))) h ?p) (h + length ?p) (args_ptrs (?B + unat ?c') es) =
      overwrite (overwrite ?X ?a (args_block (e # es))) h (args_ptrs ?a (e # es))"
    using Cons.prems len c' by (subst overwrite_append) (simp_all add: args_block_Cons add.assoc)
  finally show ?case using first rest by (simp add: hs bind_def)
qed


definition string_array_ok :: "string_array \<Rightarrow> bool" where
  "string_array_ok sa \<longleftrightarrow> length (elems sa) \<le> u32_MAX \<and> length (args_block (elems sa)) \<le> u32_MAX"

lemma length_args_block: "length (args_block es) = sum_list (map (\<lambda>e. length e + 1) es)"
  by (induction es) (simp_all add: args_block_def)

lemma string_array_sizes:
  assumes "string_array_ok sa"
  shows "unat (number_elements sa) = length (elems sa)" "unat (cumulative_size sa) = length (args_block (elems sa))"
  using assms
  by (simp_all add: string_array_ok_def number_elements_def cumulative_size_def u32_MAX_def unat_of_nat
      length_args_block)

lemma string_array_ok_new: "string_array_ok string_array_new"
  by (simp add: string_array_ok_def string_array_new_def args_block_def)

lemma string_array_push_ok:
  assumes "string_array_ok sa" and "string_array_push e sa = (r, sa')"
  shows "string_array_ok sa'"
  using assms string_array_sizes [OF assms(1)]
  by (auto simp: string_array_push_def string_array_ok_def args_block_def split: if_splits)

lemma write_to_guest_Ok:
  assumes ok: "string_array_ok sa"
    and buf: "unat (offset b) + length (args_block (elems sa)) \<le> length (mem_bytes m)"
    and mem: "length (mem_bytes m) \<le> 2 ^ 32"
    and heads: "unat (offset h) + 4 * length (elems sa) \<le> length (mem_bytes m)" "4 dvd host_addr m + unat (offset h)"
    and disj: "unat (offset h) + 4 * length (elems sa) \<le> unat (offset b) \<or>
         unat (offset b) + length (args_block (elems sa)) \<le> unat (offset h)"
  shows "write_to_guest sa b h m =
    (Ok (), with_bytes m (overwrite (overwrite (mem_bytes m) (unat (offset b)) (args_block (elems sa)))
       (unat (offset h)) (args_ptrs (unat (offset b)) (elems sa))))"
proof -
  let ?hs = "ptr_iter 4 (as_array h (number_elements sa))"
  have len: "length ?hs = length (elems sa)"
    by (simp add: ptr_iter_def ptr_len_def as_array_def string_array_sizes [OF ok])
  have "\<exists>p. ?hs ! i = Ok p \<and> unat (offset p) = unat (offset h) + 4 * i" if "i < length ?hs" for i
  proof -
    have i: "i < length (elems sa)" "i < 2 ^ 32"
      using that len ok by (simp_all add: string_array_ok_def u32_MAX_def)
    have lt: "unat (offset h) + i * 4 < 2 ^ 32" using i heads(1) mem by simp
    have "?hs ! i = Ok (GuestPtr (offset h + of_nat i * 4))"
      using ptr_iter_nth [of i "as_array h (number_elements sa)" 4] i lt
      by (simp add: as_array_def ptr_len_def offset_base_def string_array_sizes [OF ok])
    moreover have "unat (offset h + of_nat i * 4) = unat (offset h) + 4 * i"
      using i lt by (simp add: unat_word_ariths unat_of_nat)
    ultimately show ?thesis by simp
  qed
  then have "\<forall>i < length ?hs. \<exists>p. ?hs ! i = Ok p \<and> unat (offset p) = unat (offset h) + 4 * i" by blast
  with write_elems_Ok [of "as_array b (cumulative_size sa)" m 0 "elems sa" ?hs "unat (offset h)"]
    assms len string_array_sizes [OF ok]
  show ?thesis by (simp add: write_to_guest_def as_array_def offset_base_def ptr_len_def)
qed

text \<open>Reading the strings back: the address of each, and its bytes there.\<close>

definition arg_offset :: "u8 list list \<Rightarrow> nat \<Rightarrow> nat" where
  "arg_offset es i = length (args_block (take i es))"

lemma args_ptrs_nth:
  "i < length es \<Longrightarrow> take 4 (drop (4 * i) (args_ptrs b es)) = le_encode 4 (b + arg_offset es i)"
proof (induction es arbitrary: b i)
  case (Cons e es)
  show ?case
  proof (cases i)
    case 0
    then show ?thesis by (simp add: arg_offset_def args_block_def)
  next
    case (Suc j)
    with Cons.IH [of j "b + length e + 1"] Cons.prems show ?thesis
      by (simp add: arg_offset_def args_block_Cons add.assoc)
  qed
qed simp

lemma args_block_nth:
  "i < length es \<Longrightarrow>
   take (length (es ! i) + 1) (drop (arg_offset es i) (args_block es)) = es ! i @ [0] \<and>
   arg_offset es i + length (es ! i) + 1 \<le> length (args_block es)"
proof (induction es arbitrary: i)
  case (Cons e es)
  show ?case
  proof (cases i)
    case 0
    then show ?thesis by (simp add: arg_offset_def args_block_Cons args_block_def)
  next
    case (Suc j)
    with Cons.IH [of j] Cons.prems show ?thesis
      by (simp add: arg_offset_def args_block_Cons)
  qed
qed simp

lemma take_drop_overwrite:
  assumes "i + length ys \<le> length xs" and "k + n \<le> length ys"
  shows "take n (drop (i + k) (overwrite xs i ys)) = take n (drop k ys)"
  using assms by (intro nth_equalityI) (auto simp: overwrite_nth)

lemma u32_from_bytes: "from_le_bytes u32_prim bs = of_nat (le_decode bs)"
  by (simp add: u32_prim_def word_prim_def)

section \<open>Properties\<close>

text \<open>
  Claim C22. Arguments and environment. Given room for both areas, the areas apart and the pointer
  area aligned, writing the strings succeeds; then every pointer leads to its string followed
  by a zero byte, and no byte outside the two areas has changed.
\<close>

theorem write_to_guest_strings:
  assumes ok: "string_array_ok sa"
    and buf: "unat (offset b) + unat (cumulative_size sa) \<le> length (mem_bytes m)"
    and mem: "length (mem_bytes m) \<le> 2 ^ 32"
    and heads: "unat (offset h) + 4 * unat (number_elements sa) \<le> length (mem_bytes m)"
      "4 dvd host_addr m + unat (offset h)"
    and disj: "unat (offset h) + 4 * unat (number_elements sa) \<le> unat (offset b) \<or>
         unat (offset b) + unat (cumulative_size sa) \<le> unat (offset h)"
  shows "\<exists>m'. write_to_guest sa b h m = (Ok (), m') \<and>
    (\<forall>i < length (elems sa). \<exists>a. prim_read u32_prim m' (GuestPtr (offset h + of_nat i * 4)) = Ok a \<and>
       take (length (elems sa ! i) + 1) (drop (unat a) (mem_bytes m')) = elems sa ! i @ [0]) \<and>
    (\<forall>k < length (mem_bytes m).
       \<not> (unat (offset b) \<le> k \<and> k < unat (offset b) + unat (cumulative_size sa)) \<and>
       \<not> (unat (offset h) \<le> k \<and> k < unat (offset h) + 4 * unat (number_elements sa)) \<longrightarrow>
       mem_bytes m' ! k = mem_bytes m ! k)"
proof -
  let ?es = "elems sa" and ?b = "unat (offset b)" and ?h = "unat (offset h)"
  note sz = string_array_sizes [OF ok]
  let ?X = "overwrite (mem_bytes m) ?b (args_block ?es)"
  let ?Z = "overwrite ?X ?h (args_ptrs ?b ?es)" and ?m = "with_bytes m (overwrite (overwrite (mem_bytes m) ?b (args_block ?es)) ?h (args_ptrs ?b ?es))"
  have run: "write_to_guest sa b h m = (Ok (), ?m)"
    using assms unfolding sz by (intro write_to_guest_Ok)
  have lens: "length ?X = length (mem_bytes m)" "length ?Z = length (mem_bytes m)"
    using buf heads unfolding sz by simp_all
  have "\<exists>a. prim_read u32_prim ?m (GuestPtr (offset h + of_nat i * 4)) = Ok a \<and>
       take (length (?es ! i) + 1) (drop (unat a) (mem_bytes ?m)) = ?es ! i @ [0]" if i: "i < length ?es" for i
  proof (intro exI conjI)
    let ?a = "?b + arg_offset ?es i"
    from args_block_nth [OF i] have blk: "take (length (?es ! i) + 1) (drop (arg_offset ?es i) (args_block ?es)) = ?es ! i @ [0]"
      and fit: "arg_offset ?es i + (length (?es ! i) + 1) \<le> length (args_block ?es)" by simp_all
    have a: "?a < 2 ^ 32" using fit buf mem unfolding sz by simp
    then have ua: "unat (of_nat ?a :: u32) = ?a" by (simp only: unat_of_nat) simp
    have off: "unat (offset h + of_nat i * 4) = ?h + 4 * i"
      using i heads(1) mem ok unfolding sz
      by (simp add: unat_word_ariths unat_of_nat string_array_ok_def u32_MAX_def)
    have "take 4 (drop (?h + 4 * i) ?Z) = le_encode 4 ?a"
      using take_drop_overwrite [of ?h "args_ptrs ?b ?es" ?X "4 * i" 4] args_ptrs_nth [OF i] heads(1) lens i
      unfolding sz by simp
    moreover have "le_decode (le_encode 4 ?a) = ?a" using a by (simp add: le_decode_encode)
    ultimately show "prim_read u32_prim ?m (GuestPtr (offset h + of_nat i * 4)) = Ok (of_nat ?a)"
      using heads i lens unfolding sz
      by (simp add: u32.prim_read_Ok_iff u32.aligned_at_def off u32_from_bytes dvd_add flip: add.assoc)
    have "take (length (?es ! i) + 1) (drop ?a ?Z) = take (length (?es ! i) + 1) (drop ?a ?X)"
      using heads disj fit lens unfolding sz by (intro overwrite_other) auto
    also have "\<dots> = ?es ! i @ [0]"
      using take_drop_overwrite [of ?b "args_block ?es" "mem_bytes m" "arg_offset ?es i"] buf fit blk unfolding sz by simp
    finally show "take (length (?es ! i) + 1) (drop (unat (of_nat ?a :: u32)) (mem_bytes ?m)) = ?es ! i @ [0]"
      unfolding ua by simp
  qed
  moreover have "\<forall>k < length (mem_bytes m). \<not> (?b \<le> k \<and> k < ?b + unat (cumulative_size sa)) \<and>
       \<not> (?h \<le> k \<and> k < ?h + 4 * unat (number_elements sa)) \<longrightarrow> mem_bytes ?m ! k = mem_bytes m ! k"
    using buf heads lens unfolding sz by (auto simp: overwrite_nth)
  ultimately show ?thesis using run by blast
qed

definition demo_args :: string_array where
  "demo_args = \<lparr>elems = [[0x61], [0x62, 0x63]]\<rparr>"

theorem write_to_guest_strings_witness:
  "\<exists>m'. write_to_guest demo_args (GuestPtr 16) (GuestPtr 4) (Unshared 0 (replicate 32 7)) = (Ok (), m') \<and>
     (\<exists>a. prim_read u32_prim m' (GuestPtr 8) = Ok a \<and> take 3 (drop (unat a) (mem_bytes m')) = [0x62, 0x63, 0])"
proof -
  have sz: "cumulative_size demo_args = 5" "number_elements demo_args = 2"
    by (simp_all add: cumulative_size_def number_elements_def demo_args_def)
  have "string_array_ok demo_args"
    by (simp add: string_array_ok_def demo_args_def args_block_def u32_MAX_def)
  from write_to_guest_strings [OF this, of "GuestPtr 16" "Unshared 0 (replicate 32 7)" "GuestPtr 4"] obtain m' where
    m': "write_to_guest demo_args (GuestPtr 16) (GuestPtr 4) (Unshared 0 (replicate 32 7)) = (Ok (), m')" and
    "\<forall>i < length (elems demo_args). \<exists>a. prim_read u32_prim m' (GuestPtr (4 + of_nat i * 4)) = Ok a \<and>
       take (length (elems demo_args ! i) + 1) (drop (unat a) (mem_bytes m')) = elems demo_args ! i @ [0]"
    by (auto simp: sz)
  from this(2) [rule_format, of 1] m' show ?thesis by (simp add: demo_args_def numeral_3_eq_3)
qed

end
