(* ===== verification/WASI_Fd.thy ===== *)
theory WASI_Fd
  imports WASI_Ctx
begin

text \<open>
  The WASI calls on arguments, clocks and file descriptors, from the implementation of
  \<^verbatim>\<open>WasiSnapshotPreview1\<close> in \<^verbatim>\<open>crates/wasi-common/src/snapshots/preview_1.rs\<close>. A call acts on a state made of
  the context, the module's memory and the world outside; its error is a \<open>wasi_error\<close>. The structures
  read from memory follow \<^verbatim>\<open>crates/wiggle/generate/src/types/record.rs\<close>: the members in order, each at its offset.
\<close>

section \<open>State and host\<close>

record ('w, 'f, 'd) wasi_state =
  ctx :: "('f, 'd) wasi_ctx"
  mem :: guest_memory
  world :: 'w

record ('w, 'f, 'd) wasi_host =
  files :: "('w, 'f) file_methods"
  dirs :: "('w, 'f, 'd) dir_methods"
  system_resolution :: nat
  system_now :: "nat \<Rightarrow> 'w \<Rightarrow> system_time \<times> 'w"
  monotonic_resolution :: nat
  monotonic_now :: "nat \<Rightarrow> 'w \<Rightarrow> nat \<times> 'w"
  sched_poll_oneoff :: "'f poll \<Rightarrow> 'w \<Rightarrow> (unit, wasi_error) outcome \<times> 'f poll \<times> 'w"
  sched_yield_now :: "('w, unit) act"
  sched_sleep :: "nat \<Rightarrow> ('w, unit) act"
  try_fill_bytes :: "u8 list \<Rightarrow> 'w \<Rightarrow> (unit, i32 option) outcome \<times> u8 list \<times> 'w"
  rustix_errno_of :: "i32 \<Rightarrow> rustix_errno"
  dirent_padding :: "u8 list"

definition on_world :: "('w, 'a) act \<Rightarrow> (('w, 'f, 'd) wasi_state, 'a) act" where
  "on_world a s = (let (r, w) = a (world s) in (r, s\<lparr>world := w\<rparr>))"

definition on_world_buf ::
  "('w \<Rightarrow> ('a, wasi_error) outcome \<times> 'b \<times> 'w) \<Rightarrow>
   (('a, wasi_error) outcome \<Rightarrow> 'b \<Rightarrow> (('w, 'f, 'd) wasi_state, 'c) act) \<Rightarrow> (('w, 'f, 'd) wasi_state, 'c) act" where
  "on_world_buf a k s = (let (r, b, w) = a (world s) in k r b (s\<lparr>world := w\<rparr>))"

definition on_mem ::
  "(guest_memory \<Rightarrow> ('a, guest_error) outcome \<times> guest_memory) \<Rightarrow> (('w, 'f, 'd) wasi_state, 'a) act" where
  "on_mem a s = (let (r, m) = a (mem s) in (map_err error_from_guest r, s\<lparr>mem := m\<rparr>))"

definition read_mem ::
  "(guest_memory \<Rightarrow> ('a, guest_error) outcome) \<Rightarrow> (('w, 'f, 'd) wasi_state, 'a) act" where
  "read_mem a s = (map_err error_from_guest (a (mem s)), s)"

definition on_table ::
  "(('f, 'd) any_entry wasi_table \<Rightarrow> ('a, wasi_error) outcome \<times> ('f, 'd) any_entry wasi_table) \<Rightarrow>
   (('w, 'f, 'd) wasi_state, 'a) act" where
  "on_table a s = (let (r, t) = a (table (ctx s)) in (r, s\<lparr>ctx := (ctx s)\<lparr>table := t\<rparr>\<rparr>))"

definition the_file :: "u32 \<Rightarrow> (('w, 'f, 'd) wasi_state, 'f file_entry) act" where
  "the_file fd s = (get_file (table (ctx s)) fd, s)"

definition the_dir :: "u32 \<Rightarrow> (('w, 'f, 'd) wasi_state, 'd dir_entry) act" where
  "the_dir fd s = (get_dir (table (ctx s)) fd, s)"

definition is_file :: "('w, 'f, 'd) wasi_state \<Rightarrow> u32 \<Rightarrow> bool" where
  "is_file s fd = table_is is_file_entry (table (ctx s)) fd"

definition is_dir :: "('w, 'f, 'd) wasi_state \<Rightarrow> u32 \<Rightarrow> bool" where
  "is_dir s fd = table_is is_dir_entry (table (ctx s)) fd"

definition u64_to_u32 :: "u64 \<Rightarrow> (u32, wasi_error) outcome" where
  "u64_to_u32 n = (if unat n < 2 ^ 32 then Ok (of_nat (unat n)) else Err error_from_int)"

definition nat_to_u64 :: "nat \<Rightarrow> (u64, wasi_error) outcome" where
  "nat_to_u64 n = (if n < 2 ^ 64 then Ok (of_nat n) else Err error_from_int)"

definition nat_to_u32 :: "nat \<Rightarrow> (u32, wasi_error) outcome" where
  "nat_to_u32 n = (if n < 2 ^ 32 then Ok (of_nat n) else Err error_from_int)"

section \<open>Arguments and clocks\<close>

definition args_get :: "sized_ptr \<Rightarrow> sized_ptr \<Rightarrow> (('w, 'f, 'd) wasi_state, unit) act" where
  "args_get argv argv_buf s =
     (let (r, m) = write_to_guest (args (ctx s)) argv_buf argv (mem s) in (r, s\<lparr>mem := m\<rparr>))"

definition args_sizes_get :: "(('w, 'f, 'd) wasi_state, u32 \<times> u32) act" where
  "args_sizes_get = gets (\<lambda>s. (number_elements (args (ctx s)), cumulative_size (args (ctx s))))"

definition environ_get :: "sized_ptr \<Rightarrow> sized_ptr \<Rightarrow> (('w, 'f, 'd) wasi_state, unit) act" where
  "environ_get environ environ_buf s =
     (let (r, m) = write_to_guest (env (ctx s)) environ_buf environ (mem s) in (r, s\<lparr>mem := m\<rparr>))"

definition environ_sizes_get :: "(('w, 'f, 'd) wasi_state, u32 \<times> u32) act" where
  "environ_sizes_get = gets (\<lambda>s. (number_elements (env (ctx s)), cumulative_size (env (ctx s))))"

datatype clockid = Realtime | Monotonic | ProcessCputimeId | ThreadCputimeId

definition clock_res_get :: "('w, 'f, 'd) wasi_host \<Rightarrow> clockid \<Rightarrow> (('w, 'f, 'd) wasi_state, u64) act" where
  "clock_res_get H clk s =
     bind (case clk of
         Realtime \<Rightarrow> bind (lift (clocks_system (clocks (ctx s)))) (\<lambda>_. ret (system_resolution H))
       | Monotonic \<Rightarrow> bind (lift (clocks_monotonic (clocks (ctx s)))) (\<lambda>_. ret (monotonic_resolution H))
       | ProcessCputimeId \<Rightarrow> throw badf
       | ThreadCputimeId \<Rightarrow> throw badf)
       (\<lambda>resolution. lift (nat_to_u64 resolution)) s"

definition clock_time_get ::
  "('w, 'f, 'd) wasi_host \<Rightarrow> clockid \<Rightarrow> u64 \<Rightarrow> (('w, 'f, 'd) wasi_state, u64) act" where
  "clock_time_get H clk precision s =
     (case clk of
        Realtime \<Rightarrow>
          bind (lift (clocks_system (clocks (ctx s)))) (\<lambda>_.
          bind (on_world (\<lambda>w. let (t, w') = system_now H (unat precision) w in (Ok t, w'))) (\<lambda>now.
            if now < 0 then throw (Trap ''current time before unix epoch'')
            else lift (nat_to_u64 (nat now)))) s
      | Monotonic \<Rightarrow>
          bind (lift (clocks_monotonic (clocks (ctx s)))) (\<lambda>created.
          bind (on_world (\<lambda>w. let (t, w') = monotonic_now H (unat precision) w in (Ok t, w'))) (\<lambda>now.
            lift (nat_to_u64 (now - created)))) s
      | ProcessCputimeId \<Rightarrow> throw badf s
      | ThreadCputimeId \<Rightarrow> throw badf s)"

section \<open>File descriptors\<close>

definition fd_advise ::
  "('w, 'f, 'd) wasi_host \<Rightarrow> u32 \<Rightarrow> u64 \<Rightarrow> u64 \<Rightarrow> witx_advice \<Rightarrow> (('w, 'f, 'd) wasi_state, unit) act" where
  "fd_advise H fd off len adv =
     bind (the_file fd) (\<lambda>f. on_world (advise (files H) (entry_file f) off len (advice_from adv)))"

definition fd_allocate :: "u32 \<Rightarrow> u64 \<Rightarrow> u64 \<Rightarrow> (('w, 'f, 'd) wasi_state, unit) act" where
  "fd_allocate fd off len = bind (the_file fd) (\<lambda>_. throw not_supported)"

definition fd_close :: "u32 \<Rightarrow> (('w, 'f, 'd) wasi_state, unit) act" where
  "fd_close fd s =
     (if \<not> contains_key (table (ctx s)) fd then throw badf s
      else if is_file s fd then bind (on_table (wasi_table_delete is_file_entry fd)) (\<lambda>_. ret ()) s
      else if is_dir s fd then bind (on_table (wasi_table_delete is_dir_entry fd)) (\<lambda>_. ret ()) s
      else throw badf s)"

definition fd_datasync :: "('w, 'f, 'd) wasi_host \<Rightarrow> u32 \<Rightarrow> (('w, 'f, 'd) wasi_state, unit) act" where
  "fd_datasync H fd = bind (the_file fd) (\<lambda>f. on_world (datasync (files H) (entry_file f)))"

definition fd_fdstat_get :: "('w, 'f, 'd) wasi_host \<Rightarrow> u32 \<Rightarrow> (('w, 'f, 'd) wasi_state, witx_fdstat) act" where
  "fd_fdstat_get H fd s =
     (if is_file s fd then
        bind (the_file fd) (\<lambda>f.
        bind (on_world (file_entry_get_fdstat (files H) f)) (\<lambda>st. ret (fdstat_from st))) s
      else if is_dir s fd then
        bind (the_dir fd) (\<lambda>_.
          ret \<lparr>fs_filetype = FtDirectory, fs_flags = 0, fs_rights_base = directory_base_rights,
               fs_rights_inheriting = directory_inheriting_rights\<rparr>) s
      else throw badf s)"

definition fd_fdstat_set_flags ::
  "('w, 'f, 'd) wasi_host \<Rightarrow> u32 \<Rightarrow> u16 \<Rightarrow> (('w, 'f, 'd) wasi_state, unit) act" where
  "fd_fdstat_set_flags H fd flags s =
     (if ctx_cloned (ctx s) then throw not_supported s
      else case get_file_mut (table (ctx s)) fd of
        Err e \<Rightarrow> (Err e, s)
      | Panic \<Rightarrow> (Panic, s)
      | Ok e \<Rightarrow>
          (let (r, f', w) = set_fdflags (files H) (entry_file e) (fdflags_from flags) (world s)
           in (r, s\<lparr>ctx := (ctx s)\<lparr>table := insert_at fd (Arc False (FileEntry (e\<lparr>entry_file := f'\<rparr>))) (table (ctx s))\<rparr>,
                    world := w\<rparr>)))"

definition fd_fdstat_set_rights :: "u32 \<Rightarrow> u64 \<Rightarrow> u64 \<Rightarrow> (('w, 'f, 'd) wasi_state, unit) act" where
  "fd_fdstat_set_rights fd base inheriting s =
     (if is_file s fd then bind (the_file fd) (\<lambda>_. ret ()) s
      else if is_dir s fd then bind (the_dir fd) (\<lambda>_. ret ()) s
      else throw badf s)"

definition fd_filestat_get :: "('w, 'f, 'd) wasi_host \<Rightarrow> u32 \<Rightarrow> (('w, 'f, 'd) wasi_state, witx_filestat) act" where
  "fd_filestat_get H fd s =
     (if is_file s fd then
        bind (the_file fd) (\<lambda>f. bind (on_world (get_filestat (files H) (entry_file f))) (\<lambda>st. lift (filestat_from st))) s
      else if is_dir s fd then
        bind (the_dir fd) (\<lambda>d. bind (on_world (dir_get_filestat (dirs H) (entry_dir d))) (\<lambda>st. lift (filestat_from st))) s
      else throw badf s)"

definition fd_filestat_set_size ::
  "('w, 'f, 'd) wasi_host \<Rightarrow> u32 \<Rightarrow> u64 \<Rightarrow> (('w, 'f, 'd) wasi_state, unit) act" where
  "fd_filestat_set_size H fd sz = bind (the_file fd) (\<lambda>f. on_world (set_filestat_size (files H) (entry_file f) sz))"

definition FST_ATIM :: u16 where "FST_ATIM = 1"
definition FST_ATIM_NOW :: u16 where "FST_ATIM_NOW = 2"
definition FST_MTIM :: u16 where "FST_MTIM = 4"
definition FST_MTIM_NOW :: u16 where "FST_MTIM_NOW = 8"

definition fst_times ::
  "u64 \<Rightarrow> u64 \<Rightarrow> u16 \<Rightarrow> (system_time_spec option \<times> system_time_spec option, wasi_error) outcome" where
  "fst_times at mt fst_flags =
     (let set_atim = contains fst_flags FST_ATIM;
          set_atim_now = contains fst_flags FST_ATIM_NOW;
          set_mtim = contains fst_flags FST_MTIM;
          set_mtim_now = contains fst_flags FST_MTIM_NOW
      in bind_ok (systimespec set_atim at set_atim_now) (\<lambda>a.
         bind_ok (systimespec set_mtim mt set_mtim_now) (\<lambda>m. Ok (a, m))))"

definition fd_filestat_set_times ::
  "('w, 'f, 'd) wasi_host \<Rightarrow> u32 \<Rightarrow> u64 \<Rightarrow> u64 \<Rightarrow> u16 \<Rightarrow> (('w, 'f, 'd) wasi_state, unit) act" where
  "fd_filestat_set_times H fd at mt fst_flags s =
     bind (lift (fst_times at mt fst_flags)) (\<lambda>(a, m).
       if is_file s fd then
         bind (lift (unwrap (get_file (table (ctx s)) fd))) (\<lambda>f. on_world (set_times (files H) (entry_file f) a m))
       else if is_dir s fd then
         bind (lift (unwrap (get_dir (table (ctx s)) fd))) (\<lambda>d.
           on_world (dir_set_times (dirs H) (entry_dir d) [0x2E] a m False))
       else throw badf) s"

section \<open>Reading and writing\<close>

definition MAX_SHARED_BUFFER_SIZE :: nat where "MAX_SHARED_BUFFER_SIZE = 2 ^ 16"

text \<open>The structures \<^verbatim>\<open>iovec\<close> and \<^verbatim>\<open>ciovec\<close>: a pointer and a length, eight bytes.\<close>

definition read_iovec :: "guest_memory \<Rightarrow> sized_ptr \<Rightarrow> (sized_ptr \<times> u32, guest_error) outcome" where
  "read_iovec m p =
     bind_ok (ptr_add 1 p 0) (\<lambda>p0.
     bind_ok (mem_read ptr_guest_type m p0) (\<lambda>buf.
     bind_ok (ptr_add 1 p 4) (\<lambda>p1.
     bind_ok (mem_read (integer_primitive u32_prim) m p1) (\<lambda>buf_len. Ok (buf, buf_len)))))"

definition collect_iovs :: "guest_memory \<Rightarrow> slice_ptr \<Rightarrow> (slice_ptr list, guest_error) outcome" where
  "collect_iovs m iovs =
     collect_ok (map (\<lambda>r. bind_ok r (\<lambda>p. map_ok (\<lambda>(buf, n). as_array buf n) (read_iovec m p))) (ptr_iter 8 iovs))"

definition collect_ciovs :: "guest_memory \<Rightarrow> slice_ptr \<Rightarrow> (u8 list list, guest_error) outcome" where
  "collect_ciovs m ciovs =
     collect_ok (map (\<lambda>r. bind_ok r (\<lambda>p. bind_ok (read_iovec m p) (\<lambda>(buf, n). as_cow u8_prim m (as_array buf n))))
       (ptr_iter 8 ciovs))"

text \<open>
  The part that \<^verbatim>\<open>fd_read\<close>, \<^verbatim>\<open>fd_pread\<close> and \<^verbatim>\<open>sock_recv\<close> share for shared memory: the file fills a buffer of the host and
  the bytes read are copied to the first area.
\<close>

definition copy_read_bytes :: "u8 list \<Rightarrow> slice_ptr \<Rightarrow> u64 \<Rightarrow> (('w, 'f, 'd) wasi_state, unit) act" where
  "copy_read_bytes buffer iov bytes_read =
     bind (lift (u64_to_u32 bytes_read)) (\<lambda>n.
     bind (lift_guest (get_range 1 iov 0 n)) (\<lambda>r.
     case r of
       None \<Rightarrow> lift Panic
     | Some iov \<Rightarrow>
         if length buffer < unat bytes_read then lift Panic
         else on_mem (\<lambda>m. copy_from_slice u8_prim m (take (unat bytes_read) buffer) iov)))"

text \<open>The part they share for unshared memory: the file fills a slice of the memory itself.\<close>

definition fill_slice :: "nat \<Rightarrow> u8 list \<Rightarrow> (('w, 'f, 'd) wasi_state, unit) act" where
  "fill_slice lo bs s = (Ok (), s\<lparr>mem := with_bytes (mem s) (overwrite (mem_bytes (mem s)) lo bs)\<rparr>)"

definition read_with ::
  "(u8 list list \<Rightarrow> 'w \<Rightarrow> (u64, wasi_error) outcome \<times> u8 list list \<times> 'w) \<Rightarrow> slice_ptr list \<Rightarrow>
   (('w, 'f, 'd) wasi_state, u32) act" where
  "read_with rd iovs s =
     (if is_shared_memory (mem s) then
        (case iovs of
           [] \<Rightarrow> ret 0 s
         | iov # _ \<Rightarrow>
             (let buffer = replicate (min (unat (ptr_len iov)) MAX_SHARED_BUFFER_SIZE) 0
              in on_world_buf (rd [buffer]) (\<lambda>r bufs.
                   bind (lift r) (\<lambda>bytes_read.
                   bind (copy_read_bytes (concat bufs) iov bytes_read) (\<lambda>_.
                     lift (u64_to_u32 bytes_read)))) s))
      else
        (case filter (\<lambda>iov. 0 < ptr_len iov) iovs of
           [] \<Rightarrow> ret 0 s
         | iov # _ \<Rightarrow>
             bind (read_mem (\<lambda>m. as_slice_mut m iov)) (\<lambda>sl.
             case sl of
               None \<Rightarrow> lift Panic
             | Some (lo, hi) \<Rightarrow> (\<lambda>s.
                 let slice = take (hi - lo) (drop lo (mem_bytes (mem s)))
                 in on_world_buf (rd [slice]) (\<lambda>r bufs.
                      bind (fill_slice lo (concat bufs)) (\<lambda>_.
                      bind (lift r) (\<lambda>bytes_read. lift (u64_to_u32 bytes_read)))) s)) s))"

definition fd_read ::
  "('w, 'f, 'd) wasi_host \<Rightarrow> u32 \<Rightarrow> slice_ptr \<Rightarrow> (('w, 'f, 'd) wasi_state, u32) act" where
  "fd_read H fd iovs =
     bind (the_file fd) (\<lambda>f.
     if \<not> contains (access_mode f) MODE_READ then throw badf
     else
       bind (read_mem (\<lambda>m. collect_iovs m iovs)) (\<lambda>iovs.
         read_with (read_vectored (files H) (entry_file f)) iovs))"

definition fd_pread ::
  "('w, 'f, 'd) wasi_host \<Rightarrow> u32 \<Rightarrow> slice_ptr \<Rightarrow> u64 \<Rightarrow> (('w, 'f, 'd) wasi_state, u32) act" where
  "fd_pread H fd iovs off =
     bind (the_file fd) (\<lambda>f.
     if \<not> contains (access_mode f) MODE_READ then throw badf
     else
       bind (read_mem (\<lambda>m. collect_iovs m iovs)) (\<lambda>iovs.
         read_with (\<lambda>bufs. read_vectored_at (files H) (entry_file f) bufs off) iovs))"

definition fd_write ::
  "('w, 'f, 'd) wasi_host \<Rightarrow> u32 \<Rightarrow> slice_ptr \<Rightarrow> (('w, 'f, 'd) wasi_state, u32) act" where
  "fd_write H fd ciovs =
     bind (the_file fd) (\<lambda>f.
     if \<not> contains (access_mode f) MODE_WRITE then throw badf
     else
       bind (read_mem (\<lambda>m. collect_ciovs m ciovs)) (\<lambda>slices.
       bind (on_world (write_vectored (files H) (entry_file f) slices)) (\<lambda>bytes_written.
         lift (u64_to_u32 bytes_written))))"

definition fd_pwrite ::
  "('w, 'f, 'd) wasi_host \<Rightarrow> u32 \<Rightarrow> slice_ptr \<Rightarrow> u64 \<Rightarrow> (('w, 'f, 'd) wasi_state, u32) act" where
  "fd_pwrite H fd ciovs off =
     bind (the_file fd) (\<lambda>f.
     if \<not> contains (access_mode f) MODE_WRITE then throw badf
     else
       bind (read_mem (\<lambda>m. collect_ciovs m ciovs)) (\<lambda>slices.
       bind (on_world (write_vectored_at (files H) (entry_file f) slices off)) (\<lambda>bytes_written.
         lift (u64_to_u32 bytes_written))))"

section \<open>Preopened directories, renumbering, seeking\<close>

definition path_to_str :: "u8 list \<Rightarrow> u8 list option" where
  "path_to_str p = (if from_utf8 p then Some p else None)"

definition fd_prestat_get :: "u32 \<Rightarrow> (('w, 'f, 'd) wasi_state, u32) act" where
  "fd_prestat_get fd =
     bind (\<lambda>s. (map_err (\<lambda>_. badf) (get_dir (table (ctx s)) fd), s)) (\<lambda>d.
     case preopen_path d of
       Some preopen \<Rightarrow>
         bind (lift (ok_or not_supported (path_to_str preopen))) (\<lambda>path_str. lift (nat_to_u32 (length path_str)))
     | None \<Rightarrow> throw not_supported)"

definition fd_prestat_dir_name :: "u32 \<Rightarrow> sized_ptr \<Rightarrow> u32 \<Rightarrow> (('w, 'f, 'd) wasi_state, unit) act" where
  "fd_prestat_dir_name fd path path_max_len =
     bind (\<lambda>s. (map_err (\<lambda>_. not_dir) (get_dir (table (ctx s)) fd), s)) (\<lambda>d.
     case preopen_path d of
       Some preopen \<Rightarrow>
         bind (lift (ok_or not_supported (path_to_str preopen))) (\<lambda>path_bytes.
           if unat path_max_len < length path_bytes then throw name_too_long
           else on_mem (\<lambda>m. copy_from_slice u8_prim m path_bytes (as_array path (of_nat (length path_bytes)))))
     | None \<Rightarrow> throw not_supported)"

definition fd_renumber :: "u32 \<Rightarrow> u32 \<Rightarrow> (('w, 'f, 'd) wasi_state, unit) act" where
  "fd_renumber from to s =
     (if \<not> contains_key (table (ctx s)) from then throw badf s else on_table (renumber from to) s)"

datatype whence = WhenceSet | WhenceCur | WhenceEnd

definition fd_seek ::
  "('w, 'f, 'd) wasi_host \<Rightarrow> u32 \<Rightarrow> 64 word \<Rightarrow> whence \<Rightarrow> (('w, 'f, 'd) wasi_state, u64) act" where
  "fd_seek H fd off wh =
     bind (case wh of
         WhenceCur \<Rightarrow> ret (SeekCurrent off)
       | WhenceEnd \<Rightarrow> ret (SeekEnd off)
       | WhenceSet \<Rightarrow> if sint off < 0 then throw invalid_argument else ret (SeekStart off)) (\<lambda>wh.
     bind (the_file fd) (\<lambda>f. on_world (seek (files H) (entry_file f) wh)))"

definition fd_sync :: "('w, 'f, 'd) wasi_host \<Rightarrow> u32 \<Rightarrow> (('w, 'f, 'd) wasi_state, unit) act" where
  "fd_sync H fd = bind (the_file fd) (\<lambda>f. on_world (sync (files H) (entry_file f)))"

definition fd_tell :: "('w, 'f, 'd) wasi_host \<Rightarrow> u32 \<Rightarrow> (('w, 'f, 'd) wasi_state, u64) act" where
  "fd_tell H fd = bind (the_file fd) (\<lambda>f. on_world (seek (files H) (entry_file f) (SeekCurrent 0)))"

section \<open>Directory entries\<close>

record witx_dirent =
  d_next :: u64
  d_ino :: u64
  d_namlen :: u32
  d_type :: witx_filetype

definition dirent_from :: "readdir_entity \<Rightarrow> (witx_dirent, wasi_error) outcome" where
  "dirent_from e =
     bind_ok (nat_to_u32 (length (rd_name e))) (\<lambda>namlen.
       Ok \<lparr>d_next = rd_next e, d_ino = rd_inode e, d_namlen = namlen, d_type = filetype_from (rd_filetype e)\<rparr>)"

text \<open>
  The 24 bytes of the structure: its members in declaration order and three bytes of padding,
  whose content the compiler leaves open.
\<close>

definition dirent_bytes :: "u8 list \<Rightarrow> witx_dirent \<Rightarrow> u8 list" where
  "dirent_bytes pad d =
     le_encode 8 (unat (d_next d)) @ le_encode 8 (unat (d_ino d)) @ le_encode 4 (unat (d_namlen d)) @
     [filetype_tag (d_type d)] @ pad"

fun readdir_loop ::
  "u8 list \<Rightarrow> (readdir_entity, wasi_error) outcome list \<Rightarrow> sized_ptr \<Rightarrow> u32 \<Rightarrow> u32 \<Rightarrow>
   (('w, 'f, 'd) wasi_state, u32) act" where
  "readdir_loop pad [] buf buf_len bufused = ret bufused"
| "readdir_loop pad (entity # rest) buf buf_len bufused =
     bind (lift entity) (\<lambda>entity.
     bind (lift (map_ok (dirent_bytes pad) (dirent_from entity))) (\<lambda>dirent_raw.
     bind (lift (nat_to_u32 (length dirent_raw))) (\<lambda>dirent_len.
     bind (lift (nat_to_u32 (length (rd_name entity)))) (\<lambda>name_len.
     let dirent_copy_len = min dirent_len (buf_len - bufused)
     in bind (on_mem (\<lambda>m. copy_from_slice u8_prim m (take (unat dirent_copy_len) dirent_raw)
                            (as_array buf dirent_copy_len))) (\<lambda>_.
        if dirent_copy_len < dirent_len then ret buf_len
        else
          bind (lift_guest (ptr_add 1 buf dirent_copy_len)) (\<lambda>buf.
          let bufused = bufused + dirent_copy_len;
              name_copy_len = min name_len (buf_len - bufused)
          in bind (on_mem (\<lambda>m. copy_from_slice u8_prim m (take (unat name_copy_len) (rd_name entity))
                                 (as_array buf name_copy_len))) (\<lambda>_.
             if name_copy_len < name_len then ret buf_len
             else
               bind (lift_guest (ptr_add 1 buf name_copy_len)) (\<lambda>buf.
                 readdir_loop pad rest buf buf_len (bufused + name_copy_len)))))))))"

definition fd_readdir ::
  "('w, 'f, 'd) wasi_host \<Rightarrow> u32 \<Rightarrow> sized_ptr \<Rightarrow> u32 \<Rightarrow> u64 \<Rightarrow> (('w, 'f, 'd) wasi_state, u32) act" where
  "fd_readdir H fd buf buf_len cookie =
     bind (the_dir fd) (\<lambda>d.
     bind (on_world (readdir (dirs H) (entry_dir d) cookie)) (\<lambda>entities.
       readdir_loop (dirent_padding H) entities buf buf_len 0))"

end
