(* ===== verification/WASI_Path.thy ===== *)
theory WASI_Path
  imports WASI_Fd
begin

text \<open>
  The WASI calls on paths, sockets, randomness and the process, from
  \<^verbatim>\<open>crates/wasi-common/src/snapshots/preview_1.rs\<close>, in the style of \<open>WASI_Fd\<close>.
\<close>

section \<open>Paths\<close>

definition read_str :: "slice_ptr \<Rightarrow> (('w, 'f, 'd) wasi_state, u8 list) act" where
  "read_str p = read_mem (\<lambda>m. as_cow_str u8_prim m p)"

definition SYMLINK_FOLLOW :: u32 where "SYMLINK_FOLLOW = 1"

definition path_create_directory ::
  "('w, 'f, 'd) wasi_host \<Rightarrow> u32 \<Rightarrow> slice_ptr \<Rightarrow> (('w, 'f, 'd) wasi_state, unit) act" where
  "path_create_directory H dirfd path =
     bind (the_dir dirfd) (\<lambda>d.
     bind (read_str path) (\<lambda>path. on_world (create_dir (dirs H) (entry_dir d) path)))"

definition path_filestat_get ::
  "('w, 'f, 'd) wasi_host \<Rightarrow> u32 \<Rightarrow> u32 \<Rightarrow> slice_ptr \<Rightarrow> (('w, 'f, 'd) wasi_state, witx_filestat) act" where
  "path_filestat_get H dirfd flags path =
     bind (the_dir dirfd) (\<lambda>d.
     bind (read_str path) (\<lambda>path.
     bind (on_world (get_path_filestat (dirs H) (entry_dir d) path (contains flags SYMLINK_FOLLOW))) (\<lambda>st.
       lift (filestat_from st))))"

definition path_filestat_set_times ::
  "('w, 'f, 'd) wasi_host \<Rightarrow> u32 \<Rightarrow> u32 \<Rightarrow> slice_ptr \<Rightarrow> u64 \<Rightarrow> u64 \<Rightarrow> u16 \<Rightarrow> (('w, 'f, 'd) wasi_state, unit) act" where
  "path_filestat_set_times H dirfd flags path at mt fst_flags =
     bind (lift (fst_times at mt fst_flags)) (\<lambda>(a, m).
     bind (the_dir dirfd) (\<lambda>d.
     bind (read_str path) (\<lambda>path.
       on_world (dir_set_times (dirs H) (entry_dir d) path a m (contains flags SYMLINK_FOLLOW)))))"

definition path_link ::
  "('w, 'f, 'd) wasi_host \<Rightarrow> u32 \<Rightarrow> u32 \<Rightarrow> slice_ptr \<Rightarrow> u32 \<Rightarrow> slice_ptr \<Rightarrow> (('w, 'f, 'd) wasi_state, unit) act" where
  "path_link H src_fd src_flags src_path target_fd target_path =
     bind (the_dir src_fd) (\<lambda>src_dir.
     bind (the_dir target_fd) (\<lambda>target_dir.
     if contains src_flags SYMLINK_FOLLOW then throw invalid_argument
     else
       bind (read_str src_path) (\<lambda>src_path.
       bind (read_str target_path) (\<lambda>target_path.
         on_world (hard_link (dirs H) (entry_dir src_dir) src_path (entry_dir target_dir) target_path)))))"

definition path_open ::
  "('w, 'f, 'd) wasi_host \<Rightarrow> u32 \<Rightarrow> u32 \<Rightarrow> slice_ptr \<Rightarrow> u16 \<Rightarrow> u64 \<Rightarrow> u64 \<Rightarrow> u16 \<Rightarrow> (('w, 'f, 'd) wasi_state, u32) act" where
  "path_open H dirfd dirflags path oflags rights_base rights_inheriting fdflags s =
     (if is_file s dirfd then throw not_dir s
      else
        bind (the_dir dirfd) (\<lambda>dir_entry.
        bind (read_str path) (\<lambda>path.
        let symlink_follow = contains dirflags SYMLINK_FOLLOW;
            rd = has_right rights_base FD_READ;
            wr = has_right rights_base FD_WRITE;
            mode = (if rd then MODE_READ else 0) OR (if wr then MODE_WRITE else 0)
        in bind (on_world (open_file (dirs H) (entry_dir dir_entry) symlink_follow path
                   (oflags_from oflags) rd wr (fdflags_from fdflags))) (\<lambda>r.
           case r of
             OpenFile f \<Rightarrow> on_table (push (Arc False (FileEntry (file_entry_new f mode))))
           | OpenDir d \<Rightarrow> on_table (push (Arc False (DirEntry (dir_entry_new None d))))))) s)"

definition path_readlink ::
  "('w, 'f, 'd) wasi_host \<Rightarrow> u32 \<Rightarrow> slice_ptr \<Rightarrow> sized_ptr \<Rightarrow> u32 \<Rightarrow> (('w, 'f, 'd) wasi_state, u32) act" where
  "path_readlink H dirfd path buf buf_len =
     bind (the_dir dirfd) (\<lambda>d.
     bind (read_str path) (\<lambda>path.
     bind (on_world (read_link (dirs H) (entry_dir d) path)) (\<lambda>link.
     bind (lift (ok_or illegal_byte_sequence (path_to_str link))) (\<lambda>link_bytes.
     let link_len = min (length link_bytes) (unat buf_len)
     in bind (on_mem (\<lambda>m. copy_from_slice u8_prim m (take link_len link_bytes) (as_array buf (of_nat link_len)))) (\<lambda>_.
          ret (of_nat link_len))))))"

definition path_remove_directory ::
  "('w, 'f, 'd) wasi_host \<Rightarrow> u32 \<Rightarrow> slice_ptr \<Rightarrow> (('w, 'f, 'd) wasi_state, unit) act" where
  "path_remove_directory H dirfd path =
     bind (the_dir dirfd) (\<lambda>d.
     bind (read_str path) (\<lambda>path. on_world (remove_dir (dirs H) (entry_dir d) path)))"

definition path_rename ::
  "('w, 'f, 'd) wasi_host \<Rightarrow> u32 \<Rightarrow> slice_ptr \<Rightarrow> u32 \<Rightarrow> slice_ptr \<Rightarrow> (('w, 'f, 'd) wasi_state, unit) act" where
  "path_rename H src_fd src_path dest_fd dest_path =
     bind (the_dir src_fd) (\<lambda>src_dir.
     bind (the_dir dest_fd) (\<lambda>dest_dir.
     bind (read_str src_path) (\<lambda>src_path.
     bind (read_str dest_path) (\<lambda>dest_path.
       on_world (rename_to (dirs H) (entry_dir src_dir) src_path (entry_dir dest_dir) dest_path)))))"

definition path_symlink ::
  "('w, 'f, 'd) wasi_host \<Rightarrow> slice_ptr \<Rightarrow> u32 \<Rightarrow> slice_ptr \<Rightarrow> (('w, 'f, 'd) wasi_state, unit) act" where
  "path_symlink H src_path dirfd dest_path =
     bind (the_dir dirfd) (\<lambda>d.
     bind (read_str src_path) (\<lambda>src_path.
     bind (read_str dest_path) (\<lambda>dest_path.
       on_world (symlink (dirs H) (entry_dir d) src_path dest_path))))"

definition path_unlink_file ::
  "('w, 'f, 'd) wasi_host \<Rightarrow> u32 \<Rightarrow> slice_ptr \<Rightarrow> (('w, 'f, 'd) wasi_state, unit) act" where
  "path_unlink_file H dirfd path =
     bind (the_dir dirfd) (\<lambda>d.
     bind (read_str path) (\<lambda>path. on_world (unlink_file (dirs H) (entry_dir d) path)))"

section \<open>Process, scheduler and randomness\<close>

text \<open>\<^verbatim>\<open>proc_exit\<close> never returns to the module: its result is the error that ends the run.\<close>

datatype exit_error = I32Exit i32 | InvalidExit string

definition proc_exit :: "u32 \<Rightarrow> exit_error" where
  "proc_exit status =
     (if status < 126 then I32Exit status
      else InvalidExit ''exit with invalid exit status outside of [0..126)'')"

definition proc_raise :: "u8 \<Rightarrow> (('w, 'f, 'd) wasi_state, unit) act" where
  "proc_raise sig = throw (Trap ''proc_raise unsupported'')"

definition sched_yield :: "('w, 'f, 'd) wasi_host \<Rightarrow> (('w, 'f, 'd) wasi_state, unit) act" where
  "sched_yield H = on_world (sched_yield_now H)"

text \<open>
  The loop of \<^verbatim>\<open>random_get\<close> for shared memory copies at most \<open>2 ^ 16\<close> bytes a round. The fuel is the
  number of rounds; \<open>random_rounds\<close> is enough, as \<open>random_loop_total\<close> shows.
\<close>

definition fill_random ::
  "('w, 'f, 'd) wasi_host \<Rightarrow> u8 list \<Rightarrow> 'w \<Rightarrow> (unit, wasi_error) outcome \<times> u8 list \<times> 'w" where
  "fill_random H buf w =
     (let (r, b, w') = try_fill_bytes H buf w
      in (map_err (error_from_rand (rustix_errno_of H)) r, b, w'))"

fun random_loop ::
  "('w, 'f, 'd) wasi_host \<Rightarrow> nat \<Rightarrow> slice_ptr \<Rightarrow> u32 \<Rightarrow> (('w, 'f, 'd) wasi_state, unit) act" where
  "random_loop H fuel buf copied s =
     (if \<not> copied < ptr_len buf then ret () s
      else case fuel of
        0 \<Rightarrow> (Panic, s)
      | Suc fuel \<Rightarrow>
          (let len = min (ptr_len buf - copied) (of_nat MAX_SHARED_BUFFER_SIZE);
               tmp = replicate (unat len) 0
           in on_world_buf (fill_random H tmp) (\<lambda>r tmp.
                  bind (lift r) (\<lambda>_.
                  bind (lift_guest (get_range 1 buf copied (copied + len))) (\<lambda>dest.
                  case dest of
                    None \<Rightarrow> lift Panic
                  | Some dest \<Rightarrow>
                      bind (on_mem (\<lambda>m. copy_from_slice u8_prim m tmp dest)) (\<lambda>_.
                        random_loop H fuel buf (copied + len))))) s))"

declare random_loop.simps [simp del]

definition random_rounds :: "slice_ptr \<Rightarrow> nat" where
  "random_rounds buf = Suc (unat (ptr_len buf) div MAX_SHARED_BUFFER_SIZE)"

definition random_get ::
  "('w, 'f, 'd) wasi_host \<Rightarrow> sized_ptr \<Rightarrow> u32 \<Rightarrow> (('w, 'f, 'd) wasi_state, unit) act" where
  "random_get H buf buf_len s =
     (let buf = as_array buf buf_len
      in if is_shared_memory (mem s) then random_loop H (random_rounds buf) buf 0 s
         else
           bind (read_mem (\<lambda>m. as_slice_mut m buf)) (\<lambda>sl.
           case sl of
             None \<Rightarrow> lift Panic
           | Some (lo, hi) \<Rightarrow> (\<lambda>s.
               let slice = take (hi - lo) (drop lo (mem_bytes (mem s)))
               in on_world_buf (fill_random H slice) (\<lambda>r slice.
                    bind (fill_slice lo slice) (\<lambda>_. lift r)) s)) s)"

section \<open>Sockets\<close>

definition MODE_ALL :: u32 where "MODE_ALL = 0b11"

definition sock_accept_call ::
  "('w, 'f, 'd) wasi_host \<Rightarrow> u32 \<Rightarrow> u16 \<Rightarrow> (('w, 'f, 'd) wasi_state, u32) act" where
  "sock_accept_call H fd flags =
     bind (the_file fd) (\<lambda>f.
     bind (on_world (sock_accept (files H) (entry_file f) (fdflags_from flags))) (\<lambda>file'.
       on_table (push (Arc False (FileEntry (file_entry_new file' MODE_ALL))))))"

definition recv_with ::
  "(u8 list list \<Rightarrow> 'w \<Rightarrow> (u64 \<times> u32, wasi_error) outcome \<times> u8 list list \<times> 'w) \<Rightarrow> slice_ptr list \<Rightarrow>
   (('w, 'f, 'd) wasi_state, u64 \<times> u32) act" where
  "recv_with recv iovs s =
     (if is_shared_memory (mem s) then
        (case iovs of
           [] \<Rightarrow> ret (0, 0) s
         | iov # _ \<Rightarrow>
             (let buffer = replicate (min (unat (ptr_len iov)) MAX_SHARED_BUFFER_SIZE) 0
              in on_world_buf (recv [buffer]) (\<lambda>r bufs.
                   bind (lift r) (\<lambda>(bytes_read, ro_flags).
                   bind (copy_read_bytes (concat bufs) iov bytes_read) (\<lambda>_. ret (bytes_read, ro_flags)))) s))
      else
        (case filter (\<lambda>iov. 0 < ptr_len iov) iovs of
           [] \<Rightarrow> on_world_buf (recv [[]]) (\<lambda>r _. lift r) s
         | iov # _ \<Rightarrow>
             bind (read_mem (\<lambda>m. as_slice_mut m iov)) (\<lambda>sl.
             case sl of
               None \<Rightarrow> lift Panic
             | Some (lo, hi) \<Rightarrow> (\<lambda>s.
                 let slice = take (hi - lo) (drop lo (mem_bytes (mem s)))
                 in on_world_buf (recv [slice]) (\<lambda>r bufs.
                      bind (fill_slice lo (concat bufs)) (\<lambda>_. lift r)) s)) s))"

definition sock_recv_call ::
  "('w, 'f, 'd) wasi_host \<Rightarrow> u32 \<Rightarrow> slice_ptr \<Rightarrow> u16 \<Rightarrow> (('w, 'f, 'd) wasi_state, u32 \<times> u16) act" where
  "sock_recv_call H fd ri_data ri_flags =
     bind (the_file fd) (\<lambda>f.
     bind (read_mem (\<lambda>m. collect_iovs m ri_data)) (\<lambda>iovs.
     bind (recv_with (\<lambda>bufs. sock_recv (files H) (entry_file f) bufs (riflags_from ri_flags)) iovs) (\<lambda>(bytes_read, ro_flags).
     bind (lift (u64_to_u32 bytes_read)) (\<lambda>n. ret (n, witx_roflags_from ro_flags)))))"

definition sock_send_call ::
  "('w, 'f, 'd) wasi_host \<Rightarrow> u32 \<Rightarrow> slice_ptr \<Rightarrow> u16 \<Rightarrow> (('w, 'f, 'd) wasi_state, u32) act" where
  "sock_send_call H fd si_data si_flags =
     bind (the_file fd) (\<lambda>f.
     bind (read_mem (\<lambda>m. collect_ciovs m si_data)) (\<lambda>slices.
     bind (on_world (sock_send (files H) (entry_file f) slices 0)) (\<lambda>bytes_written.
       lift (u64_to_u32 bytes_written))))"

definition sock_shutdown_call ::
  "('w, 'f, 'd) wasi_host \<Rightarrow> u32 \<Rightarrow> u8 \<Rightarrow> (('w, 'f, 'd) wasi_state, unit) act" where
  "sock_shutdown_call H fd how =
     bind (the_file fd) (\<lambda>f. on_world (sock_shutdown (files H) (entry_file f) (sdflags_from how)))"

end
