(* ===== verification/WASI_Poll.thy ===== *)
theory WASI_Poll
  imports WASI_Path
begin

text \<open>
  \<^verbatim>\<open>poll_oneoff\<close> of \<^verbatim>\<open>crates/wasi-common/src/snapshots/preview_1.rs\<close>: reading the subscriptions from the module's
  memory, waiting, and writing the events back. The structures in memory follow
  \<^verbatim>\<open>crates/wiggle/generate/src/types/record.rs\<close> and \<^verbatim>\<open>variant.rs\<close> with the layout of the snapshot's types: a subscription has 48
  bytes, an event 32.
\<close>

section \<open>Subscriptions in memory\<close>

datatype subscription_u = SubClock clockid u64 u64 u16 | SubFdRead u32 | SubFdWrite u32

definition read_at :: "'a guest_type \<Rightarrow> guest_memory \<Rightarrow> sized_ptr \<Rightarrow> u32 \<Rightarrow> ('a, guest_error) outcome" where
  "read_at T m p off = bind_ok (ptr_add 1 p off) (\<lambda>q. gt_read T m q)"

definition read_clockid :: "guest_memory \<Rightarrow> sized_ptr \<Rightarrow> (clockid, guest_error) outcome" where
  "read_clockid m p =
     bind_ok (mem_read (integer_primitive u32_prim) m p) (\<lambda>tag.
       if tag = 0 then Ok Realtime else if tag = 1 then Ok Monotonic
       else if tag = 2 then Ok ProcessCputimeId else if tag = 3 then Ok ThreadCputimeId
       else Err (InvalidEnumValue ''Clockid''))"

definition ABSTIME :: u16 where "ABSTIME = 1"

definition read_subclockflags :: "guest_memory \<Rightarrow> sized_ptr \<Rightarrow> (u16, guest_error) outcome" where
  "read_subclockflags m p =
     bind_ok (prim_read u16_prim m p) (\<lambda>v.
       if v AND ABSTIME = v then Ok v else Err (InvalidFlagValue ''Subclockflags''))"

definition read_subscription_clock :: "guest_memory \<Rightarrow> sized_ptr \<Rightarrow> (subscription_u, guest_error) outcome" where
  "read_subscription_clock m p =
     bind_ok (bind_ok (ptr_add 1 p 0) (read_clockid m)) (\<lambda>clk.
     bind_ok (read_at (integer_primitive u64_prim) m p 8) (\<lambda>timeout.
     bind_ok (read_at (integer_primitive u64_prim) m p 16) (\<lambda>precision.
     bind_ok (bind_ok (ptr_add 1 p 24) (read_subclockflags m)) (\<lambda>flags.
       Ok (SubClock clk timeout precision flags)))))"

definition read_subscription_u :: "guest_memory \<Rightarrow> sized_ptr \<Rightarrow> (subscription_u, guest_error) outcome" where
  "read_subscription_u m p =
     bind_ok (mem_read (integer_primitive u8_prim) m p) (\<lambda>tag.
       if tag = 0 then bind_ok (ptr_add 1 p 8) (read_subscription_clock m)
       else if tag = 1 then bind_ok (ptr_add 1 p 8) (\<lambda>q. map_ok SubFdRead (read_at (integer_primitive u32_prim) m q 0))
       else if tag = 2 then bind_ok (ptr_add 1 p 8) (\<lambda>q. map_ok SubFdWrite (read_at (integer_primitive u32_prim) m q 0))
       else Err (InvalidEnumValue ''SubscriptionU''))"

definition read_subscription :: "guest_memory \<Rightarrow> sized_ptr \<Rightarrow> (u64 \<times> subscription_u, guest_error) outcome" where
  "read_subscription m p =
     bind_ok (read_at (integer_primitive u64_prim) m p 0) (\<lambda>userdata.
     bind_ok (bind_ok (ptr_add 1 p 8) (read_subscription_u m)) (\<lambda>u. Ok (userdata, u)))"

section \<open>Events in memory\<close>

datatype eventtype = EvClock | EvFdRead | EvFdWrite

fun eventtype_tag :: "eventtype \<Rightarrow> u8" where
  "eventtype_tag EvClock = 0"
| "eventtype_tag EvFdRead = 1"
| "eventtype_tag EvFdWrite = 2"

record event =
  ev_userdata :: u64
  ev_error :: errno
  ev_type :: eventtype
  ev_nbytes :: u64
  ev_flags :: u16

definition errno_tag :: "errno \<Rightarrow> u16" where
  "errno_tag e = of_nat (errno_code e)"

definition write_at ::
  "'a guest_type \<Rightarrow> sized_ptr \<Rightarrow> u32 \<Rightarrow> 'a \<Rightarrow> (('w, 'f, 'd) wasi_state, unit) act" where
  "write_at T p off v =
     bind (lift_guest (ptr_add 1 p off)) (\<lambda>q. on_mem (\<lambda>m. gt_write T m q v))"

text \<open>The nested structure with the number of bytes and the flags starts at offset 16.\<close>

definition write_event :: "sized_ptr \<Rightarrow> event \<Rightarrow> (('w, 'f, 'd) wasi_state, unit) act" where
  "write_event p e =
     bind (write_at (integer_primitive u64_prim) p 0 (ev_userdata e)) (\<lambda>_.
     bind (write_at (integer_primitive u16_prim) p 8 (errno_tag (ev_error e))) (\<lambda>_.
     bind (write_at (integer_primitive u8_prim) p 10 (eventtype_tag (ev_type e))) (\<lambda>_.
     bind (lift_guest (ptr_add 1 p 16)) (\<lambda>q.
     bind (write_at (integer_primitive u64_prim) q 0 (ev_nbytes e)) (\<lambda>_.
           write_at (integer_primitive u16_prim) q 8 (ev_flags e))))))"

section \<open>Waiting\<close>

text \<open>\<^verbatim>\<open>Instant::checked_add\<close>: an instant has a signed 64-bit number of seconds.\<close>

definition instant_limit :: nat where "instant_limit = 2 ^ 63 * 1000000000"

definition instant_checked_add :: "nat \<Rightarrow> nat \<Rightarrow> nat option" where
  "instant_checked_add t d = (if t + d < instant_limit then Some (t + d) else None)"

definition read_monotonic ::
  "('w, 'f, 'd) wasi_host \<Rightarrow> nat \<Rightarrow> (('w, 'f, 'd) wasi_state, nat) act" where
  "read_monotonic H precision = on_world (\<lambda>w. let (t, w') = monotonic_now H precision w in (Ok t, w'))"

type_synonym 'f poll_refs = "'f poll \<times> ('f \<times> u64) list \<times> ('f \<times> u64) list"

definition poll_subscribe ::
  "('w, 'f, 'd) wasi_host \<Rightarrow> u64 \<times> subscription_u \<Rightarrow> 'f poll_refs \<Rightarrow> (('w, 'f, 'd) wasi_state, 'f poll_refs) act" where
  "poll_subscribe H sub refs =
     (case (sub, refs) of ((userdata, u), (poll, reads, writes)) \<Rightarrow>
       (case u of
          SubClock clk timeout precision flags \<Rightarrow>
            (case clk of
               Monotonic \<Rightarrow>
                 bind (\<lambda>s. (clocks_monotonic (clocks (ctx s)), s)) (\<lambda>created.
                 bind (if contains flags ABSTIME then ret created else read_monotonic H (unat precision)) (\<lambda>start.
                 bind (lift (ok_or overflow (instant_checked_add start (unat timeout)))) (\<lambda>deadline.
                   ret (subscribe_monotonic_clock deadline (unat precision) userdata poll, reads, writes))))
             | Realtime \<Rightarrow>
                 bind (\<lambda>s. (clocks_monotonic (clocks (ctx s)), s)) (\<lambda>_.
                 if contains flags ABSTIME then throw not_supported
                 else
                   bind (read_monotonic H (unat precision)) (\<lambda>now.
                   bind (lift (ok_or overflow (instant_checked_add now (unat timeout)))) (\<lambda>deadline.
                     ret (subscribe_monotonic_clock deadline (unat precision) userdata poll, reads, writes))))
             | _ \<Rightarrow> throw invalid_argument)
        | SubFdRead fd \<Rightarrow>
            bind (the_file fd) (\<lambda>f. ret (poll, reads @ [(entry_file f, userdata)], writes))
        | SubFdWrite fd \<Rightarrow>
            bind (the_file fd) (\<lambda>f. ret (poll, reads, writes @ [(entry_file f, userdata)]))))"

fun poll_subs ::
  "('w, 'f, 'd) wasi_host \<Rightarrow> (sized_ptr, guest_error) outcome list \<Rightarrow> 'f poll_refs \<Rightarrow>
   (('w, 'f, 'd) wasi_state, 'f poll_refs) act" where
  "poll_subs H [] refs = ret refs"
| "poll_subs H (sub_elem # rest) refs =
     bind (lift_guest sub_elem) (\<lambda>sub_ptr.
     bind (read_mem (\<lambda>m. read_subscription m sub_ptr)) (\<lambda>sub.
     bind (poll_subscribe H sub refs) (\<lambda>refs. poll_subs H rest refs)))"

definition rw_event :: "eventtype \<Rightarrow> u64 \<Rightarrow> (u64 \<times> u32, wasi_error) outcome \<Rightarrow> (event, wasi_error) outcome" where
  "rw_event ty userdata r =
     (case r of
        Ok (nbytes, flags) \<Rightarrow>
          Ok \<lparr>ev_userdata = userdata, ev_error = ESuccess, ev_type = ty, ev_nbytes = nbytes,
              ev_flags = eventrwflags_from flags\<rparr>
      | Err (Errno e) \<Rightarrow>
          Ok \<lparr>ev_userdata = userdata, ev_error = e, ev_type = ty, ev_nbytes = 0, ev_flags = 0\<rparr>
      | Err (Trap t) \<Rightarrow> Err (Trap t)
      | Panic \<Rightarrow> Panic)"

fun event_of :: "subscription_result \<Rightarrow> u64 \<Rightarrow> (event, wasi_error) outcome" where
  "event_of (ResRead r) userdata = rw_event EvFdRead userdata r"
| "event_of (ResWrite r) userdata = rw_event EvFdWrite userdata r"
| "event_of (ResMonotonic r) userdata =
     (case r of
        Ok _ \<Rightarrow> Ok \<lparr>ev_userdata = userdata, ev_error = ESuccess, ev_type = EvClock, ev_nbytes = 0, ev_flags = 0\<rparr>
      | Err (Errno e) \<Rightarrow> Ok \<lparr>ev_userdata = userdata, ev_error = e, ev_type = EvClock, ev_nbytes = 0, ev_flags = 0\<rparr>
      | Err (Trap t) \<Rightarrow> Err (Trap t)
      | Panic \<Rightarrow> Panic)"

fun write_events ::
  "((subscription_result \<times> u64) \<times> (sized_ptr, guest_error) outcome) list \<Rightarrow> (('w, 'f, 'd) wasi_state, unit) act" where
  "write_events [] = ret ()"
| "write_events (((result, userdata), event_elem) # rest) =
     bind (lift_guest event_elem) (\<lambda>event_ptr.
     bind (lift (event_of result userdata)) (\<lambda>e.
     bind (write_event event_ptr e) (\<lambda>_. write_events rest)))"

definition poll_wait ::
  "('w, 'f, 'd) wasi_host \<Rightarrow> sized_ptr \<Rightarrow> sized_ptr \<Rightarrow> u32 \<Rightarrow> (('w, 'f, 'd) wasi_state, u32) act" where
  "poll_wait H subs events nsubscriptions =
     bind (poll_subs H (ptr_iter 48 (as_array subs nsubscriptions)) (poll_new, [], [])) (\<lambda>(poll, reads, writes).
     let poll = fold (\<lambda>(f, ud). subscribe_read f ud) reads poll;
         poll = fold (\<lambda>(f, ud). subscribe_write f ud) writes poll
     in on_world_buf (sched_poll_oneoff H poll) (\<lambda>r poll.
          bind (lift r) (\<lambda>_.
          bind (on_world (\<lambda>w. let (rs, w') = poll_results (monotonic_now H) poll w in (Ok rs, w'))) (\<lambda>results.
          if unat nsubscriptions < length results then lift Panic
          else
            bind (write_events (zip results (ptr_iter 32 (as_array events (of_nat (length results)))))) (\<lambda>_.
              ret (of_nat (length results)))))))"

definition poll_oneoff ::
  "('w, 'f, 'd) wasi_host \<Rightarrow> sized_ptr \<Rightarrow> sized_ptr \<Rightarrow> u32 \<Rightarrow> (('w, 'f, 'd) wasi_state, u32) act" where
  "poll_oneoff H subs events nsubscriptions =
     (if nsubscriptions = 0 then throw invalid_argument
      else if nsubscriptions = 1 then
        bind (read_mem (\<lambda>m. read_subscription m subs)) (\<lambda>(userdata, u).
        case u of
          SubClock clk timeout precision flags \<Rightarrow>
            if \<not> contains flags ABSTIME then
              bind (on_world (sched_sleep H (unat timeout))) (\<lambda>_.
              bind (write_event events \<lparr>ev_userdata = userdata, ev_error = ESuccess, ev_type = EvClock,
                      ev_nbytes = 0, ev_flags = 0\<rparr>) (\<lambda>_. ret 1))
            else poll_wait H subs events nsubscriptions
        | _ \<Rightarrow> poll_wait H subs events nsubscriptions)
      else poll_wait H subs events nsubscriptions)"

end
