(* ===== verification/WASI_Frames.thy ===== *)
theory WASI_Frames
  imports WASI_Poll
begin

text \<open>
  What the WASI calls leave alone. A relation between the states before and after a call that is
  reflexive and transitive carries over from the parts of a call to the whole; the locale
  \<open>act_frame\<close> proves this once. It is interpreted for the relations used here: only the world changes
  (\<open>same_but_world\<close>), memory changes inside one area only (\<open>confined\<close>), the context is left alone
  (\<open>still\<close>), the configuration and the shape of memory stay (\<open>keeps\<close>). The step relation
  \<open>wasi_step\<close> collects all calls.
\<close>

section \<open>Frames\<close>

definition frames :: "('s \<Rightarrow> 's \<Rightarrow> bool) \<Rightarrow> ('s, 'a) act \<Rightarrow> bool" where
  "frames R h \<longleftrightarrow> (\<forall>s. R s (snd (h s)))"

text \<open>
  A relation between the states before and after is kept by calls built from calls that keep it,
  if it is reflexive and transitive.
\<close>

locale act_frame =
  fixes R :: "'s \<Rightarrow> 's \<Rightarrow> bool"
  assumes R_refl: "R s s"
    and R_trans: "R s t \<Longrightarrow> R t u \<Longrightarrow> R s u"
begin

lemma frames_ret: "frames R (ret x)"
  by (simp add: frames_def ret_def R_refl)

lemma frames_throw: "frames R (throw e)"
  by (simp add: frames_def throw_def R_refl)

lemma frames_lift: "frames R (lift r)"
  by (simp add: frames_def lift_def R_refl)

lemma frames_lift_guest: "frames R (lift_guest r)"
  by (simp add: lift_guest_def frames_lift)

lemma frames_gets: "frames R (gets f)"
  by (simp add: frames_def gets_def R_refl)

lemma frames_look: "frames R (\<lambda>s. (f s, s))"
  by (simp add: frames_def R_refl)

lemma frames_bind:
  assumes "frames R m" and "\<And>x. frames R (f x)"
  shows "frames R (bind m f)"
  unfolding frames_def
proof
  fix s
  obtain r s1 where m: "m s = (r, s1)" by (cases "m s")
  with assms(1) have "R s s1" by (metis frames_def snd_conv)
  moreover have "R s1 (snd (f x s1))" for x using assms(2) by (simp add: frames_def)
  ultimately show "R s (snd (bind m f s))" by (cases r) (auto simp: bind_def m intro: R_trans)
qed

lemma frames_bind_lift:
  "(\<And>x. r = Ok x \<Longrightarrow> frames R (f x)) \<Longrightarrow> frames R (bind (lift r) f)"
  by (cases r) (simp_all add: frames_def bind_def lift_def R_refl)

lemma frames_bind_lift_guest:
  "(\<And>x. r = Ok x \<Longrightarrow> frames R (f x)) \<Longrightarrow> frames R (bind (lift_guest r) f)"
  by (cases r) (simp_all add: frames_def bind_def lift_def lift_guest_def R_refl)

lemma frames_if: "(c \<Longrightarrow> frames R a) \<Longrightarrow> (\<not> c \<Longrightarrow> frames R b) \<Longrightarrow> frames R (if c then a else b)"
  by simp

lemma frames_case_option:
  "(z = None \<Longrightarrow> frames R a) \<Longrightarrow> (\<And>x. z = Some x \<Longrightarrow> frames R (f x)) \<Longrightarrow>
   frames R (case z of None \<Rightarrow> a | Some x \<Rightarrow> f x)"
  by (simp split: option.splits)

lemma frames_case_prod: "(\<And>x y. z = (x, y) \<Longrightarrow> frames R (f x y)) \<Longrightarrow> frames R (case z of (x, y) \<Rightarrow> f x y)"
  by (simp split: prod.splits)

lemma frames_all: "(\<And>s. R s (snd (h s))) \<Longrightarrow> frames R h"
  by (simp add: frames_def)

lemma frames_at: "frames R h \<Longrightarrow> R s (snd (h s))"
  by (simp add: frames_def)

lemmas at_bind = frames_bind [THEN frames_at]
lemmas at_throw = frames_throw [THEN frames_at]
lemmas at_ret = frames_ret [THEN frames_at]

lemmas frames_intros = frames_ret frames_throw frames_lift frames_lift_guest frames_gets frames_look
  frames_bind frames_if frames_case_option frames_case_prod

lemmas at_lift = frames_lift [THEN frames_at]

lemmas at_intros = at_bind at_throw at_ret at_lift

end

section \<open>What every call keeps\<close>

definition keeps :: "('w, 'f, 'd) wasi_state \<Rightarrow> ('w, 'f, 'd) wasi_state \<Rightarrow> bool" where
  "keeps s s' \<longleftrightarrow>
     args (ctx s') = args (ctx s) \<and> env (ctx s') = env (ctx s) \<and> clocks (ctx s') = clocks (ctx s) \<and>
     ctx_cloned (ctx s') = ctx_cloned (ctx s) \<and>
     (wasi_table_invar (table (ctx s)) \<longrightarrow> wasi_table_invar (table (ctx s'))) \<and>
     same_shape (mem s) (mem s')"

lemma same_shape_refl [simp]: "same_shape m m"
  by (simp add: same_shape_def)

lemma same_shape_trans: "same_shape a b \<Longrightarrow> same_shape b c \<Longrightarrow> same_shape a c"
  by (simp add: same_shape_def)

interpretation keep: act_frame "keeps :: ('w, 'f, 'd) wasi_state \<Rightarrow> _"
  by unfold_locales (auto simp: keeps_def intro: same_shape_trans)

text \<open>Calls that may only write into memory.\<close>

definition still :: "('w, 'f, 'd) wasi_state \<Rightarrow> ('w, 'f, 'd) wasi_state \<Rightarrow> bool" where
  "still s s' \<longleftrightarrow> ctx s' = ctx s \<and> same_shape (mem s) (mem s')"

interpretation stl: act_frame "still :: ('w, 'f, 'd) wasi_state \<Rightarrow> _"
  by unfold_locales (auto simp: still_def intro: same_shape_trans)

lemma still_keeps: "still s t \<Longrightarrow> keeps s t"
  by (simp add: still_def keeps_def)

lemma frames_still_keeps: "frames still h \<Longrightarrow> frames keeps h"
  by (simp add: frames_def still_keeps)

text \<open>Calls that leave the descriptors and the memory alone: only the world may change.\<close>

definition same_but_world :: "('w, 'f, 'd) wasi_state \<Rightarrow> ('w, 'f, 'd) wasi_state \<Rightarrow> bool" where
  "same_but_world s s' \<longleftrightarrow> ctx s' = ctx s \<and> mem s' = mem s"

interpretation world: act_frame "same_but_world :: ('w, 'f, 'd) wasi_state \<Rightarrow> _"
  by unfold_locales (auto simp: same_but_world_def)

text \<open>The contract of the host: a buffer handed to a file or to the generator keeps its length.\<close>

definition host_ok :: "('w, 'f, 'd) wasi_host \<Rightarrow> bool" where
  "host_ok H \<longleftrightarrow>
     (\<forall>f bufs w. map length (fst (snd (read_vectored (files H) f bufs w))) = map length bufs) \<and>
     (\<forall>f bufs off w. map length (fst (snd (read_vectored_at (files H) f bufs off w))) = map length bufs) \<and>
     (\<forall>f bufs fl w. map length (fst (snd (sock_recv (files H) f bufs fl w))) = map length bufs) \<and>
     (\<forall>buf w. length (fst (snd (try_fill_bytes H buf w))) = length buf)"

lemma frames_on_world_same: "frames same_but_world (on_world a)"
  by (simp add: frames_def on_world_def same_but_world_def split_def Let_def)

lemma frames_read_mem_same: "frames same_but_world (read_mem a)"
  by (simp add: frames_def read_mem_def same_but_world_def)

lemma frames_the_file_same: "frames same_but_world (the_file fd)"
  by (simp add: frames_def the_file_def same_but_world_def)

lemma frames_the_dir_same: "frames same_but_world (the_dir fd)"
  by (simp add: frames_def the_dir_def same_but_world_def)

lemma frames_world_still: "frames same_but_world h \<Longrightarrow> frames still h"
  by (simp add: frames_def same_but_world_def still_def)

section \<open>Calls that leave the descriptors and the memory alone\<close>

lemma frames_read_str_same: "frames same_but_world (read_str p)"
  by (simp add: read_str_def frames_read_mem_same)

lemmas world_leaves = frames_on_world_same frames_read_mem_same frames_the_file_same
  frames_the_dir_same frames_read_str_same

lemmas world_rules = world.frames_intros world_leaves

lemmas world_calls = fd_advise_def fd_allocate_def fd_datasync_def fd_filestat_set_size_def
  fd_write_def fd_pwrite_def fd_prestat_get_def fd_seek_def fd_sync_def fd_tell_def
  path_create_directory_def path_filestat_get_def path_filestat_set_times_def path_link_def
  path_remove_directory_def path_rename_def path_symlink_def path_unlink_file_def proc_raise_def
  sched_yield_def sock_send_call_def sock_shutdown_call_def args_sizes_get_def environ_sizes_get_def

lemma frames_world_calls:
  "frames same_but_world (fd_advise H fd off len adv)"
  "frames same_but_world (fd_allocate fd off len)"
  "frames same_but_world (fd_datasync H fd)"
  "frames same_but_world (fd_filestat_set_size H fd sz)"
  "frames same_but_world (fd_write H fd ciovs)"
  "frames same_but_world (fd_pwrite H fd ciovs off)"
  "frames same_but_world (fd_prestat_get fd)"
  "frames same_but_world (fd_seek H fd off' wh)"
  "frames same_but_world (fd_sync H fd)"
  "frames same_but_world (fd_tell H fd)"
  "frames same_but_world (sched_yield H)"
  "frames same_but_world (proc_raise sig)"
  "frames same_but_world (sock_send_call H fd ciovs fl)"
  "frames same_but_world (sock_shutdown_call H fd how)"
  "frames same_but_world args_sizes_get"
  "frames same_but_world environ_sizes_get"
  by (auto simp: world_calls intro!: world_rules split: whence.splits)

lemma frames_world_path_calls:
  "frames same_but_world (path_create_directory H fd path)"
  "frames same_but_world (path_filestat_get H fd flags path)"
  "frames same_but_world (path_filestat_set_times H fd flags path at mt fst_flags)"
  "frames same_but_world (path_link H fd flags path fd' path')"
  "frames same_but_world (path_remove_directory H fd path)"
  "frames same_but_world (path_rename H fd path fd' path')"
  "frames same_but_world (path_symlink H path fd path')"
  "frames same_but_world (path_unlink_file H fd path)"
  by (auto simp: world_calls intro!: world_rules)

lemma frames_world_state_calls:
  "frames same_but_world (clock_res_get H clk)"
  "frames same_but_world (clock_time_get H clk pr)"
  "frames same_but_world (fd_fdstat_get H fd)"
  "frames same_but_world (fd_fdstat_set_rights fd bs inh)"
  "frames same_but_world (fd_filestat_get H fd)"
  "frames same_but_world (fd_filestat_set_times H fd at mt fst_flags)"
  by (auto simp: clock_res_get_def clock_time_get_def fd_fdstat_get_def fd_fdstat_set_rights_def
      fd_filestat_get_def fd_filestat_set_times_def
      intro!: world.frames_all world.at_intros world_rules split: clockid.splits)

section \<open>Calls that write into a part of the memory\<close>

definition confined :: "nat \<Rightarrow> nat \<Rightarrow> ('w, 'f, 'd) wasi_state \<Rightarrow> ('w, 'f, 'd) wasi_state \<Rightarrow> bool" where
  "confined lo hi s s' \<longleftrightarrow> ctx s' = ctx s \<and> same_outside (mem s) (mem s') lo hi"

interpretation conf: act_frame "confined lo hi :: ('w, 'f, 'd) wasi_state \<Rightarrow> _" for lo hi
  by unfold_locales (auto simp: confined_def intro: same_outside_trans)

lemma same_but_world_confined: "same_but_world s s' \<Longrightarrow> confined lo hi s s'"
  by (simp add: same_but_world_def confined_def)

lemma frames_world_confined: "frames same_but_world h \<Longrightarrow> frames (confined lo hi) h"
  by (auto simp: frames_def intro: same_but_world_confined)

lemma confined_still: "confined lo hi s s' \<Longrightarrow> still s s'"
  by (simp add: confined_def still_def same_outside_def)

lemma frames_confined_still: "frames (confined lo hi) h \<Longrightarrow> frames still h"
  by (auto simp: frames_def intro: confined_still)

lemma frames_on_mem:
  assumes "\<And>m r m'. a m = (r, m') \<Longrightarrow> same_outside m m' lo hi"
  shows "frames (confined lo hi) (on_mem a)"
proof -
  have "same_outside m (snd (a m)) lo hi" for m using assms [of m] by (cases "a m") simp
  then show ?thesis by (simp add: frames_def on_mem_def confined_def split_def Let_def)
qed

lemma copy_from_slice_outside:
  assumes "copy_from_slice u8_prim m src p = (r, m')"
  shows "same_outside m m' (unat (fst (offset p))) (unat (fst (offset p)) + unat (snd (offset p)))"
proof (cases "r = Ok () \<and> src \<noteq> []")
  case True
  with assms have "m' = with_bytes m (overwrite (mem_bytes m) (unat (fst (offset p))) src)"
    and "unat (fst (offset p)) + length src \<le> length (mem_bytes m)" "length src = unat (snd (offset p))"
    by (auto simp: u8.copy_from_slice_Ok_iff in_bounds_def u8_bytes)
  then show ?thesis using same_outside_overwrite [of "unat (fst (offset p))" src m] by simp
next
  case False
  with assms have "m' = m"
    by (auto simp: copy_from_slice_def split: if_splits outcome.splits prod.splits)
  then show ?thesis by simp
qed

lemma frames_copy:
  assumes "lo \<le> unat (offset p)" "unat (offset p) + unat n \<le> hi"
  shows "frames (confined lo hi) (on_mem (\<lambda>m. copy_from_slice u8_prim m src (as_array p n)))"
proof (rule frames_on_mem)
  fix m r m'
  assume "copy_from_slice u8_prim m src (as_array p n) = (r, m')"
  from copy_from_slice_outside [OF this] assms show "same_outside m m' lo hi"
    by (auto simp: as_array_def elim: same_outside_mono)
qed

lemmas conf_rules = conf.frames_intros world_leaves [THEN frames_world_confined]

lemma frames_prestat_dir_name:
  "frames (confined (unat (offset path)) (unat (offset path) + unat path_max_len)) (fd_prestat_dir_name fd path path_max_len)"
proof -
  have "unat (of_nat (length bs) :: u32) \<le> unat path_max_len" if "\<not> unat path_max_len < length bs" for bs :: "u8 list"
    using that unat_u32_lt [of path_max_len] by (simp add: unat_of_nat_u32)
  then show ?thesis
    by (auto simp: fd_prestat_dir_name_def intro!: conf_rules frames_copy)
qed

lemma frames_readlink:
  "frames (confined (unat (offset buf)) (unat (offset buf) + unat buf_len)) (path_readlink H fd path buf buf_len)"
proof -
  have "unat (of_nat (min n (unat buf_len)) :: u32) \<le> unat buf_len" for n
    using unat_u32_lt [of buf_len] by (simp add: unat_of_nat_u32)
  then show ?thesis
    by (auto simp: path_readlink_def Let_def intro!: conf_rules frames_copy)
qed

text \<open>The position of \<^verbatim>\<open>fd_readdir\<close> in its buffer: the pointer is past the bytes used.\<close>

definition cursor_ok :: "nat \<Rightarrow> u32 \<Rightarrow> sized_ptr \<Rightarrow> u32 \<Rightarrow> bool" where
  "cursor_ok lo buf_len buf u \<longleftrightarrow> unat (offset buf) = lo + unat u \<and> u \<le> buf_len"

lemma cursor_add:
  assumes "cursor_ok lo buf_len buf u"
  shows "unat (u + min n (buf_len - u)) = unat u + unat (min n (buf_len - u))"
    and "unat u + unat (min n (buf_len - u)) \<le> unat buf_len"
proof -
  show le: "unat u + unat (min n (buf_len - u)) \<le> unat buf_len"
    using assms by (auto simp: cursor_ok_def unat_min_u32 unat_diff_u32 word_le_nat_alt)
  show "unat (u + min n (buf_len - u)) = unat u + unat (min n (buf_len - u))"
    using le unat_u32_lt [of buf_len] by (subst unat_plus_simple [THEN iffD1]) (simp_all add: word_le_nat_alt unat_word_ariths)
qed

lemma cursor_advance:
  assumes "cursor_ok lo buf_len buf u" and "ptr_add 1 buf (min n (buf_len - u)) = Ok buf'"
  shows "cursor_ok lo buf_len buf' (u + min n (buf_len - u))"
  using assms(1) cursor_add [OF assms(1), of n] ptr_add_Ok_offset [OF assms(2)]
  by (simp add: cursor_ok_def word_le_nat_alt)

lemma cursor_copy:
  assumes "cursor_ok lo buf_len buf u"
  shows "frames (confined lo (lo + unat buf_len))
    (on_mem (\<lambda>m. copy_from_slice u8_prim m src (as_array buf (min n (buf_len - u)))))"
  by (rule frames_copy) (use assms cursor_add [OF assms, of n] in \<open>auto simp: cursor_ok_def\<close>)

lemma frames_readdir_loop:
  "cursor_ok lo buf_len buf bufused \<Longrightarrow>
   frames (confined lo (lo + unat buf_len)) (readdir_loop pad es buf buf_len bufused)"
proof (induction es arbitrary: buf bufused)
  case Nil
  then show ?case by (simp add: conf_rules)
next
  case (Cons entity rest)
  then show ?case
    unfolding readdir_loop.simps Let_def
    by (intro conf.frames_bind_lift conf.frames_bind_lift_guest conf.frames_bind conf.frames_if
        conf.frames_ret conf.frames_lift cursor_copy) (auto intro: cursor_advance)
qed

lemma frames_readdir:
  "frames (confined (unat (offset buf)) (unat (offset buf) + unat buf_len)) (fd_readdir H fd buf buf_len cookie)"
  unfolding fd_readdir_def
  by (intro conf_rules frames_readdir_loop) (simp add: cursor_ok_def)

section \<open>Calls that let the host fill a part of the memory\<close>

lemma confined_world: "confined lo hi (s\<lparr>world := w\<rparr>) t \<Longrightarrow> confined lo hi s t"
  by (simp add: confined_def)

lemma frames_on_world_buf:
  assumes "\<And>r b. frames (confined lo hi) (k r b)"
  shows "frames (confined lo hi) (on_world_buf a k)"
  using assms by (auto simp: frames_def on_world_buf_def split_def Let_def intro: confined_world)

lemma frames_fill:
  fixes k :: "('a, wasi_error) outcome \<Rightarrow> 'b \<Rightarrow> (('w, 'f, 'd) wasi_state, 'c) act"
  assumes len: "\<And>bs w. length (g (fst (snd (a bs w)))) = length bs"
    and k: "\<And>r b. frames same_but_world (k r b)"
  shows "frames (confined lo hi) (\<lambda>s. let slice = take (hi - lo) (drop lo (mem_bytes (mem s)))
    in on_world_buf (a slice) (\<lambda>r b. bind (fill_slice lo (g b)) (\<lambda>_. k r b)) s)"
proof (rule conf.frames_all)
  fix s :: "('w, 'f, 'd) wasi_state"
  let ?bs = "mem_bytes (mem s)"
  let ?slice = "take (hi - lo) (drop lo ?bs)"
  define b where "b = fst (snd (a ?slice (world s)))"
  have l: "length (g b) = min (hi - lo) (length ?bs - lo)" using len [of ?slice "world s"] by (simp add: b_def min.commute)
  have "same_outside (mem s) (with_bytes (mem s) (overwrite ?bs lo (g b))) lo hi"
  proof (cases "g b = []")
    case False
    then have "0 < length (g b)" by simp
    with l have "lo + length (g b) \<le> length ?bs" "lo + length (g b) \<le> hi" by linarith+
    then show ?thesis by (blast intro: same_outside_mono [OF same_outside_overwrite])
  qed (cases "mem s"; simp add: same_outside_def same_shape_def)
  then have "confined lo hi s (s\<lparr>world := w, mem := with_bytes (mem s) (overwrite ?bs lo (g b))\<rparr>)" for w
    by (simp add: confined_def)
  moreover have "confined lo hi t (snd (k r b t))" for r t
    using k by (simp add: frames_def same_but_world_confined)
  ultimately show "confined lo hi s (snd (let slice = ?slice
    in on_world_buf (a slice) (\<lambda>r b. bind (fill_slice lo (g b)) (\<lambda>_. k r b)) s))"
    by (simp add: on_world_buf_def split_def Let_def bind_def fill_slice_def flip: b_def) (metis conf.R_trans)
qed

lemma get_range_SomeD:
  assumes "get_range 1 p lo hi = Ok (Some q)"
  shows "unat (fst (offset q)) = unat (fst (offset p)) + unat lo"
    and "unat (snd (offset q)) = unat hi - unat lo" "lo \<le> hi" "unat hi \<le> unat (snd (offset p))"
proof -
  have le: "lo \<le> hi" "hi \<le> ptr_len p" and ad: "ptr_add 1 (as_ptr p) lo = Ok (GuestPtr (fst (offset q)))"
    and n: "snd (offset q) = hi - lo"
    using assms by (auto simp: get_range_def map_ok_Ok_iff unwrap_Ok_iff as_array_def guest_ptr.expand
        split: if_splits)
  show "unat (fst (offset q)) = unat (fst (offset p)) + unat lo"
    using ptr_add_Ok_offset [OF ad] by (simp add: as_ptr_def offset_base_def)
  show "unat (snd (offset q)) = unat hi - unat lo" "lo \<le> hi" using n le by (simp_all add: unat_diff_u32)
  show "unat hi \<le> unat (snd (offset p))" using le by (simp add: ptr_len_def word_le_nat_alt)
qed

lemma frames_copy_range:
  assumes "get_range 1 p lo hi = Ok (Some q)"
  shows "frames (confined (unat (fst (offset p))) (unat (fst (offset p)) + unat (snd (offset p))))
    (on_mem (\<lambda>m. copy_from_slice u8_prim m src q))"
proof (rule frames_on_mem)
  fix m r m'
  assume "copy_from_slice u8_prim m src q = (r, m')"
  from copy_from_slice_outside [OF this] get_range_SomeD [OF assms]
  show "same_outside m m' (unat (fst (offset p))) (unat (fst (offset p)) + unat (snd (offset p)))"
    by (auto simp: word_le_nat_alt elim!: same_outside_mono)
qed

lemma frames_copy_read_bytes:
  "frames (confined (unat (fst (offset iov))) (unat (fst (offset iov)) + unat (snd (offset iov))))
    (copy_read_bytes buffer iov n)"
  unfolding copy_read_bytes_def
  by (intro conf.frames_bind_lift conf.frames_bind_lift_guest)
    (auto intro!: conf_rules frames_copy_range)

lemma as_slice_mut_range:
  "as_slice_mut m iov = Ok (Some (lo, hi)) \<Longrightarrow>
   lo = unat (fst (offset iov)) \<and> hi = unat (fst (offset iov)) + unat (snd (offset iov))"
  by (auto simp: as_slice_mut_def bind_ok_Ok_iff validate_range_Ok_iff split: guest_memory.splits)

text \<open>The area of memory that a reading call may fill.\<close>

definition read_area :: "guest_memory \<Rightarrow> slice_ptr list \<Rightarrow> nat \<times> nat" where
  "read_area m iovs =
     (case (if is_shared_memory m then iovs else filter (\<lambda>iov. 0 < ptr_len iov) iovs) of
        [] \<Rightarrow> (0, 0)
      | iov # _ \<Rightarrow> (unat (fst (offset iov)), unat (fst (offset iov)) + unat (snd (offset iov))))"

lemma at_filled:
  fixes k :: "('a, wasi_error) outcome \<Rightarrow> 'b \<Rightarrow> (('w, 'f, 'd) wasi_state, 'c) act"
  assumes "\<And>bs w. length (g (fst (snd (a bs w)))) = length bs"
    and "\<And>r b. frames same_but_world (k r b)"
    and "lo' = unat (fst (offset iov))" "hi' = unat (fst (offset iov)) + unat (snd (offset iov))"
  shows "confined lo' hi' s (snd (bind (read_mem (\<lambda>m. as_slice_mut m iov)) (\<lambda>sl. case sl of
      None \<Rightarrow> lift Panic
    | Some (lo, hi) \<Rightarrow> (\<lambda>s. let slice = take (hi - lo) (drop lo (mem_bytes (mem s)))
        in on_world_buf (a slice) (\<lambda>r b. bind (fill_slice lo (g b)) (\<lambda>_. k r b)) s)) s))"
    (is "confined lo' hi' s (snd (bind _ ?k s))")
proof -
  have "frames (confined lo' hi') (?k sl)" if "as_slice_mut (mem s) iov = Ok sl" for sl
  proof (cases sl)
    case (Some p)
    with that assms(3,4) have "p = (lo', hi')" by (cases p) (auto dest: as_slice_mut_range)
    with frames_fill [where a = a and g = g and k = k, OF assms(1,2)] show ?thesis by (simp add: Some)
  qed (simp add: conf.frames_lift)
  then show ?thesis
    by (cases "as_slice_mut (mem s) iov")
      (simp_all add: bind_def read_mem_def conf.R_refl frames_def)
qed

lemma read_with_confined:
  assumes len: "\<And>bufs w. map length (fst (snd (rd bufs w))) = map length bufs"
    and area: "read_area (mem s) iovs = (lo, hi)"
  shows "confined lo hi s (snd (read_with rd iovs s))"
proof (cases "is_shared_memory (mem s)")
  case True
  note leaves = conf.frames_bind conf.frames_lift frames_on_world_buf frames_copy_read_bytes
  show ?thesis
  proof (cases iovs)
    case (Cons iov rest)
    with True area have "lo = unat (fst (offset iov))" "hi = unat (fst (offset iov)) + unat (snd (offset iov))"
      by (auto simp: read_area_def)
    with True show ?thesis
      by (simp add: read_with_def Cons Let_def) (intro conf.frames_at leaves)
  qed (simp add: read_with_def True conf.at_intros)
next
  case False
  show ?thesis
  proof (cases "filter (\<lambda>iov. 0 < ptr_len iov) iovs")
    case (Cons iov rest)
    with False area have a: "lo = unat (fst (offset iov))" "hi = unat (fst (offset iov)) + unat (snd (offset iov))"
      by (auto simp: read_area_def)
    have l: "length (concat (fst (snd (rd [bs] w)))) = length bs" for bs w
      using len [of "[bs]" w] by (auto simp: length_concat)
    show ?thesis
      unfolding read_with_def
      by (simp only: False if_False Cons list.case) (rule at_filled [OF l _ a], intro world_rules)
  qed (simp add: read_with_def False conf.at_intros)
qed

section \<open>Randomness\<close>

lemma host_ok_fill: "host_ok H \<Longrightarrow> length (fst (snd (fill_random H bs w))) = length bs"
  by (simp add: host_ok_def fill_random_def split_def Let_def)

lemma random_step:
  fixes copied :: u32
  assumes "copied < ptr_len buf"
  defines "len \<equiv> min (ptr_len buf - copied) (of_nat MAX_SHARED_BUFFER_SIZE)"
  shows "unat (copied + len) = unat copied + min (unat (ptr_len buf) - unat copied) MAX_SHARED_BUFFER_SIZE"
    and "unat len = min (unat (ptr_len buf) - unat copied) MAX_SHARED_BUFFER_SIZE"
    and "copied \<le> copied + len" "copied + len \<le> ptr_len buf"
proof -
  have l: "unat len = min (unat (ptr_len buf) - unat copied) MAX_SHARED_BUFFER_SIZE"
    using assms(1) by (simp add: len_def unat_min_u32 unat_diff_u32 unat_of_nat_u32 MAX_SHARED_BUFFER_SIZE_def)
  then have le: "unat copied + unat len \<le> unat (ptr_len buf)"
    using assms(1) by (auto simp: word_less_nat_alt)
  then have s: "unat (copied + len) = unat copied + unat len"
    using unat_u32_lt [of "ptr_len buf"] by (simp add: unat_word_ariths)
  show "unat (copied + len) = unat copied + min (unat (ptr_len buf) - unat copied) MAX_SHARED_BUFFER_SIZE"
    using s l by simp
  show "unat len = min (unat (ptr_len buf) - unat copied) MAX_SHARED_BUFFER_SIZE" by (rule l)
  show "copied \<le> copied + len" "copied + len \<le> ptr_len buf" using s le by (simp_all add: word_le_nat_alt)
qed

lemma random_loop_total:
  assumes "unat (ptr_len buf) - unat copied \<le> MAX_SHARED_BUFFER_SIZE * fuel"
    and "unat (ptr_len buf) - unat copied \<le> MAX_SHARED_BUFFER_SIZE * fuel'"
  shows "random_loop H fuel buf copied = random_loop H fuel' buf copied"
  using assms
proof (induction fuel arbitrary: fuel' copied)
  case 0
  then have "\<not> copied < ptr_len buf" by (simp add: word_less_nat_alt)
  then show ?case by (simp add: random_loop.simps fun_eq_iff)
next
  case (Suc fuel)
  show ?case
  proof (cases "copied < ptr_len buf")
    case True
    then have "0 < unat (ptr_len buf) - unat copied" by (simp add: word_less_nat_alt)
    with Suc.prems(2) obtain n where n: "fuel' = Suc n" by (cases fuel') auto
    let ?len = "min (ptr_len buf - copied) (of_nat MAX_SHARED_BUFFER_SIZE)"
    have "unat (ptr_len buf) - unat (copied + ?len) \<le> MAX_SHARED_BUFFER_SIZE * k"
      if "unat (ptr_len buf) - unat copied \<le> MAX_SHARED_BUFFER_SIZE * Suc k" for k
      using that random_step(1) [OF True] by (auto simp: min_def)
    with Suc n have "random_loop H fuel buf (copied + ?len) = random_loop H n buf (copied + ?len)" by blast
    with True n show ?thesis by (intro ext) (simp add: random_loop.simps [of H _ buf copied] Let_def)
  qed (simp add: random_loop.simps fun_eq_iff)
qed

lemma frames_random_loop:
  "frames (confined (unat (fst (offset buf))) (unat (fst (offset buf)) + unat (snd (offset buf))))
     (random_loop H fuel buf copied)"
proof (induction fuel arbitrary: copied)
  case 0
  show ?case by (simp add: random_loop.simps frames_def conf.R_refl ret_def)
next
  case (Suc fuel)
  note rules = conf.frames_bind_lift conf.frames_bind_lift_guest conf.frames_bind frames_on_world_buf
    conf.frames_case_option conf.frames_lift
  have "frames (confined (unat (fst (offset buf))) (unat (fst (offset buf)) + unat (snd (offset buf))))
    (on_world_buf (fill_random H tmp) (\<lambda>r tmp.
       bind (lift r) (\<lambda>_.
       bind (lift_guest (get_range 1 buf copied (copied + len))) (\<lambda>dest.
       case dest of
         None \<Rightarrow> lift Panic
       | Some dest \<Rightarrow>
           bind (on_mem (\<lambda>m. copy_from_slice u8_prim m tmp dest)) (\<lambda>_.
             random_loop H fuel buf (copied + len))))))" for tmp len
    by (intro rules) (auto intro: Suc frames_copy_range)
  then show ?case by (simp add: random_loop.simps frames_def conf.R_refl ret_def Let_def)
qed

lemma random_get_confined:
  assumes "host_ok H"
  shows "frames (confined (unat (offset buf)) (unat (offset buf) + unat n)) (random_get H buf n)"
proof (rule conf.frames_all)
  fix s :: "('a, 'b, 'c) wasi_state"
  show "confined (unat (offset buf)) (unat (offset buf) + unat n) s (snd (random_get H buf n s))"
  proof (cases "is_shared_memory (mem s)")
    case True
    with conf.frames_at [OF frames_random_loop [where buf = "as_array buf n"]] show ?thesis
      by (simp add: random_get_def Let_def as_array_def)
  next
    case False
    show ?thesis
      unfolding random_get_def Let_def [of "as_array buf n"]
      by (simp only: False if_False)
        (rule at_filled [where g = "\<lambda>x. x", OF host_ok_fill [OF assms]]; (intro world_rules)?; simp add: as_array_def)
  qed
qed

section \<open>Reading and receiving\<close>

lemma one_buffer:
  assumes "map length bufs' = map length [bs]"
  shows "length (concat bufs') = length bs"
  using assms by (auto simp: length_concat)

lemma recv_with_confined:
  assumes len: "\<And>bufs w. map length (fst (snd (recv bufs w))) = map length bufs"
    and area: "read_area (mem s) iovs = (lo, hi)"
  shows "confined lo hi s (snd (recv_with recv iovs s))"
proof (cases "is_shared_memory (mem s)")
  case True
  note leaves = conf.frames_bind conf.frames_lift conf.frames_ret frames_on_world_buf frames_copy_read_bytes
    conf.frames_case_prod
  show ?thesis
  proof (cases iovs)
    case (Cons iov rest)
    with True area have "lo = unat (fst (offset iov))" "hi = unat (fst (offset iov)) + unat (snd (offset iov))"
      by (auto simp: read_area_def)
    with True show ?thesis
      by (simp add: recv_with_def Cons Let_def) (intro conf.frames_at leaves)
  qed (simp add: recv_with_def True conf.at_intros)
next
  case False
  show ?thesis
  proof (cases "filter (\<lambda>iov. 0 < ptr_len iov) iovs")
    case (Cons iov rest)
    with False area have a: "lo = unat (fst (offset iov))" "hi = unat (fst (offset iov)) + unat (snd (offset iov))"
      by (auto simp: read_area_def)
    show ?thesis
      unfolding recv_with_def
      by (simp only: False if_False Cons list.case)
        (rule at_filled [OF one_buffer [OF len] _ a], intro world_rules)
  next
    case Nil
    then show ?thesis
      by (simp add: recv_with_def False) (intro conf.frames_at conf.frames_lift frames_on_world_buf)
  qed
qed

lemma frames_still_confined:
  assumes "\<And>s lo hi. read_area (mem s) iovs = (lo, hi) \<Longrightarrow> confined lo hi s (snd (h s))"
  shows "frames still h"
  using assms by (intro stl.frames_all) (metis confined_still prod.exhaust)

lemmas still_rules = stl.frames_intros world_leaves [THEN frames_world_still]

lemma read_calls_still:
  assumes "host_ok H"
  shows "frames still (fd_read H fd iovs)" "frames still (fd_pread H fd iovs off)"
    "frames still (sock_recv_call H fd iovs ri_flags)"
proof -
  have rd: "frames still (read_with (read_vectored (files H) f) iovs)" for f iovs
    by (rule frames_still_confined [OF read_with_confined]) (use assms in \<open>simp_all add: host_ok_def\<close>)
  have pr: "frames still (read_with (\<lambda>bufs. read_vectored_at (files H) f bufs off) iovs)" for f iovs
    by (rule frames_still_confined [OF read_with_confined]) (use assms in \<open>simp_all add: host_ok_def\<close>)
  have rc: "frames still (recv_with (\<lambda>bufs. sock_recv (files H) f bufs fl) iovs)" for f fl iovs
    by (rule frames_still_confined [OF recv_with_confined]) (use assms in \<open>simp_all add: host_ok_def\<close>)
  show "frames still (fd_read H fd iovs)" "frames still (fd_pread H fd iovs off)"
    "frames still (sock_recv_call H fd iovs ri_flags)"
    unfolding fd_read_def fd_pread_def sock_recv_call_def by (intro still_rules rd pr rc)+
qed

section \<open>Events\<close>

context guest_type_laws
begin

lemma write_at_confined:
  assumes "lo \<le> unat (offset p) + unat off" "unat (offset p) + unat off + unat (gt_size T) \<le> hi"
  shows "frames (confined lo hi) (write_at T p off v)"
  unfolding write_at_def
proof (intro conf.frames_bind_lift_guest frames_on_mem)
  fix q m r m'
  assume "ptr_add 1 p off = Ok q" and w: "gt_write T m q v = (r, m')"
  then have "unat (offset q) = unat (offset p) + unat off" by (auto dest!: ptr_add_Ok_offset)
  with assms write_frame [OF w] show "same_outside m m' lo hi" by (auto elim!: same_outside_mono)
qed

end

lemmas int_write_at_confined = u64.integer.write_at_confined u16.integer.write_at_confined
  u8.integer.write_at_confined

lemma write_event_confined:
  assumes "lo \<le> unat (offset p)" "unat (offset p) + 32 \<le> hi"
  shows "frames (confined lo hi) (write_event p e)"
  unfolding write_event_def
  by (intro conf.frames_bind conf.frames_bind_lift_guest int_write_at_confined)
    (use assms in \<open>auto simp: integer_primitive_def dest!: ptr_add_Ok_offset\<close>)

lemma write_events_confined:
  assumes "\<forall>x p. (x, Ok p) \<in> set es \<longrightarrow> lo \<le> unat (offset p) \<and> unat (offset p) + 32 \<le> hi"
  shows "frames (confined lo hi) (write_events es)"
  using assms
proof (induction es rule: write_events.induct)
  case 1
  show ?case by (simp add: conf.frames_ret)
next
  case (2 result userdata event_elem rest)
  then show ?case
    by (auto intro!: conf.frames_bind conf.frames_bind_lift_guest conf.frames_lift write_event_confined)
qed

lemma events_area:
  assumes "(x, Ok p) \<in> set (zip xs (ptr_iter 32 (as_array events n)))" "unat n \<le> k"
  shows "unat (offset events) \<le> unat (offset p) \<and> unat (offset p) + 32 \<le> unat (offset events) + 32 * k"
proof -
  from assms(1) have "Ok p \<in> set (ptr_iter 32 (as_array events n))" by (rule set_zip_rightD)
  then obtain i where i: "i < unat n" and p: "ptr_add 32 (as_ptr (as_array events n)) (of_nat i) = Ok p"
    by (auto simp: ptr_iter_def ptr_len_def as_array_def)
  have "i < 2 ^ 32" using i unat_u32_lt [of n] by simp
  with ptr_add_Ok_offset [OF p] have "unat (offset p) = unat (offset events) + 32 * i"
    by (simp add: as_ptr_def offset_base_def as_array_def unat_of_nat_u32)
  with i assms(2) show ?thesis by simp
qed

lemma frames_poll_subscribe: "frames same_but_world (poll_subscribe H sub refs)"
  unfolding poll_subscribe_def
  by (cases sub; cases refs)
    (auto simp: read_monotonic_def intro!: world_rules split: subscription_u.splits clockid.splits)

lemma frames_poll_subs: "frames same_but_world (poll_subs H ps refs)"
  by (induction H ps refs rule: poll_subs.induct) (auto intro!: world_rules frames_poll_subscribe)

lemma poll_wait_confined:
  "frames (confined (unat (offset events)) (unat (offset events) + 32 * unat n)) (poll_wait H subs events n)"
proof -
  let ?R = "confined (unat (offset events)) (unat (offset events) + 32 * unat n)"
  have ev: "frames ?R (write_events (zip results (ptr_iter 32 (as_array events (of_nat (length results))))))"
    if "\<not> unat n < length results" for results
  proof (rule write_events_confined, intro allI impI)
    fix x p
    have "unat (of_nat (length results) :: u32) \<le> unat n"
      using that unat_u32_lt [of n] by (simp add: unat_of_nat_u32)
    moreover assume "(x, Ok p) \<in> set (zip results (ptr_iter 32 (as_array events (of_nat (length results)))))"
    ultimately show "unat (offset events) \<le> unat (offset p) \<and> unat (offset p) + 32 \<le> unat (offset events) + 32 * unat n"
      by (metis events_area)
  qed
  show ?thesis
    unfolding poll_wait_def Let_def
    by (intro conf_rules frames_on_world_buf ev frames_world_confined [OF frames_poll_subs]) auto
qed

lemma poll_oneoff_confined:
  "frames (confined (unat (offset events)) (unat (offset events) + 32 * unat n)) (poll_oneoff H subs events n)"
  unfolding poll_oneoff_def
  using poll_wait_confined [of events 1]
  by (auto intro!: conf_rules poll_wait_confined write_event_confined split: subscription_u.splits)

section \<open>Arguments and environment\<close>

interpretation shape: act_frame same_shape
  by unfold_locales (auto intro: same_shape_trans)

lemma frames_shape_write:
  assumes "\<And>m r m'. a m = (r, m') \<Longrightarrow> same_outside m m' lo hi"
  shows "frames same_shape (\<lambda>m. let (r, m') = a m in (map_err error_from_guest r, m'))"
proof -
  have "same_shape m (snd (a m))" for m using assms [of m] by (cases "a m") (simp add: same_outside_def)
  then show ?thesis by (simp add: frames_def split_def Let_def)
qed

lemma frames_write_elem: "frames same_shape (write_elem buffer cursor bytes head)"
  unfolding write_elem_def Let_def [of "of_nat (length bytes)"] mem_write_def
  by (intro shape.frames_intros frames_shape_write)
    (auto intro: copy_from_slice_outside u8.integer.write_frame ptr.write_frame)

lemma frames_write_elems: "frames same_shape (write_elems buffer cursor es)"
  by (induction buffer cursor es rule: write_elems.induct)
    (auto intro!: shape.frames_bind shape.frames_ret frames_write_elem)

lemma frames_args:
  "frames still (args_get argv argv_buf)" "frames still (environ_get environ environ_buf)"
  using shape.frames_at [OF frames_write_elems]
  by (auto simp: frames_def args_get_def environ_get_def write_to_guest_def still_def split_def Let_def)

section \<open>Calls that change the descriptors\<close>

lemmas keep_rules = keep.frames_intros world_leaves [THEN frames_world_still, THEN frames_still_keeps]

lemma frames_on_table:
  assumes "\<And>t r t'. wasi_table_invar t \<Longrightarrow> a t = (r, t') \<Longrightarrow> wasi_table_invar t'"
  shows "frames keeps (on_table a)"
proof -
  have "wasi_table_invar t \<Longrightarrow> wasi_table_invar (snd (a t))" for t using assms [of t] by (cases "a t") simp
  then show ?thesis by (simp add: frames_def on_table_def keeps_def split_def Let_def)
qed

lemma frames_table_ops:
  "frames keeps (on_table (push a))" "frames keeps (on_table (wasi_table_delete P k))"
  "frames keeps (on_table (renumber from to))"
  by (auto intro!: frames_on_table intro: invar_push invar_renumber invar_wasi_table_delete)

lemma table_calls_keep:
  "frames keeps (fd_close fd)" "frames keeps (fd_renumber from to)"
  "frames keeps (fd_fdstat_set_flags H fd flags)"
  "frames keeps (path_open H fd dirflags path oflags base inh fdflags)"
  "frames keeps (sock_accept_call H fd fl)"
proof -
  note rules = keep_rules frames_table_ops
  show "frames keeps (fd_close fd)" "frames keeps (fd_renumber from to)"
    by (auto simp: fd_close_def fd_renumber_def
        intro!: keep.frames_all keep.at_intros rules frames_table_ops [THEN keep.frames_at])
  show "frames keeps (fd_fdstat_set_flags H fd flags)"
    by (auto simp: fd_fdstat_set_flags_def frames_def keeps_def throw_def invar_insert_at split_def Let_def
        split: outcome.splits)
  show "frames keeps (path_open H fd dirflags path oflags base inh fdflags)"
    by (auto simp: path_open_def Let_def intro!: keep.frames_all keep.at_intros rules
        frames_table_ops [THEN keep.frames_at] split: open_result.splits)
  show "frames keeps (sock_accept_call H fd fl)"
    unfolding sock_accept_call_def by (intro rules)
qed


section \<open>Runs\<close>

text \<open>
  A step is one call of the module with arbitrary arguments, whatever its outcome; \<^verbatim>\<open>proc_exit\<close> ends
  the run.
\<close>

inductive wasi_step :: "('w, 'f, 'd) wasi_host \<Rightarrow> ('w, 'f, 'd) wasi_state \<Rightarrow> ('w, 'f, 'd) wasi_state \<Rightarrow> bool"
  for H :: "('w, 'f, 'd) wasi_host" where
  "wasi_step H s (snd (args_get argv argv_buf s))"
| "wasi_step H s (snd (args_sizes_get s))"
| "wasi_step H s (snd (environ_get environ environ_buf s))"
| "wasi_step H s (snd (environ_sizes_get s))"
| "wasi_step H s (snd (clock_res_get H clk s))"
| "wasi_step H s (snd (clock_time_get H clk precision s))"
| "wasi_step H s (snd (fd_advise H fd off len adv s))"
| "wasi_step H s (snd (fd_allocate fd off len s))"
| "wasi_step H s (snd (fd_close fd s))"
| "wasi_step H s (snd (fd_datasync H fd s))"
| "wasi_step H s (snd (fd_fdstat_get H fd s))"
| "wasi_step H s (snd (fd_fdstat_set_flags H fd flags s))"
| "wasi_step H s (snd (fd_fdstat_set_rights fd rbase rinh s))"
| "wasi_step H s (snd (fd_filestat_get H fd s))"
| "wasi_step H s (snd (fd_filestat_set_size H fd sz s))"
| "wasi_step H s (snd (fd_filestat_set_times H fd at mt fst_flags s))"
| "wasi_step H s (snd (fd_read H fd iovs s))"
| "wasi_step H s (snd (fd_pread H fd iovs off s))"
| "wasi_step H s (snd (fd_write H fd iovs s))"
| "wasi_step H s (snd (fd_pwrite H fd iovs off s))"
| "wasi_step H s (snd (fd_prestat_get fd s))"
| "wasi_step H s (snd (fd_prestat_dir_name fd buf len s))"
| "wasi_step H s (snd (fd_renumber fd to s))"
| "wasi_step H s (snd (fd_seek H fd delta wh s))"
| "wasi_step H s (snd (fd_sync H fd s))"
| "wasi_step H s (snd (fd_tell H fd s))"
| "wasi_step H s (snd (fd_readdir H fd buf len cookie s))"
| "wasi_step H s (snd (path_create_directory H fd path s))"
| "wasi_step H s (snd (path_filestat_get H fd lookup path s))"
| "wasi_step H s (snd (path_filestat_set_times H fd lookup path at mt fst_flags s))"
| "wasi_step H s (snd (path_link H fd lookup path fd' path' s))"
| "wasi_step H s (snd (path_open H fd lookup path oflags rbase rinh fdflags s))"
| "wasi_step H s (snd (path_readlink H fd path buf len s))"
| "wasi_step H s (snd (path_remove_directory H fd path s))"
| "wasi_step H s (snd (path_rename H fd path fd' path' s))"
| "wasi_step H s (snd (path_symlink H path fd path' s))"
| "wasi_step H s (snd (path_unlink_file H fd path s))"
| "wasi_step H s (snd (poll_oneoff H subs events n s))"
| "wasi_step H s (snd (proc_raise sig s))"
| "wasi_step H s (snd (sched_yield H s))"
| "wasi_step H s (snd (random_get H buf len s))"
| "wasi_step H s (snd (sock_accept_call H fd fl s))"
| "wasi_step H s (snd (sock_recv_call H fd iovs fl s))"
| "wasi_step H s (snd (sock_send_call H fd iovs fl s))"
| "wasi_step H s (snd (sock_shutdown_call H fd how s))"

text \<open>The calls that may change the context of the module.\<close>

inductive changes_table ::
  "('w, 'f, 'd) wasi_host \<Rightarrow> ('w, 'f, 'd) wasi_state \<Rightarrow> ('w, 'f, 'd) wasi_state \<Rightarrow> bool"
  for H :: "('w, 'f, 'd) wasi_host" where
  "changes_table H s (snd (fd_close fd s))"
| "changes_table H s (snd (fd_renumber fd to s))"
| "changes_table H s (snd (fd_fdstat_set_flags H fd flags s))"
| "changes_table H s (snd (path_open H fd lookup path oflags rbase rinh fdflags s))"
| "changes_table H s (snd (sock_accept_call H fd fl s))"

lemma wasi_step_cases:
  assumes "wasi_step H s t" and "host_ok H"
  shows "still s t \<or> changes_table H s t"
proof -
  note ws = frames_world_calls frames_world_path_calls frames_world_state_calls
  note cs = frames_prestat_dir_name frames_readlink frames_readdir random_get_confined [OF assms(2)]
    poll_oneoff_confined
  note ks = ws [THEN frames_world_still] cs [THEN frames_confined_still] read_calls_still [OF assms(2)]
    frames_args
  show ?thesis
    using assms(1) by cases (simp_all add: ks [THEN stl.frames_at] changes_table.intros)
qed

lemma changes_table_keeps: "changes_table H s t \<Longrightarrow> keeps s t"
  by (erule changes_table.cases) (simp_all add: table_calls_keep [THEN keep.frames_at])

lemma wasi_step_keeps:
  assumes "wasi_step H s t" and "host_ok H"
  shows "keeps s t"
  using wasi_step_cases [OF assms]
  by (auto intro: changes_table_keeps still_keeps)

end
