(* ===== verification/WASI_Calls.thy ===== *)
theory WASI_Calls
  imports WASI_Frames
begin

text \<open>
  Properties of the WASI calls: what any run of a module keeps, which host objects it can reach,
  where calls write, and what reading, writing, opening, listing, polling and random bytes do.
\<close>

section \<open>Lookups in the table\<close>

lemma get_file_Ok_iff: "get_file t fd = Ok e \<longleftrightarrow> fd_lookup t fd = Some (FileEntry e)"
  by (auto simp: get_file_def wasi_table_get_def as_file_def fd_lookup_def split: option.splits any_entry.splits)

lemma get_dir_Ok_iff: "get_dir t fd = Ok e \<longleftrightarrow> fd_lookup t fd = Some (DirEntry e)"
  by (auto simp: get_dir_def wasi_table_get_def as_dir_def fd_lookup_def split: option.splits any_entry.splits)

lemma get_file_mut_Ok_D: "get_file_mut t fd = Ok e \<Longrightarrow> fd_lookup t fd = Some (FileEntry e)"
  by (auto simp: get_file_mut_def wasi_table_get_mut_def as_file_def fd_lookup_def split: option.splits any_entry.splits if_splits)

lemma get_unknown:
  assumes "fd_lookup t fd = None"
  shows "get_file t fd = Err badf" "get_dir t fd = Err badf" "get_file_mut t fd = Err badf"
    "contains_key t fd = False" "table_is P t fd = False"
  using assms
  by (auto simp: get_file_def get_dir_def get_file_mut_def wasi_table_get_def wasi_table_get_mut_def fd_lookup_def
      contains_key_def table_is_def split: option.splits)

lemma push_lookup:
  "fd_lookup (snd (push a t)) k = Some e \<Longrightarrow> fd_lookup t k = Some e \<or> e = arc_deref a"
  using push_Ok [of a t _ "snd (push a t)"] push_not_Ok [of a t "fst (push a t)" "snd (push a t)"]
  by (cases "fst (push a t)") (auto simp: prod_eq_iff split: if_splits)

section \<open>Capabilities\<close>

text \<open>
  The host objects a module can come to hold: those in its table at the start, and what the host
  returns for opening a path in such a directory, accepting on such a socket or setting flags of
  such a file.
\<close>

inductive cap_dir :: "('w, 'f, 'd) wasi_host \<Rightarrow> ('f, 'd) any_entry wasi_table \<Rightarrow> 'd \<Rightarrow> bool"
  and cap_file :: "('w, 'f, 'd) wasi_host \<Rightarrow> ('f, 'd) any_entry wasi_table \<Rightarrow> 'f \<Rightarrow> bool"
  for H :: "('w, 'f, 'd) wasi_host" and t :: "('f, 'd) any_entry wasi_table" where
  dir0: "fd_lookup t k = Some (DirEntry e) \<Longrightarrow> cap_dir H t (entry_dir e)"
| file0: "fd_lookup t k = Some (FileEntry fe) \<Longrightarrow> cap_file H t (entry_file fe)"
| sub_dir: "cap_dir H t d \<Longrightarrow> fst (open_file (dirs H) d follow path ofl rd wr fl w) = Ok (OpenDir d') \<Longrightarrow> cap_dir H t d'"
| opened: "cap_dir H t d \<Longrightarrow> fst (open_file (dirs H) d follow path ofl rd wr fl w) = Ok (OpenFile f) \<Longrightarrow> cap_file H t f"
| accepted: "cap_file H t f \<Longrightarrow> fst (sock_accept (files H) f fl w) = Ok f' \<Longrightarrow> cap_file H t f'"
| reflagged: "cap_file H t f \<Longrightarrow> cap_file H t (fst (snd (set_fdflags (files H) f fl w)))"

definition caps_ok :: "('w, 'f, 'd) wasi_host \<Rightarrow> ('f, 'd) any_entry wasi_table \<Rightarrow> ('f, 'd) any_entry wasi_table \<Rightarrow> bool" where
  "caps_ok H t0 t \<longleftrightarrow>
     (\<forall>k e. fd_lookup t k = Some (DirEntry e) \<longrightarrow> cap_dir H t0 (entry_dir e)) \<and>
     (\<forall>k e. fd_lookup t k = Some (FileEntry e) \<longrightarrow> cap_file H t0 (entry_file e))"

lemma caps_ok_push:
  assumes "caps_ok H t0 t"
    and "\<And>d. arc_deref a = DirEntry d \<Longrightarrow> cap_dir H t0 (entry_dir d)"
    and "\<And>f. arc_deref a = FileEntry f \<Longrightarrow> cap_file H t0 (entry_file f)"
  shows "caps_ok H t0 (snd (push a t))"
  using assms by (auto simp: caps_ok_def dest!: push_lookup)

lemma on_table_table: "table (ctx (snd (on_table a s))) = snd (a (table (ctx s)))"
  by (simp add: on_table_def split_def Let_def)

lemma path_open_caps:
  assumes ok: "caps_ok H t0 (table (ctx s))"
  shows "caps_ok H t0 (table (ctx (snd (path_open H fd lookup path ofl rbase rinh fl s))))"
proof (cases "\<exists>d. \<not> is_file s fd \<and> get_dir (table (ctx s)) fd = Ok d")
  case True
  then obtain d where d: "\<not> is_file s fd" "get_dir (table (ctx s)) fd = Ok d" by blast
  then have cd: "cap_dir H t0 (entry_dir d)" using ok by (auto simp: get_dir_Ok_iff caps_ok_def)
  show ?thesis
  proof (cases "as_cow_str u8_prim (mem s) path")
    case (Ok p)
    let ?mode = "(if has_right rbase FD_READ then MODE_READ else 0) OR (if has_right rbase FD_WRITE then MODE_WRITE else 0)"
    obtain r w where o: "open_file (dirs H) (entry_dir d) (contains lookup SYMLINK_FOLLOW) p (oflags_from ofl)
        (has_right rbase FD_READ) (has_right rbase FD_WRITE) (fdflags_from fl) (world s) = (r, w)"
      by (metis surj_pair)
    have "r = Ok (OpenFile f) \<Longrightarrow> cap_file H t0 f" "r = Ok (OpenDir e) \<Longrightarrow> cap_dir H t0 e" for f e
      using o cd by (metis cap_dir_cap_file.intros(4) fst_conv) (metis o cd cap_dir_cap_file.intros(3) fst_conv)
    then show ?thesis
      using d ok
      by (cases r)
        (auto simp: path_open_def bind_def the_dir_def read_str_def read_mem_def Ok on_world_def o Let_def
          on_table_table intro!: caps_ok_push split: open_result.splits simp: file_entry_new_def dir_entry_new_def)
  qed (use d ok in \<open>auto simp: path_open_def bind_def the_dir_def read_str_def read_mem_def\<close>)
next
  case False
  then show ?thesis
    using ok by (cases "get_dir (table (ctx s)) fd") (auto simp: path_open_def bind_def the_dir_def throw_def)
qed

lemma sock_accept_caps:
  assumes ok: "caps_ok H t0 (table (ctx s))"
  shows "caps_ok H t0 (table (ctx (snd (sock_accept_call H fd fl s))))"
proof (cases "get_file (table (ctx s)) fd")
  case (Ok f)
  then have cf: "cap_file H t0 (entry_file f)" using ok by (auto simp: get_file_Ok_iff caps_ok_def)
  obtain r w where o: "sock_accept (files H) (entry_file f) (fdflags_from fl) (world s) = (r, w)"
    by (metis surj_pair)
  have "r = Ok f' \<Longrightarrow> cap_file H t0 f'" for f'
    using o cf by (metis cap_dir_cap_file.intros(5) fst_conv)
  then show ?thesis
    using ok
    by (cases r)
      (auto simp: sock_accept_call_def bind_def the_file_def Ok on_world_def o on_table_table
        intro!: caps_ok_push simp: file_entry_new_def)
qed (use ok in \<open>auto simp: sock_accept_call_def bind_def the_file_def\<close>)

lemma set_flags_caps:
  assumes ok: "caps_ok H t0 (table (ctx s))"
  shows "caps_ok H t0 (table (ctx (snd (fd_fdstat_set_flags H fd fl s))))"
proof (cases "get_file_mut (table (ctx s)) fd")
  case (Ok f)
  then have "cap_file H t0 (entry_file f)" using ok by (auto dest!: get_file_mut_Ok_D simp: caps_ok_def)
  then have "cap_file H t0 (fst (snd (set_fdflags (files H) (entry_file f) (fdflags_from fl) (world s))))"
    by (rule reflagged)
  with ok Ok show ?thesis
    by (auto simp: fd_fdstat_set_flags_def throw_def split_def Let_def caps_ok_def fd_lookup_insert_at split: if_splits)
qed (use ok in \<open>auto simp: fd_fdstat_set_flags_def throw_def\<close>)

lemma close_renumber_caps:
  assumes ok: "caps_ok H t0 (table (ctx s))"
  shows "caps_ok H t0 (table (ctx (snd (fd_close fd s))))" "caps_ok H t0 (table (ctx (snd (fd_renumber fd to s))))"
proof -
  have t: "table (ctx (snd (bind (on_table a) (\<lambda>_. ret ()) s))) = snd (a (table (ctx s)))"
    for a :: "('b, 'c) any_entry wasi_table \<Rightarrow> ('e, wasi_error) outcome \<times> _"
    by (auto simp: bind_def on_table_def ret_def split_def Let_def split: outcome.splits)
  show "caps_ok H t0 (table (ctx (snd (fd_close fd s))))"
    using ok by (auto simp: fd_close_def t fd_lookup_delete caps_ok_def throw_def)
  show "caps_ok H t0 (table (ctx (snd (fd_renumber fd to s))))"
    using ok
    by (auto simp: fd_renumber_def on_table_table fd_lookup_renumber caps_ok_def throw_def split: option.splits if_splits)
qed

lemma wasi_step_caps:
  assumes "wasi_step H s t" "host_ok H" "caps_ok H t0 (table (ctx s))"
  shows "caps_ok H t0 (table (ctx t))"
  using wasi_step_cases [OF assms(1,2)]
proof
  assume "changes_table H s t"
  then show ?thesis
    by cases (use assms(3) in \<open>simp_all add: path_open_caps sock_accept_caps set_flags_caps close_renumber_caps\<close>)
qed (use assms(3) in \<open>simp add: still_def\<close>)

section \<open>Areas described in memory\<close>

definition iovec_at :: "guest_memory \<Rightarrow> u32 \<Rightarrow> nat \<Rightarrow> nat \<times> nat" where
  "iovec_at m p i =
     (le_decode (take 4 (drop (unat p + 8 * i) (mem_bytes m))),
      le_decode (take 4 (drop (unat p + 8 * i + 4) (mem_bytes m))))"

definition iovecs_ok :: "guest_memory \<Rightarrow> u32 \<Rightarrow> nat \<Rightarrow> bool" where
  "iovecs_ok m p n \<longleftrightarrow>
     4 dvd host_addr m + unat p \<and> unat p + 8 * n \<le> length (mem_bytes m) \<and> length (mem_bytes m) \<le> 2 ^ 32"

definition iovec_bytes :: "guest_memory \<Rightarrow> u32 \<Rightarrow> nat \<Rightarrow> u8 list" where
  "iovec_bytes m p i = (case iovec_at m p i of (b, n) \<Rightarrow> take n (drop b (mem_bytes m)))"

lemma iovec_at_bound: "fst (iovec_at m p i) < 2 ^ 32" "snd (iovec_at m p i) < 2 ^ 32"
proof -
  have "le_decode (take 4 bs) < 2 ^ 32" for bs
    using le_decode_bound [of "take 4 bs"] power_increasing [of "length (take 4 bs)" 4 "256 :: nat"] by simp
  then show "fst (iovec_at m p i) < 2 ^ 32" "snd (iovec_at m p i) < 2 ^ 32" by (simp_all add: iovec_at_def)
qed

lemma read_iovec_Ok:
  assumes "iovecs_ok m p n" "i < n" "unat q = unat p + 8 * i"
  shows "read_iovec m (GuestPtr q) =
    Ok (GuestPtr (of_nat (fst (iovec_at m p i))), of_nat (snd (iovec_at m p i)))"
proof -
  have len: "unat q + 8 \<le> length (mem_bytes m)" "length (mem_bytes m) \<le> 2 ^ 32" and al: "4 dvd host_addr m + unat q"
    using assms by (auto simp: iovecs_ok_def) (simp add: add.assoc [symmetric])
  then have q4: "unat (q + 4) = unat q + 4" by (simp add: unat_word_ariths)
  have "4 dvd host_addr m + unat q + 4" using al by (rule dvd_add) simp
  with len al q4 have
    "prim_read u32_prim m (GuestPtr q) = Ok (of_nat (fst (iovec_at m p i)))"
    "prim_read u32_prim m (GuestPtr (q + 4)) = Ok (of_nat (snd (iovec_at m p i)))"
    by (simp_all add: u32.prim_read_Ok_iff u32.aligned_at_def u32_from_bytes iovec_at_def assms(3) add.assoc)
  moreover have "ptr_add 1 (GuestPtr q) 0 = Ok (GuestPtr q)" "ptr_add 1 (GuestPtr q) 4 = Ok (GuestPtr (q + 4))"
    using len by (simp_all add: ptr_add_eq)
  ultimately show ?thesis
    by (simp add: read_iovec_def mem_read_def ptr_guest_type_def integer_primitive_def)
qed

lemma length_ptr_iter [simp]: "length (ptr_iter sz (as_array p n)) = unat n"
  by (simp add: ptr_iter_def ptr_len_def as_array_def)

lemma iovec_ptrs:
  assumes "iovecs_ok m (offset p) (unat n)" "i < unat n"
  shows "ptr_iter 8 (as_array p n) ! i = Ok (GuestPtr (offset p + of_nat i * 8))"
    and "unat (offset p + of_nat i * 8) = unat (offset p) + 8 * i"
proof -
  have i: "unat (of_nat i :: u32) = i" using assms(2) unat_u32_lt [of n] by (simp add: unat_of_nat_u32)
  have "unat (offset p) + i * 8 < 2 ^ 32" using assms by (simp add: iovecs_ok_def)
  with i show "ptr_iter 8 (as_array p n) ! i = Ok (GuestPtr (offset p + of_nat i * 8))"
    and "unat (offset p + of_nat i * 8) = unat (offset p) + 8 * i"
    using assms(2)
    by (simp_all add: ptr_iter_def ptr_len_def as_array_def ptr_add_eq as_ptr_def offset_base_def unat_word_ariths)
qed

lemma collect_map_Ok:
  assumes "length rs = n" "\<And>i. i < n \<Longrightarrow> f (rs ! i) = Ok (g i)"
  shows "collect_ok (map f rs) = Ok (map g [0..<n])"
proof -
  have "map f rs = map Ok (map g [0..<n])" using assms by (intro nth_equalityI) auto
  then show ?thesis by (simp add: collect_ok_Ok_iff)
qed

lemma collect_iovs_Ok:
  assumes ok: "iovecs_ok m (offset p) (unat n)"
  shows "collect_iovs m (as_array p n) = Ok (map (\<lambda>i. as_array (GuestPtr (of_nat (fst (iovec_at m (offset p) i))))
    (of_nat (snd (iovec_at m (offset p) i)))) [0..<unat n])"
  unfolding collect_iovs_def
  by (rule collect_map_Ok) (simp_all add: iovec_ptrs [OF ok] read_iovec_Ok [OF ok])

lemma as_cow_Ok:
  assumes "unat b + unat n \<le> length (mem_bytes m)"
  shows "as_cow u8_prim m (as_array (GuestPtr b) n) = Ok (take (unat n) (drop (unat b) (mem_bytes m)))"
proof -
  have b: "in_bounds 1 m b n" using assms unat_u32_lt [of n] by (simp add: in_bounds_def)
  have "map (\<lambda>i. from_le_bytes u8_prim (take 1 (drop (unat b + i) (mem_bytes m)))) [0..<unat n] =
      take (unat n) (drop (unat b) (mem_bytes m))"
    using assms
    by (intro nth_equalityI) (auto simp: u8_prim_def word_prim_def take_Suc_conv_app_nth take_Suc hd_drop_conv_nth)
  with b show ?thesis
    by (cases m) (auto simp: as_cow_def as_slice_def as_array_def validate_range_eq in_bounds_def
        u8.to_vec_Ok_iff u8.aligned_at_def)
qed

lemma collect_ciovs_Ok:
  assumes ok: "iovecs_ok m (offset p) (unat n)"
    and fit: "\<forall>i < unat n. fst (iovec_at m (offset p) i) + snd (iovec_at m (offset p) i) \<le> length (mem_bytes m)"
  shows "collect_ciovs m (as_array p n) = Ok (map (iovec_bytes m (offset p)) [0..<unat n])"
  unfolding collect_ciovs_def
proof (rule collect_map_Ok)
  fix i assume i: "i < unat n"
  let ?b = "fst (iovec_at m (offset p) i)" and ?k = "snd (iovec_at m (offset p) i)"
  have "unat (of_nat ?b :: u32) = ?b" "unat (of_nat ?k :: u32) = ?k"
    using iovec_at_bound by (simp_all add: unat_of_nat_u32)
  with fit i show "bind_ok (ptr_iter 8 (as_array p n) ! i)
    (\<lambda>q. bind_ok (read_iovec m q) (\<lambda>(buf, n). as_cow u8_prim m (as_array buf n))) = Ok (iovec_bytes m (offset p) i)"
    by (simp add: iovec_ptrs [OF ok] read_iovec_Ok [OF ok] as_cow_Ok iovec_bytes_def split_def)
qed simp

section \<open>Readdir\<close>

text \<open>What \<^verbatim>\<open>fd_readdir\<close> puts into its buffer, if the buffer is large enough.\<close>

definition entry_bytes :: "u8 list \<Rightarrow> readdir_entity \<Rightarrow> u8 list" where
  "entry_bytes pad e = dirent_bytes pad
     \<lparr>d_next = rd_next e, d_ino = rd_inode e, d_namlen = of_nat (length (rd_name e)),
      d_type = filetype_from (rd_filetype e)\<rparr> @ rd_name e"

definition dirent_stream :: "u8 list \<Rightarrow> readdir_entity list \<Rightarrow> u8 list" where
  "dirent_stream pad es = concat (map (entry_bytes pad) es)"

lemma length_dirent_bytes [simp]: "length (dirent_bytes pad d) = 21 + length pad"
  by (simp add: dirent_bytes_def)

definition with_mem :: "('w, 'f, 'd) wasi_state \<Rightarrow> nat \<Rightarrow> u8 list \<Rightarrow> ('w, 'f, 'd) wasi_state" where
  "with_mem s a bs = s\<lparr>mem := with_bytes (mem s) (overwrite (mem_bytes (mem s)) a bs)\<rparr>"

lemma with_mem_append:
  "a + length bs + length cs \<le> length (mem_bytes (mem s)) \<Longrightarrow>
   with_mem (with_mem s a bs) (a + length bs) cs = with_mem s a (bs @ cs)"
  by (simp add: with_mem_def overwrite_append)

lemma length_with_mem [simp]:
  "a + length bs \<le> length (mem_bytes (mem s)) \<Longrightarrow> length (mem_bytes (mem (with_mem s a bs))) = length (mem_bytes (mem s))"
  by (simp add: with_mem_def)

lemma with_mem_Nil [simp]: "with_mem s a [] = s"
  by (simp add: with_mem_def)

lemma copy_call:
  assumes "unat n = length src" "unat (offset p) + length src \<le> length (mem_bytes (mem s))"
  shows "on_mem (\<lambda>m. copy_from_slice u8_prim m src (as_array p n)) s = (Ok (), with_mem s (unat (offset p)) src)"
  using assms by (simp add: on_mem_def as_array_def copy_bytes with_mem_def)

text \<open>The part of the loop that copies \<open>bs\<close> as far as they fit, and goes on if all of them did.\<close>

definition put_bytes ::
  "sized_ptr \<Rightarrow> u32 \<Rightarrow> u32 \<Rightarrow> u32 \<Rightarrow> u8 list \<Rightarrow> (sized_ptr \<Rightarrow> u32 \<Rightarrow> (('w, 'f, 'd) wasi_state, u32) act) \<Rightarrow>
   (('w, 'f, 'd) wasi_state, u32) act" where
  "put_bytes buf buf_len u n bs k =
     (let c = min n (buf_len - u)
      in bind (on_mem (\<lambda>m. copy_from_slice u8_prim m (take (unat c) bs) (as_array buf c))) (\<lambda>_.
         if c < n then ret buf_len else bind (lift_guest (ptr_add 1 buf c)) (\<lambda>buf. k buf c)))"

lemma put_bytes_all:
  assumes cur: "cursor_ok lo buf_len buf u" and n: "unat n = length bs"
    and room: "lo + unat buf_len \<le> length (mem_bytes (mem s))" "lo + unat buf_len < 2 ^ 32"
    and fits: "length bs \<le> unat buf_len - unat u"
  shows "cursor_ok lo buf_len (GuestPtr (offset buf + n)) (u + n)" "unat (u + n) = unat u + length bs"
    and "put_bytes buf buf_len u n bs k s = k (GuestPtr (offset buf + n)) n (with_mem s (lo + unat u) bs)"
proof -
  have off: "unat (offset buf) = lo + unat u" and le: "unat u \<le> unat buf_len"
    using cur by (auto simp: cursor_ok_def word_le_nat_alt)
  have cn: "min n (buf_len - u) = n"
    using fits n cur by (simp add: min_def word_le_nat_alt unat_diff_u32 cursor_ok_def)
  have ad: "ptr_add 1 buf n = Ok (GuestPtr (offset buf + n))"
    using off n fits le room(2) by (simp add: ptr_add_eq)
  show "cursor_ok lo buf_len (GuestPtr (offset buf + n)) (u + n)" "unat (u + n) = unat u + length bs"
    using cursor_advance [OF cur, of n] cursor_add [OF cur, of n] ad cn n by simp_all
  have "on_mem (\<lambda>m. copy_from_slice u8_prim m bs (as_array buf n)) s = (Ok (), with_mem s (lo + unat u) bs)"
    using copy_call [OF n, of buf s] off le fits room(1) by simp
  then show "put_bytes buf buf_len u n bs k s = k (GuestPtr (offset buf + n)) n (with_mem s (lo + unat u) bs)"
    by (simp add: put_bytes_def cn n ad act_simps bind_apply)
qed

lemma put_bytes_part:
  assumes cur: "cursor_ok lo buf_len buf u" and n: "unat n = length bs"
    and room: "lo + unat buf_len \<le> length (mem_bytes (mem s))"
    and fits: "\<not> length bs \<le> unat buf_len - unat u"
  shows "put_bytes buf buf_len u n bs k s = (Ok buf_len, with_mem s (lo + unat u) (take (unat buf_len - unat u) bs))"
proof -
  let ?c = "buf_len - u"
  have off: "unat (offset buf) = lo + unat u" and le: "unat u \<le> unat buf_len"
    using cur by (auto simp: cursor_ok_def word_le_nat_alt)
  have c: "unat ?c = unat buf_len - unat u" using cur by (simp add: unat_diff_u32 cursor_ok_def)
  then have lt: "?c < n" and min: "min n ?c = ?c" using fits n by (auto simp: word_less_nat_alt min_def word_le_nat_alt)
  have "on_mem (\<lambda>m. copy_from_slice u8_prim m (take (unat ?c) bs) (as_array buf ?c)) s =
      (Ok (), with_mem s (lo + unat u) (take (unat ?c) bs))"
    using copy_call [of ?c "take (unat ?c) bs" buf s] off le fits room c by simp
  then show ?thesis by (simp add: put_bytes_def min lt c bind_apply ret_def)
qed

declare readdir_loop.simps(2) [simp del]

lemma readdir_put:
  assumes "length pad = 3" and ln: "length (rd_name e) < 2 ^ 32"
    and d: "d = dirent_bytes pad \<lparr>d_next = rd_next e, d_ino = rd_inode e,
      d_namlen = of_nat (length (rd_name e)), d_type = filetype_from (rd_filetype e)\<rparr>"
  shows "readdir_loop pad (Ok e # rest) buf buf_len u =
    put_bytes buf buf_len u 24 d (\<lambda>buf c.
      put_bytes buf buf_len (u + c) (of_nat (length (rd_name e))) (rd_name e) (\<lambda>buf c'.
        readdir_loop pad rest buf buf_len (u + c + c')))"
  using assms(1,2)
  by (simp add: readdir_loop.simps(2) act_simps dirent_from_def nat_to_u32_def d Let_def put_bytes_def)

lemma readdir_entry:
  fixes s :: "('w, 'f, 'd) wasi_state"
  assumes cur: "cursor_ok lo buf_len buf u" and pad: "length pad = 3" and ln: "length (rd_name e) < 2 ^ 32"
    and room: "lo + unat buf_len \<le> length (mem_bytes (mem s))" "lo + unat buf_len < 2 ^ 32"
  shows "length (entry_bytes pad e) \<le> unat buf_len - unat u \<Longrightarrow>
      \<exists>buf' u'. cursor_ok lo buf_len buf' u' \<and> unat u' = unat u + length (entry_bytes pad e) \<and>
        readdir_loop pad (Ok e # rest) buf buf_len u s =
        readdir_loop pad rest buf' buf_len u' (with_mem s (lo + unat u) (entry_bytes pad e))"
    and "\<not> length (entry_bytes pad e) \<le> unat buf_len - unat u \<Longrightarrow>
      readdir_loop pad (Ok e # rest) buf buf_len u s =
      (Ok buf_len, with_mem s (lo + unat u) (take (unat buf_len - unat u) (entry_bytes pad e)))"
proof -
  define d where "d = dirent_bytes pad \<lparr>d_next = rd_next e, d_ino = rd_inode e,
    d_namlen = of_nat (length (rd_name e)), d_type = filetype_from (rd_filetype e)\<rparr>"
  let ?name = "rd_name e" and ?s1 = "with_mem s (lo + unat u) d"
  have n24: "unat (24 :: u32) = length d" and eb: "entry_bytes pad e = d @ ?name"
    using pad by (simp_all add: d_def entry_bytes_def)
  have nn: "unat (of_nat (length ?name) :: u32) = length ?name" using ln by (simp add: unat_of_nat_u32)
  have le: "unat u \<le> unat buf_len" using cur by (simp add: cursor_ok_def word_le_nat_alt)
  note put = readdir_put [OF pad ln d_def, where rest = rest and buf = buf and buf_len = buf_len and u = u]
  note all = put_bytes_all [where s = s, OF cur n24 room]
  have m1: "lo + unat buf_len \<le> length (mem_bytes (mem ?s1))"
    if "length d \<le> unat buf_len - unat u" using that room(1) le by simp
  have app: "with_mem ?s1 (lo + unat u + length d) cs = with_mem s (lo + unat u) (d @ cs)"
    if "length d + length cs \<le> unat buf_len - unat u" for cs
    using that room(1) le by (intro with_mem_append) linarith
  show "\<exists>buf' u'. cursor_ok lo buf_len buf' u' \<and> unat u' = unat u + length (entry_bytes pad e) \<and>
        readdir_loop pad (Ok e # rest) buf buf_len u s =
        readdir_loop pad rest buf' buf_len u' (with_mem s (lo + unat u) (entry_bytes pad e))"
    if "length (entry_bytes pad e) \<le> unat buf_len - unat u"
  proof -
    have fit: "length d \<le> unat buf_len - unat u" "length d + length ?name \<le> unat buf_len - unat u"
      using that by (simp_all add: eb)
    note a1 = all [OF fit(1)]
    have "length ?name \<le> unat buf_len - unat (u + 24)" using fit a1(2) by simp
    note a2 = put_bytes_all [where s = ?s1, OF a1(1) nn m1 [OF fit(1)] room(2) this]
    show ?thesis
      by (intro exI conjI, rule a2(1)) (simp_all add: put a1(2,3) a2(2,3) eb app [OF fit(2)] flip: add.assoc)
  qed
  show "readdir_loop pad (Ok e # rest) buf buf_len u s =
      (Ok buf_len, with_mem s (lo + unat u) (take (unat buf_len - unat u) (entry_bytes pad e)))"
    if too: "\<not> length (entry_bytes pad e) \<le> unat buf_len - unat u"
  proof (cases "length d \<le> unat buf_len - unat u")
    case True
    note a1 = all [OF True]
    have "\<not> length ?name \<le> unat buf_len - unat (u + 24)" using a1(2) too True by (auto simp: eb)
    note a2 = put_bytes_part [where s = ?s1, OF a1(1) nn m1 [OF True] this]
    show ?thesis using True by (simp add: put a1(2,3) a2 eb app flip: add.assoc)
  qed (use put_bytes_part [where s = s, OF cur n24 room(1)] in \<open>simp add: put eb\<close>)
qed

lemma readdir_loop_stream:
  fixes s :: "('w, 'f, 'd) wasi_state"
  assumes "cursor_ok lo buf_len buf u" "length pad = 3" "\<forall>e \<in> set es. length (rd_name e) < 2 ^ 32"
    and "lo + unat buf_len \<le> length (mem_bytes (mem s))" "lo + unat buf_len < 2 ^ 32"
  shows "readdir_loop pad (map Ok es) buf buf_len u s =
    (Ok (of_nat (min (unat u + length (dirent_stream pad es)) (unat buf_len))),
     with_mem s (lo + unat u) (take (unat buf_len - unat u) (dirent_stream pad es)))"
  using assms
proof (induction es arbitrary: buf u s)
  case Nil
  then show ?case by (simp add: dirent_stream_def ret_def cursor_ok_def word_le_nat_alt)
next
  case (Cons e es)
  have le: "unat u \<le> unat buf_len" using Cons.prems(1) by (simp add: cursor_ok_def word_le_nat_alt)
  have ln: "length (rd_name e) < 2 ^ 32" using Cons.prems(3) by simp
  let ?eb = "entry_bytes pad e"
  note entry = readdir_entry [where s = s, OF Cons.prems(1,2) ln Cons.prems(4,5)]
  have str: "dirent_stream pad (e # es) = ?eb @ dirent_stream pad es" by (simp add: dirent_stream_def)
  show ?case
  proof (cases "length ?eb \<le> unat buf_len - unat u")
    case False
    then show ?thesis using entry(2) [OF False, of "map Ok es"] le by (simp add: str)
  next
    case True
    from entry(1) [OF True, of "map Ok es"] obtain buf' u' where cur': "cursor_ok lo buf_len buf' u'"
      and u': "unat u' = unat u + length ?eb" and run: "readdir_loop pad (map Ok (e # es)) buf buf_len u s =
        readdir_loop pad (map Ok es) buf' buf_len u' (with_mem s (lo + unat u) ?eb)" by auto
    have fits: "lo + unat u + length ?eb \<le> lo + unat buf_len" using True le by simp
    then have "lo + unat buf_len \<le> length (mem_bytes (mem (with_mem s (lo + unat u) ?eb)))"
      using Cons.prems(4) by simp
    from Cons.IH [OF cur' Cons.prems(2) _ this Cons.prems(5)] Cons.prems(3) run fits Cons.prems(4) show ?thesis
      using with_mem_append [of "lo + unat u" ?eb "take (unat buf_len - unat u') (dirent_stream pad es)" s] True
      by (simp add: str u' add.assoc)
  qed
qed

section \<open>An example host\<close>

text \<open>
  One file whose writes are collected in the world and whose reads deliver sevens, and a directory
  in which every path opens a file.
\<close>

definition demo_files :: "(u8 list, nat) file_methods" where
  "demo_files = (wasi_file_default (\<lambda>f. ret RegularFile))
     \<lparr>read_vectored := (\<lambda>f bufs w. (Ok (of_nat (length (concat bufs))), map (map (\<lambda>_. 7)) bufs, w)),
      write_vectored := (\<lambda>f bufs w. (Ok (of_nat (length (concat bufs))), w @ concat bufs))\<rparr>"

definition demo_dirs :: "(u8 list, nat, nat) dir_methods" where
  "demo_dirs = wasi_dir_default
     \<lparr>open_file := (\<lambda>d _ path _ _ _ _. ret (OpenFile (d + length path))),
      readdir := (\<lambda>d _. ret [Ok \<lparr>rd_next = 1, rd_inode = 9, rd_name = [0x61, 0x62], rd_filetype = RegularFile\<rparr>])\<rparr>"

definition demo_host :: "(u8 list, nat, nat) wasi_host" where
  "demo_host =
     \<lparr>files = demo_files, dirs = demo_dirs, system_resolution = 1, system_now = (\<lambda>_ w. (0, w)),
      monotonic_resolution = 1, monotonic_now = (\<lambda>_ w. (5, w)),
      sched_poll_oneoff = (\<lambda>p w. (Ok (), p, w)), sched_yield_now = ret (), sched_sleep = (\<lambda>_. ret ()),
      try_fill_bytes = (\<lambda>buf w. (Ok (), map (\<lambda>_. 4) buf, w)), rustix_errno_of = (\<lambda>_. OS_IO),
      dirent_padding = [0, 0, 0]\<rparr>"

definition demo_ctx :: "(nat, nat) wasi_ctx" where
  "demo_ctx =
     \<lparr>args = string_array_new, env = string_array_new, clocks = clocks_new,
      table = \<lparr>fd_map = [(3, Arc False (DirEntry (dir_entry_new (Some [0x2F]) 100))),
                        (1, Arc False (FileEntry (file_entry_new 1 MODE_WRITE))),
                        (0, Arc False (FileEntry (file_entry_new 0 MODE_READ)))], next_fd = 3\<rparr>,
      ctx_cloned = False\<rparr>"

definition demo_state :: "guest_memory \<Rightarrow> (u8 list, nat, nat) wasi_state" where
  "demo_state m = \<lparr>ctx = demo_ctx, mem = m, world = []\<rparr>"

lemma demo_host_ok: "host_ok demo_host"
  by (simp add: host_ok_def demo_host_def demo_files_def wasi_file_default_def)

lemma demo_lookup:
  "fd_lookup (table demo_ctx) 3 = Some (DirEntry (dir_entry_new (Some [0x2F]) 100))"
  "fd_lookup (table demo_ctx) 1 = Some (FileEntry (file_entry_new 1 MODE_WRITE))"
  "fd_lookup (table demo_ctx) 0 = Some (FileEntry (file_entry_new 0 MODE_READ))"
  "fd_lookup (table demo_ctx) 9 = None"
  by (simp_all add: fd_lookup_def demo_ctx_def)

lemma demo_invar: "wasi_table_invar (table demo_ctx)"
  by (simp add: wasi_table_invar_def demo_ctx_def)

section \<open>Properties\<close>

text \<open>
  Claim C12. Whatever calls a module makes, with whatever arguments, and whether they succeed or
  fail: the descriptors stay distinct, arguments, environment and clocks stay as they were, and memory keeps its
  size, address and kind. The host may do anything to the world as long as it keeps the
  length of the buffers it is given.
\<close>

theorem wasi_run_invariant:
  assumes "(wasi_step H)\<^sup>*\<^sup>* s t" and "host_ok H" and "wasi_table_invar (table (ctx s))"
  shows "wasi_table_invar (table (ctx t)) \<and> args (ctx t) = args (ctx s) \<and> env (ctx t) = env (ctx s) \<and>
    clocks (ctx t) = clocks (ctx s) \<and> same_shape (mem s) (mem t)"
proof -
  from assms(1) have "keeps s t"
    by (induction rule: rtranclp_induct) (auto intro: keep.R_refl keep.R_trans wasi_step_keeps [OF _ assms(2)])
  with assms(3) show ?thesis by (simp add: keeps_def)
qed

theorem wasi_run_invariant_witness:
  "wasi_table_invar (table (ctx (snd (random_get demo_host (GuestPtr 2) 3 (snd (fd_close 3 (demo_state (Unshared 0 (replicate 8 0)))))))))"
proof -
  let ?s = "demo_state (Unshared 0 (replicate 8 0))"
  have "wasi_step demo_host ?s (snd (fd_close 3 ?s))" by (rule wasi_step.intros)
  moreover have "wasi_step demo_host (snd (fd_close 3 ?s)) (snd (random_get demo_host (GuestPtr 2) 3 (snd (fd_close 3 ?s))))"
    by (rule wasi_step.intros)
  ultimately have "(wasi_step demo_host)\<^sup>*\<^sup>* ?s (snd (random_get demo_host (GuestPtr 2) 3 (snd (fd_close 3 ?s))))"
    by (meson r_into_rtranclp rtranclp_trans)
  from wasi_run_invariant [OF this demo_host_ok] demo_invar show ?thesis by (simp add: demo_state_def)
qed

text \<open>
  Claim C11. Capability safety. After any sequence of calls, every file and directory in the
  module's table was there at the start or was returned by the host for opening a path in a directory
  the module could already reach, for accepting on a socket it could reach, or for setting the flags
  of such a file.
\<close>

theorem wasi_capabilities:
  assumes "(wasi_step H)\<^sup>*\<^sup>* s t" and "host_ok H"
  shows "(fd_lookup (table (ctx t)) fd = Some (DirEntry d) \<longrightarrow> cap_dir H (table (ctx s)) (entry_dir d)) \<and>
    (fd_lookup (table (ctx t)) fd = Some (FileEntry f) \<longrightarrow> cap_file H (table (ctx s)) (entry_file f))"
proof -
  from assms(1) have "caps_ok H (table (ctx s)) (table (ctx t))"
  proof (induction rule: rtranclp_induct)
    case base
    show ?case by (auto simp: caps_ok_def intro: cap_dir_cap_file.intros)
  qed (auto intro: wasi_step_caps [OF _ assms(2)])
  then show ?thesis by (simp add: caps_ok_def)
qed

theorem wasi_capabilities_witness:
  "cap_dir demo_host (table demo_ctx) 100"
proof -
  let ?s = "demo_state (Unshared 0 [])"
  have "(wasi_step demo_host)\<^sup>*\<^sup>* ?s (snd (fd_close 1 ?s))" by (blast intro: wasi_step.intros)
  from wasi_capabilities [OF this demo_host_ok, of 3 "dir_entry_new (Some [0x2F]) 100"] show ?thesis
    by (simp add: demo_state_def demo_ctx_def fd_close_def contains_key_def is_file_def table_is_def is_file_entry_def
        file_entry_new_def bind_def on_table_def wasi_table_delete_def fd_lookup_def dir_entry_new_def ret_def)
qed

text \<open>
  Claim C13. Sandboxing of the module's memory. A call that fills a buffer of the module changes
  memory inside that buffer only, also when it fails half-way, and leaves the context as it was:
  the directory name, the directory entries, the target of a link, random bytes and events.
\<close>

theorem wasi_writes_confined:
  assumes "host_ok H"
  shows "confined (unat (offset buf)) (unat (offset buf) + unat n) s (snd (fd_prestat_dir_name fd buf n s)) \<and>
    confined (unat (offset buf)) (unat (offset buf) + unat n) s (snd (fd_readdir H fd buf n cookie s)) \<and>
    confined (unat (offset buf)) (unat (offset buf) + unat n) s (snd (path_readlink H fd path buf n s)) \<and>
    confined (unat (offset buf)) (unat (offset buf) + unat n) s (snd (random_get H buf n s)) \<and>
    confined (unat (offset buf)) (unat (offset buf) + 32 * unat n) s (snd (poll_oneoff H subs buf n s))"
  using frames_prestat_dir_name frames_readdir frames_readlink random_get_confined [OF assms] poll_oneoff_confined
  by (blast intro: conf.frames_at)

theorem wasi_writes_confined_witness:
  "confined 2 5 (demo_state (Unshared 0 (replicate 8 1))) (snd (random_get demo_host (GuestPtr 2) 3 (demo_state (Unshared 0 (replicate 8 1)))))"
  using wasi_writes_confined [OF demo_host_ok, of "GuestPtr 2" 3 "demo_state (Unshared 0 (replicate 8 1))"] by simp

definition iov_of :: "nat \<times> nat \<Rightarrow> slice_ptr" where
  "iov_of a = as_array (GuestPtr (of_nat (fst a))) (of_nat (snd a))"

lemma iov_of_simps:
  assumes "b < 2 ^ 32" "k < 2 ^ 32"
  shows "unat (ptr_len (iov_of (b, k))) = k" "unat (fst (offset (iov_of (b, k)))) = b"
    "unat (snd (offset (iov_of (b, k)))) = k" "0 < ptr_len (iov_of (b, k)) \<longleftrightarrow> 0 < k"
  using assms by (simp_all add: iov_of_def as_array_def ptr_len_def unat_of_nat_u32 word_less_nat_alt)

definition areas :: "guest_memory \<Rightarrow> u32 \<Rightarrow> nat \<Rightarrow> (nat \<times> nat) list" where
  "areas m p n = map (iovec_at m p) [0..<n]"

lemma areas_bound: "a \<in> set (areas m p n) \<Longrightarrow> fst a < 2 ^ 32 \<and> snd a < 2 ^ 32"
  using iovec_at_bound by (auto simp: areas_def)

lemma collect_iovs_areas:
  "iovecs_ok m (offset p) (unat n) \<Longrightarrow> collect_iovs m (as_array p n) = Ok (map iov_of (areas m (offset p) (unat n)))"
  by (simp add: collect_iovs_Ok areas_def iov_of_def comp_def)

lemma filter_areas:
  "filter (\<lambda>iov. 0 < ptr_len iov) (map iov_of (areas m p n)) = map iov_of (filter (\<lambda>a. 0 < snd a) (areas m p n))"
proof -
  have "(0 < ptr_len (iov_of a)) = (0 < snd a)" if "a \<in> set (areas m p n)" for a
    using areas_bound [OF that] iov_of_simps(4) [of "fst a" "snd a"] by simp
  then show ?thesis by (simp add: filter_map comp_def cong: filter_cong)
qed

lemma read_unshared:
  assumes un: "\<not> is_shared_memory (mem s)"
    and ar: "filter (\<lambda>a. 0 < snd a) (areas (mem s) p n) = (b, k) # rest"
    and fit: "b + k \<le> length (mem_bytes (mem s))"
    and rd: "rd [take k (drop b (mem_bytes (mem s)))] (world s) = (r, [buf], w)"
  shows "read_with rd (map iov_of (areas (mem s) p n)) s =
    (bind_ok r u64_to_u32, s\<lparr>world := w, mem := with_bytes (mem s) (overwrite (mem_bytes (mem s)) b buf)\<rparr>)"
proof -
  have "(b, k) \<in> set (filter (\<lambda>a. 0 < snd a) (areas (mem s) p n))" by (simp add: ar)
  then have bk: "b < 2 ^ 32" "k < 2 ^ 32" using areas_bound by (auto dest!: areas_bound)
  have "as_slice_mut (mem s) (iov_of (b, k)) = Ok (Some (b, b + k))"
    using un fit bk by (simp add: iov_of_def as_slice_mut_Ok_iff unat_of_nat_u32 in_bounds_def)
  then show ?thesis
    using un rd
    by (cases r) (simp_all add: read_with_def filter_areas ar read_mem_def bind_def on_world_buf_def fill_slice_def lift_def)
qed

lemma read_shared:
  assumes sh: "is_shared_memory (mem s)" and ar: "areas (mem s) p n = (b, k) # rest"
    and fit: "b + k \<le> length (mem_bytes (mem s))"
    and rd: "rd [replicate (min k MAX_SHARED_BUFFER_SIZE) 0] (world s) = (Ok c, [buf], w)"
    and c: "unat c \<le> length buf" "length buf = min k MAX_SHARED_BUFFER_SIZE"
  shows "read_with rd (map iov_of (areas (mem s) p n)) s =
    (Ok (of_nat (unat c)), s\<lparr>world := w, mem := with_bytes (mem s) (overwrite (mem_bytes (mem s)) b (take (unat c) buf))\<rparr>)"
proof -
  have bk: "b < 2 ^ 32" "k < 2 ^ 32" using areas_bound [of "(b, k)" "mem s" p n] ar by simp_all
  have c32: "unat c < 2 ^ 32" "unat c \<le> k" using c bk by simp_all
  then have uc: "unat (of_nat (unat c) :: u32) = unat c" by (intro unat_of_nat_u32) simp
  let ?q = "as_array (GuestPtr (of_nat b)) (of_nat (unat c))"
  have "get_range 1 (iov_of (b, k)) 0 (of_nat (unat c)) = Ok (Some ?q)"
    using c32 uc bk
    by (simp add: get_range_def iov_of_def as_array_def ptr_len_def as_ptr_def offset_base_def ptr_add_eq
        word_le_nat_alt unat_of_nat_u32)
  moreover have "copy_from_slice u8_prim (mem s) (take (unat c) buf) ?q =
      (Ok (), with_bytes (mem s) (overwrite (mem_bytes (mem s)) b (take (unat c) buf)))"
    using copy_bytes [of "of_nat (unat c)" "take (unat c) buf" "of_nat b" "mem s"] uc c fit bk c32
    by (simp add: as_array_def unat_of_nat_u32)
  ultimately show ?thesis
    using sh rd c c32 iov_of_simps(1) [OF bk]
    by (simp add: read_with_def ar on_world_buf_def copy_read_bytes_def act_simps u64_to_u32_def
        bind_def [of "on_mem _"] on_mem_def lift_def Let_def)
qed

text \<open>
  Claim C14. Reading. For a descriptor open for reading and a well-formed array of areas, the
  file is given exactly the first non-empty area of unshared memory and fills it in place; for shared
  memory it is given a zeroed buffer of at most \<open>2 ^ 16\<close> bytes, of which the bytes read are copied to the
  first area. Without a non-empty area nothing is read. The result is the file's.
\<close>

theorem fd_read_fills:
  assumes f: "get_file (table (ctx s)) fd = Ok f" "contains (access_mode f) MODE_READ"
    and iov: "iovecs_ok (mem s) (offset p) (unat n)"
  shows "(\<not> is_shared_memory (mem s) \<and> filter (\<lambda>a. 0 < snd a) (areas (mem s) (offset p) (unat n)) = [] \<longrightarrow>
      fd_read H fd (as_array p n) s = (Ok 0, s)) \<and>
    (\<not> is_shared_memory (mem s) \<and> filter (\<lambda>a. 0 < snd a) (areas (mem s) (offset p) (unat n)) = (b, k) # rest \<and>
      b + k \<le> length (mem_bytes (mem s)) \<and>
      read_vectored (files H) (entry_file f) [take k (drop b (mem_bytes (mem s)))] (world s) = (r, [buf], w) \<longrightarrow>
      fd_read H fd (as_array p n) s = (bind_ok r u64_to_u32,
        s\<lparr>world := w, mem := with_bytes (mem s) (overwrite (mem_bytes (mem s)) b buf)\<rparr>)) \<and>
    (is_shared_memory (mem s) \<and> areas (mem s) (offset p) (unat n) = (b, k) # rest \<and>
      b + k \<le> length (mem_bytes (mem s)) \<and> length buf = min k MAX_SHARED_BUFFER_SIZE \<and> unat c \<le> length buf \<and>
      read_vectored (files H) (entry_file f) [replicate (min k MAX_SHARED_BUFFER_SIZE) 0] (world s) = (Ok c, [buf], w) \<longrightarrow>
      fd_read H fd (as_array p n) s = (Ok (of_nat (unat c)),
        s\<lparr>world := w, mem := with_bytes (mem s) (overwrite (mem_bytes (mem s)) b (take (unat c) buf))\<rparr>))"
proof -
  have run: "fd_read H fd (as_array p n) s =
      read_with (read_vectored (files H) (entry_file f)) (map iov_of (areas (mem s) (offset p) (unat n))) s"
    using f by (simp add: fd_read_def the_file_def read_mem_def bind_apply collect_iovs_areas [OF iov])
  have "fd_read H fd (as_array p n) s = (Ok 0, s)"
    if "\<not> is_shared_memory (mem s)" "filter (\<lambda>a. 0 < snd a) (areas (mem s) (offset p) (unat n)) = []"
    using that by (simp add: run read_with_def filter_areas ret_def)
  moreover have "fd_read H fd (as_array p n) s = (bind_ok r u64_to_u32,
        s\<lparr>world := w, mem := with_bytes (mem s) (overwrite (mem_bytes (mem s)) b buf)\<rparr>)"
    if "\<not> is_shared_memory (mem s)" "filter (\<lambda>a. 0 < snd a) (areas (mem s) (offset p) (unat n)) = (b, k) # rest"
      "b + k \<le> length (mem_bytes (mem s))"
      "read_vectored (files H) (entry_file f) [take k (drop b (mem_bytes (mem s)))] (world s) = (r, [buf], w)"
    unfolding run using that by (rule read_unshared)
  moreover have "fd_read H fd (as_array p n) s = (Ok (of_nat (unat c)),
        s\<lparr>world := w, mem := with_bytes (mem s) (overwrite (mem_bytes (mem s)) b (take (unat c) buf))\<rparr>)"
    if "is_shared_memory (mem s)" "areas (mem s) (offset p) (unat n) = (b, k) # rest" "b + k \<le> length (mem_bytes (mem s))"
      "read_vectored (files H) (entry_file f) [replicate (min k MAX_SHARED_BUFFER_SIZE) 0] (world s) = (Ok c, [buf], w)"
      "unat c \<le> length buf" "length buf = min k MAX_SHARED_BUFFER_SIZE"
    unfolding run using that by (rule read_shared)
  ultimately show ?thesis by blast
qed

theorem fd_read_fills_witness:
  "fd_read demo_host 0 (as_array (GuestPtr 0) 2) (demo_state (Unshared 0 [9, 0, 0, 0, 0, 0, 0, 0, 17, 0, 0, 0, 2, 0, 0, 0, 5, 5, 5, 5])) =
     (Ok 2, demo_state (Unshared 0 [9, 0, 0, 0, 0, 0, 0, 0, 17, 0, 0, 0, 2, 0, 0, 0, 5, 7, 7, 5]))"
proof -
  let ?m = "Unshared 0 [9, 0, 0, 0, 0, 0, 0, 0, 17, 0, 0, 0, 2, 0, 0, 0, 5, 5, 5, 5]"
  have f: "get_file (table (ctx (demo_state ?m))) 0 = Ok (file_entry_new 0 MODE_READ)"
    by (simp add: demo_state_def get_file_Ok_iff demo_lookup)
  have iov: "iovecs_ok (mem (demo_state ?m)) (offset (GuestPtr 0)) (unat 2)"
    by (simp add: iovecs_ok_def demo_state_def)
  have "areas ?m 0 2 = [(9, 0), (17, 2)]"
    by (simp add: areas_def iovec_at_def upt_conv_Cons)
  with fd_read_fills [OF f _ iov, where b = 17 and k = 2 and rest = "[]" and r = "Ok 2" and buf = "[7, 7]" and w = "[]" and H = demo_host]
  show ?thesis
    by (simp add: demo_state_def file_entry_new_def contains_def MODE_READ_def is_shared_memory_def demo_host_def
        demo_files_def wasi_file_default_def u64_to_u32_def overwrite_def)
qed

text \<open>
  Claim C15. Writing. For a descriptor open for writing and a well-formed array of areas inside
  memory, \<^verbatim>\<open>fd_write\<close> hands the bytes of the areas to the file, in order and in one call, and nothing
  else; the result is the file's, if it fits 32 bits, and memory and context stay as they were.
\<close>

theorem fd_write_gathers:
  assumes f: "get_file (table (ctx s)) fd = Ok f" "contains (access_mode f) MODE_WRITE"
    and iov: "iovecs_ok (mem s) (offset p) (unat n)"
    and fit: "\<forall>i < unat n. fst (iovec_at (mem s) (offset p) i) + snd (iovec_at (mem s) (offset p) i) \<le> length (mem_bytes (mem s))"
    and wr: "write_vectored (files H) (entry_file f) (map (iovec_bytes (mem s) (offset p)) [0..<unat n]) (world s) = (r, w)"
  shows "fd_write H fd (as_array p n) s = (bind_ok r u64_to_u32, s\<lparr>world := w\<rparr>)"
  using f wr
  by (cases r) (simp_all add: fd_write_def the_file_def read_mem_def bind_apply collect_ciovs_Ok [OF iov fit]
      on_world_def bind_def lift_def)

theorem fd_write_gathers_witness:
  "fd_write demo_host 1 (as_array (GuestPtr 0) 2)
     (demo_state (Unshared 0 [18, 0, 0, 0, 1, 0, 0, 0, 16, 0, 0, 0, 2, 0, 0, 0, 65, 66, 67])) =
   (Ok 3, (demo_state (Unshared 0 [18, 0, 0, 0, 1, 0, 0, 0, 16, 0, 0, 0, 2, 0, 0, 0, 65, 66, 67]))\<lparr>world := [67, 65, 66]\<rparr>)"
proof -
  let ?m = "Unshared 0 [18, 0, 0, 0, 1, 0, 0, 0, 16, 0, 0, 0, 2, 0, 0, 0, 65, 66, 67]"
  let ?s = "demo_state ?m"
  have f: "get_file (table (ctx ?s)) 1 = Ok (file_entry_new 1 MODE_WRITE)"
    by (simp add: demo_state_def get_file_Ok_iff demo_lookup)
  have c: "contains (access_mode (file_entry_new 1 MODE_WRITE)) MODE_WRITE"
    by (simp add: file_entry_new_def contains_def)
  have iov: "iovecs_ok (mem ?s) (offset (GuestPtr 0)) (unat 2)"
    by (simp add: iovecs_ok_def demo_state_def)
  have at: "iovec_at ?m 0 0 = (18, 1)" "iovec_at ?m 0 1 = (16, 2)" by (simp_all add: iovec_at_def)
  have "i < 2 \<longleftrightarrow> i = 0 \<or> i = 1" for i :: nat by auto
  then have fit: "\<forall>i < unat (2 :: u32). fst (iovec_at (mem ?s) (offset (GuestPtr 0)) i) +
      snd (iovec_at (mem ?s) (offset (GuestPtr 0)) i) \<le> length (mem_bytes (mem ?s))"
    using at by (auto simp: demo_state_def)
  have "map (iovec_bytes ?m 0) [0..<2] = [[67], [65, 66]]"
    using at by (simp add: iovec_bytes_def upt_conv_Cons)
  with fd_write_gathers [OF f c iov fit, where H = demo_host and r = "Ok 3" and w = "[67, 65, 66]"] show ?thesis
    by (simp add: demo_state_def demo_host_def demo_files_def wasi_file_default_def u64_to_u32_def file_entry_new_def)
qed

text \<open>
  Claim C18. Access modes. Reading from a descriptor not open for reading and writing to one not
  open for writing fail with \<^verbatim>\<open>BADF\<close> and change nothing, not even the file.
\<close>

theorem access_modes_enforced:
  assumes "get_file (table (ctx s)) fd = Ok f"
  shows "(\<not> contains (access_mode f) MODE_READ \<longrightarrow>
      fd_read H fd iovs s = (Err badf, s) \<and> fd_pread H fd iovs off s = (Err badf, s)) \<and>
    (\<not> contains (access_mode f) MODE_WRITE \<longrightarrow>
      fd_write H fd iovs s = (Err badf, s) \<and> fd_pwrite H fd iovs off s = (Err badf, s))"
  using assms
  by (auto simp: fd_read_def fd_pread_def fd_write_def fd_pwrite_def the_file_def bind_def throw_def)

theorem access_modes_enforced_witness:
  "fd_read demo_host 1 (GuestPtr (0, 1)) (demo_state (Unshared 0 [])) = (Err badf, demo_state (Unshared 0 []))"
  using access_modes_enforced [of "demo_state (Unshared 0 [])" 1 "file_entry_new 1 MODE_WRITE" demo_host "GuestPtr (0, 1)" 0]
  by (simp add: demo_state_def get_file_Ok_iff demo_lookup file_entry_new_def contains_def MODE_READ_def MODE_WRITE_def)

lemma mode_bits:
  "contains ((if a then MODE_READ else 0) OR (if b then MODE_WRITE else 0)) MODE_READ \<longleftrightarrow> a"
  "contains ((if a then MODE_READ else 0) OR (if b then MODE_WRITE else 0)) MODE_WRITE \<longleftrightarrow> b"
  by (simp_all add: contains_def MODE_READ_def MODE_WRITE_def)

text \<open>
  Claim C16. Opening. If the host opens the path in the directory of the descriptor and the table
  has room, \<^verbatim>\<open>path_open\<close> returns a descriptor that was not in use; it leads to the opened file, which can be read
  and written exactly as far as the requested rights say, and every other descriptor is as
  before.
\<close>

theorem path_open_fresh:
  assumes d: "get_dir (table (ctx s)) dirfd = Ok d" and p: "as_cow_str u8_prim (mem s) path = Ok str"
    and o: "open_file (dirs H) (entry_dir d) (contains lookup SYMLINK_FOLLOW) str (oflags_from ofl)
      (has_right base FD_READ) (has_right base FD_WRITE) (fdflags_from fl) (world s) = (Ok (OpenFile f), w)"
    and room: "0 < wasi_table_room (table (ctx s))"
  shows "\<exists>fd t mode. path_open H dirfd lookup path ofl base inh fl s =
      (Ok fd, s\<lparr>world := w, ctx := (ctx s)\<lparr>table := t\<rparr>\<rparr>) \<and>
    fd_lookup (table (ctx s)) fd = None \<and>
    fd_lookup t = (fd_lookup (table (ctx s)))(fd \<mapsto> FileEntry (file_entry_new f mode)) \<and>
    (contains mode MODE_READ \<longleftrightarrow> has_right base FD_READ) \<and> (contains mode MODE_WRITE \<longleftrightarrow> has_right base FD_WRITE)"
proof -
  let ?mode = "(if has_right base FD_READ then MODE_READ else 0) OR (if has_right base FD_WRITE then MODE_WRITE else 0)"
  let ?a = "Arc False (FileEntry (file_entry_new f ?mode))"
  from push_room [OF room, of ?a] obtain fd t where pu: "push ?a (table (ctx s)) = (Ok fd, t)" by blast
  have "\<not> is_file s dirfd"
    using d by (auto simp: get_dir_Ok_iff is_file_def table_is_def fd_lookup_def is_file_entry_def split: option.splits)
  then have "path_open H dirfd lookup path ofl base inh fl s = (Ok fd, s\<lparr>world := w, ctx := (ctx s)\<lparr>table := t\<rparr>\<rparr>)"
    using d p o pu by (simp add: path_open_def the_dir_def read_str_def read_mem_def bind_def on_world_def on_table_def Let_def)
  with push_Ok [OF pu] mode_bits [of "has_right base FD_READ" "has_right base FD_WRITE"] show ?thesis
    by (intro exI conjI) (auto simp only: arc.sel)
qed

theorem path_open_fresh_witness:
  "\<exists>fd t mode. path_open demo_host 3 0 (GuestPtr (1, 2)) 0 (rights_of [FD_READ]) 0 0 (demo_state (Unshared 0 [0, 0x61, 0x62])) =
      (Ok fd, (demo_state (Unshared 0 [0, 0x61, 0x62]))\<lparr>world := [], ctx := demo_ctx\<lparr>table := t\<rparr>\<rparr>) \<and>
    fd_lookup t fd = Some (FileEntry (file_entry_new 102 mode)) \<and> contains mode MODE_READ \<and> \<not> contains mode MODE_WRITE"
proof -
  let ?s = "demo_state (Unshared 0 [0, 0x61, 0x62])" and ?base = "rights_of [FD_READ]"
  have d: "get_dir (table (ctx ?s)) 3 = Ok (dir_entry_new (Some [0x2F]) 100)"
    by (simp add: demo_state_def get_dir_Ok_iff demo_lookup)
  have p: "as_cow_str u8_prim (mem ?s) (GuestPtr (1, 2)) = Ok [0x61, 0x62]"
    using as_cow_Ok [of 1 2 "mem ?s"] by (simp add: as_cow_str_def demo_state_def as_array_def)
  have r: "has_right ?base FD_READ" "\<not> has_right ?base FD_WRITE"
    by (simp_all add: has_right_def rights_of_def right_index_def contains_def)
  have o: "open_file (dirs demo_host) (entry_dir (dir_entry_new (Some [0x2F]) 100)) (contains 0 SYMLINK_FOLLOW) [0x61, 0x62]
      (oflags_from 0) (has_right ?base FD_READ) (has_right ?base FD_WRITE) (fdflags_from 0) (world ?s) = (Ok (OpenFile 102), [])"
    by (simp add: demo_host_def demo_dirs_def dir_entry_new_def ret_def demo_state_def)
  have "0 < wasi_table_room (table (ctx ?s))"
    by (simp add: wasi_table_room_def demo_state_def demo_ctx_def u32_MAX_def)
  from path_open_fresh [OF d p o this, of 0] r obtain fd t mode where
    "path_open demo_host 3 0 (GuestPtr (1, 2)) 0 ?base 0 0 ?s = (Ok fd, ?s\<lparr>world := [], ctx := (ctx ?s)\<lparr>table := t\<rparr>\<rparr>)"
    "fd_lookup t = (fd_lookup (table (ctx ?s)))(fd \<mapsto> FileEntry (file_entry_new 102 mode))"
    "contains mode MODE_READ" "\<not> contains mode MODE_WRITE" by auto
  then show ?thesis by (intro exI [of _ fd] exI [of _ t] exI [of _ mode]) (simp add: demo_state_def)
qed

text \<open>The flags that ask for a time and for the current time at once.\<close>

definition conflicting_times :: "u16 \<Rightarrow> bool" where
  "conflicting_times fst_flags \<longleftrightarrow>
     contains fst_flags FST_ATIM \<and> contains fst_flags FST_ATIM_NOW \<or>
     contains fst_flags FST_MTIM \<and> contains fst_flags FST_MTIM_NOW"

lemma fst_times_conflicting:
  "conflicting_times fl \<Longrightarrow> fst_times at mt fl = Err invalid_argument"
  "\<not> conflicting_times fl \<Longrightarrow> \<exists>a m. fst_times at mt fl = Ok (a, m)"
  by (auto simp: conflicting_times_def fst_times_def systimespec_def Let_def)

lemma fst_times_throw:
  "bind (lift (fst_times at mt fl)) f s = (Err (if conflicting_times fl then invalid_argument else badf), s)"
  if "\<And>a m. f (a, m) s = (Err badf, s)"
  using that fst_times_conflicting [of fl at mt]
  by (cases "conflicting_times fl") (auto simp: bind_def lift_def)

text \<open>
  Claim C19. Unknown descriptors. Every call that takes a descriptor, given one that is not in the table, fails and changes
  nothing. The error is \<^verbatim>\<open>BADF\<close>, also when only the second directory of \<^verbatim>\<open>path_link\<close> or \<^verbatim>\<open>path_rename\<close> is unknown, with these
  exceptions: \<^verbatim>\<open>fd_prestat_dir_name\<close> reports \<^verbatim>\<open>NOTDIR\<close>, where \<^verbatim>\<open>fd_prestat_get\<close> reports \<^verbatim>\<open>BADF\<close>; and three checks come before
  the descriptor is looked up: \<^verbatim>\<open>fd_seek\<close> to a negative position and the two calls that set times, with flags that ask for
  a time and for the current time at once, report \<^verbatim>\<open>INVAL\<close>, and \<^verbatim>\<open>fd_fdstat_set_flags\<close> on a context that has been cloned
  reports \<^verbatim>\<open>NOTSUP\<close>. The target of \<^verbatim>\<open>fd_renumber\<close> need not be known, and \<^verbatim>\<open>poll_oneoff\<close> takes its descriptors from memory.
\<close>

theorem unknown_descriptor:
  assumes "fd_lookup (table (ctx s)) fd = None"
  shows "fd_advise H fd off len adv s = (Err badf, s) \<and> fd_allocate fd off len s = (Err badf, s) \<and>
    fd_close fd s = (Err badf, s) \<and> fd_datasync H fd s = (Err badf, s) \<and> fd_fdstat_get H fd s = (Err badf, s) \<and>
    fd_fdstat_set_flags H fd fl s = (Err (if ctx_cloned (ctx s) then not_supported else badf), s) \<and>
    fd_fdstat_set_rights fd base inheriting s = (Err badf, s) \<and> fd_filestat_get H fd s = (Err badf, s) \<and>
    fd_filestat_set_size H fd len s = (Err badf, s) \<and>
    fd_filestat_set_times H fd at mt fl s = (Err (if conflicting_times fl then invalid_argument else badf), s) \<and>
    fd_read H fd iovs s = (Err badf, s) \<and> fd_pread H fd iovs off s = (Err badf, s) \<and>
    fd_write H fd iovs s = (Err badf, s) \<and> fd_pwrite H fd iovs off s = (Err badf, s) \<and>
    fd_prestat_get fd s = (Err badf, s) \<and> fd_prestat_dir_name fd buf n s = (Err not_dir, s) \<and>
    fd_readdir H fd buf n cookie s = (Err badf, s) \<and> fd_renumber fd other s = (Err badf, s) \<and>
    fd_seek H fd delta wh s = (Err (if wh = WhenceSet \<and> sint delta < 0 then invalid_argument else badf), s) \<and>
    fd_sync H fd s = (Err badf, s) \<and> fd_tell H fd s = (Err badf, s) \<and>
    path_create_directory H fd path s = (Err badf, s) \<and> path_filestat_get H fd lookup path s = (Err badf, s) \<and>
    path_filestat_set_times H fd lookup path at mt fl s = (Err (if conflicting_times fl then invalid_argument else badf), s) \<and>
    path_link H fd lookup path other path' s = (Err badf, s) \<and>
    path_open H fd lookup path ofl base inheriting fl s = (Err badf, s) \<and>
    path_readlink H fd path buf n s = (Err badf, s) \<and> path_remove_directory H fd path s = (Err badf, s) \<and>
    path_rename H fd path other path' s = (Err badf, s) \<and> path_symlink H path fd path' s = (Err badf, s) \<and>
    path_unlink_file H fd path s = (Err badf, s) \<and>
    sock_accept_call H fd fl s = (Err badf, s) \<and> sock_recv_call H fd iovs fl s = (Err badf, s) \<and>
    sock_send_call H fd iovs fl s = (Err badf, s) \<and> sock_shutdown_call H fd how s = (Err badf, s) \<and>
    (\<forall>d. get_dir (table (ctx s)) other = Ok d \<longrightarrow>
      path_link H other lookup path fd path' s = (Err badf, s) \<and> path_rename H other path fd path' s = (Err badf, s))"
proof -
  note u = get_unknown [OF assms]
  have f: "the_file fd s = (Err badf, s)" and d: "the_dir fd s = (Err badf, s)"
    by (simp_all add: the_file_def the_dir_def u)
  note err = bind_apply_Err [where m = "the_file fd", OF f] bind_apply_Err [where m = "the_dir fd", OF d]
  have "fd_seek H fd delta wh s = (Err (if wh = WhenceSet \<and> sint delta < 0 then invalid_argument else badf), s)"
    by (cases wh) (auto simp: fd_seek_def err throw_def act_simps)
  moreover have "path_link H other lookup path fd path' s = (Err badf, s) \<and> path_rename H other path fd path' s = (Err badf, s)"
    if "get_dir (table (ctx s)) other = Ok e" for e
  proof -
    from that have "the_dir other s = (Ok e, s)" by (simp add: the_dir_def)
    then show ?thesis by (simp add: path_link_def path_rename_def bind_apply [where m = "the_dir other"] err)
  qed
  ultimately show ?thesis
    by (simp add: fd_advise_def fd_allocate_def fd_close_def fd_datasync_def fd_fdstat_get_def fd_fdstat_set_flags_def
        fd_fdstat_set_rights_def fd_filestat_get_def fd_filestat_set_size_def fd_filestat_set_times_def fd_read_def fd_pread_def
        fd_write_def fd_pwrite_def fd_renumber_def fd_sync_def fd_tell_def fd_readdir_def path_create_directory_def
        path_filestat_get_def path_filestat_set_times_def path_link_def path_open_def path_readlink_def path_remove_directory_def
        path_rename_def path_symlink_def path_unlink_file_def sock_accept_call_def sock_recv_call_def sock_send_call_def
        sock_shutdown_call_def fd_prestat_get_def fd_prestat_dir_name_def is_file_def is_dir_def u err throw_def act_simps
        fst_times_throw)
      (simp add: bind_def u)
qed


theorem unknown_descriptor_witness:
  "fd_close 9 (demo_state (Unshared 0 [])) = (Err badf, demo_state (Unshared 0 [])) \<and>
   fd_filestat_set_times demo_host 9 0 0 3 (demo_state (Unshared 0 [])) = (Err invalid_argument, demo_state (Unshared 0 [])) \<and>
   path_rename demo_host 3 (GuestPtr (0, 0)) 9 (GuestPtr (0, 0)) (demo_state (Unshared 0 [])) = (Err badf, demo_state (Unshared 0 [])) \<and>
   fd_prestat_dir_name 9 (GuestPtr 0) 0 (demo_state (Unshared 0 [])) = (Err not_dir, demo_state (Unshared 0 []))"
proof -
  have "get_dir (table (ctx (demo_state (Unshared 0 [])))) 3 = Ok (dir_entry_new (Some [0x2F]) 100)"
    by (simp add: demo_state_def get_dir_Ok_iff demo_lookup)
  moreover have "conflicting_times 3"
    by (simp add: conflicting_times_def contains_def FST_ATIM_def FST_ATIM_NOW_def)
  ultimately show ?thesis
    using unknown_descriptor [of "demo_state (Unshared 0 [])" 9 demo_host]
    by (simp add: demo_state_def demo_lookup)
qed

text \<open>
  Claim C17. Directory listings. If the host delivers the entries and the buffer lies in memory
  below the end of the address space, \<^verbatim>\<open>fd_readdir\<close> fills the buffer with the longest prefix of the
  entries' encodings that fits: a 24-byte header and the name for each, the last one possibly
  cut. It returns the number of bytes, which is the buffer's length if and only if the listing does not fit or
  fills it exactly.
\<close>

theorem fd_readdir_lists:
  assumes d: "get_dir (table (ctx s)) fd = Ok d"
    and rd: "readdir (dirs H) (entry_dir d) cookie (world s) = (Ok (map Ok es), w)"
    and pad: "length (dirent_padding H) = 3" and names: "\<forall>e \<in> set es. length (rd_name e) < 2 ^ 32"
    and buf: "unat (offset buf) + unat n \<le> length (mem_bytes (mem s))" "unat (offset buf) + unat n < 2 ^ 32"
  shows "fd_readdir H fd buf n cookie s =
    (Ok (of_nat (min (length (dirent_stream (dirent_padding H) es)) (unat n))),
     with_mem (s\<lparr>world := w\<rparr>) (unat (offset buf)) (take (unat n) (dirent_stream (dirent_padding H) es)))"
proof -
  have "cursor_ok (unat (offset buf)) n buf 0" by (simp add: cursor_ok_def)
  from readdir_loop_stream [where s = "s\<lparr>world := w\<rparr>", OF this pad names] buf d rd show ?thesis
    by (simp add: fd_readdir_def the_dir_def on_world_def bind_def)
qed

theorem fd_readdir_lists_witness:
  "fst (fd_readdir demo_host 3 (GuestPtr 4) 30 0 (demo_state (Unshared 0 (replicate 64 0)))) = Ok 26"
proof -
  let ?s = "demo_state (Unshared 0 (replicate 64 0))"
  let ?es = "[\<lparr>rd_next = 1, rd_inode = 9, rd_name = [0x61, 0x62], rd_filetype = RegularFile\<rparr>]"
  have d: "get_dir (table (ctx ?s)) 3 = Ok (dir_entry_new (Some [0x2F]) 100)"
    by (simp add: demo_state_def get_dir_Ok_iff demo_lookup)
  have "readdir (dirs demo_host) (entry_dir (dir_entry_new (Some [0x2F]) 100)) 0 (world ?s) = (Ok (map Ok ?es), [])"
    by (simp add: demo_host_def demo_dirs_def ret_def demo_state_def)
  from fd_readdir_lists [OF d this, of "GuestPtr 4" 30] show ?thesis
    by (simp add: demo_host_def demo_state_def dirent_stream_def entry_bytes_def)
qed

lemma fill_random_Ok:
  assumes "\<forall>buf w. fst (try_fill_bytes H buf w) = Ok ()"
  shows "\<exists>b w'. fill_random H bs w = (Ok (), b, w')"
proof -
  obtain r b w' where t: "try_fill_bytes H bs w = (r, b, w')" by (metis prod_cases3)
  with assms have "r = Ok ()" by (metis fst_conv)
  with t show ?thesis by (simp add: fill_random_def)
qed

lemma random_loop_Ok:
  assumes ok: "host_ok H" "\<forall>buf w. fst (try_fill_bytes H buf w) = Ok ()"
    and "copied \<le> ptr_len buf" "unat (ptr_len buf) - unat copied \<le> MAX_SHARED_BUFFER_SIZE * fuel"
    and "unat (fst (offset buf)) + unat (ptr_len buf) \<le> length (mem_bytes (mem s))" "length (mem_bytes (mem s)) \<le> 2 ^ 32"
  shows "fst (random_loop H fuel buf copied s) = Ok ()"
  using assms(3-)
proof (induction fuel arbitrary: copied s)
  case 0
  then have "\<not> copied < ptr_len buf" by (simp add: word_less_nat_alt)
  then show ?case by (simp add: random_loop.simps ret_def)
next
  case (Suc fuel)
  show ?case
  proof (cases "copied < ptr_len buf")
    case True
    let ?len = "min (ptr_len buf - copied) (of_nat MAX_SHARED_BUFFER_SIZE)"
    note step = random_step [OF True]
    let ?q = "as_array (GuestPtr (fst (offset buf) + copied)) (copied + ?len - copied)"
    have base: "unat (fst (offset buf)) + unat copied < 2 ^ 32"
      using Suc.prems(3,4) True by (simp add: word_less_nat_alt)
    then have q: "unat (fst (offset buf) + copied) = unat (fst (offset buf)) + unat copied"
      by (simp add: unat_word_ariths)
    have gr: "get_range 1 buf copied (copied + ?len) = Ok (Some ?q)"
      using step(3,4) True base
      by (simp add: get_range_def ptr_add_eq as_ptr_def offset_base_def as_array_def not_less Let_def less_imp_le)
    obtain b w where fr: "fill_random H (replicate (unat ?len) 0) (world s) = (Ok (), b, w)"
      using fill_random_Ok [OF ok(2)] by blast
    have lb: "length b = unat ?len" using host_ok_fill [OF ok(1), of "replicate (unat ?len) 0" "world s"] fr by simp
    let ?s1 = "s\<lparr>world := w\<rparr>"
    have "unat (fst (offset buf)) + unat copied + length b \<le> length (mem_bytes (mem s))"
      using lb step(2) True Suc.prems(3) unfolding word_less_nat_alt by linarith
    then have "on_mem (\<lambda>m. copy_from_slice u8_prim m b ?q) ?s1 = (Ok (), with_mem ?s1 (unat (fst (offset buf)) + unat copied) b)"
      using copy_call [of "copied + ?len - copied" b "GuestPtr (fst (offset buf) + copied)" ?s1] q lb by simp
    moreover have "fst (random_loop H fuel buf (copied + ?len) (with_mem ?s1 (unat (fst (offset buf)) + unat copied) b)) = Ok ()"
    proof (rule Suc.IH)
      show "unat (ptr_len buf) - unat (copied + ?len) \<le> MAX_SHARED_BUFFER_SIZE * fuel"
        using Suc.prems(2) step(1) by auto
    qed (use step(4) Suc.prems(3,4) lb step(2) True in \<open>auto simp: word_less_nat_alt\<close>)
    ultimately show ?thesis
      using True by (simp add: random_loop.simps [of H "Suc fuel"] Let_def on_world_buf_def fr act_simps gr bind_apply)
  qed (simp add: random_loop.simps ret_def)
qed

text \<open>
  Randomness is always delivered. If the generator does not fail and the buffer lies in
  memory, \<^verbatim>\<open>random_get\<close> returns successfully; for shared memory its loop ends within the rounds
  the model grants it, since more rounds do not change the result.
\<close>

theorem random_get_succeeds:
  assumes ok: "host_ok H" "\<forall>buf w. fst (try_fill_bytes H buf w) = Ok ()"
    and fit: "unat (offset buf) + unat n \<le> length (mem_bytes (mem s))" "length (mem_bytes (mem s)) \<le> 2 ^ 32"
  shows "fst (random_get H buf n s) = Ok () \<and>
    (random_rounds (as_array buf n) \<le> fuel \<longrightarrow>
      random_loop H fuel (as_array buf n) 0 = random_loop H (random_rounds (as_array buf n)) (as_array buf n) 0)"
proof -
  let ?b = "as_array buf n"
  have b: "ptr_len ?b = n" "fst (offset ?b) = offset buf" by (simp_all add: as_array_def ptr_len_def)
  have enough: "unat (ptr_len ?b) \<le> MAX_SHARED_BUFFER_SIZE * f" if "random_rounds ?b \<le> f" for f
  proof -
    have "unat n < MAX_SHARED_BUFFER_SIZE * Suc (unat n div MAX_SHARED_BUFFER_SIZE)"
      using dividend_less_times_div [of MAX_SHARED_BUFFER_SIZE "unat n"] by (simp add: MAX_SHARED_BUFFER_SIZE_def)
    also have "\<dots> \<le> MAX_SHARED_BUFFER_SIZE * f" using that by (intro mult_le_mono2) (simp add: random_rounds_def b)
    finally show ?thesis by (simp add: b)
  qed
  have "fst (random_get H buf n s) = Ok ()"
  proof (cases "is_shared_memory (mem s)")
    case True
    with random_loop_Ok [OF ok, of 0 ?b] enough [of "random_rounds ?b"] fit show ?thesis
      by (simp add: random_get_def Let_def b)
  next
    case False
    have "as_slice_mut (mem s) ?b = Ok (Some (unat (offset buf), unat (offset buf) + unat n))"
      using False fit unat_u32_lt [of n] by (simp add: as_slice_mut_Ok_iff in_bounds_def)
    with fill_random_Ok [OF ok(2), of "take (unat n) (drop (unat (offset buf)) (mem_bytes (mem s)))" "world s"] False
    show ?thesis by (auto simp: random_get_def Let_def read_mem_def bind_def on_world_buf_def fill_slice_def lift_def)
  qed
  with random_loop_total [of ?b 0] enough show ?thesis by auto
qed

theorem random_get_succeeds_witness:
  "fst (random_get demo_host (GuestPtr 1) 3 (demo_state (Shared 0 (replicate 4 0)))) = Ok ()"
  using random_get_succeeds [OF demo_host_ok, of "GuestPtr 1" 3 "demo_state (Shared 0 (replicate 4 0))"]
  by (simp add: demo_host_def demo_state_def)

definition refs_size :: "'f poll_refs \<Rightarrow> nat" where
  "refs_size refs = (case refs of (poll, reads, writes) \<Rightarrow> length poll + length reads + length writes)"

lemma poll_subscribe_size: "poll_subscribe H sub refs s = (Ok refs', s') \<Longrightarrow> refs_size refs' = Suc (refs_size refs)"
  unfolding poll_subscribe_def
  by (cases sub; cases refs)
    (auto simp: refs_size_def subscribe_monotonic_clock_def ret_def throw_def
      elim!: bind_OkE split: subscription_u.splits clockid.splits if_splits)

lemma poll_subs_size: "poll_subs H ps refs s = (Ok refs', s') \<Longrightarrow> refs_size refs' = refs_size refs + length ps"
proof (induction ps arbitrary: refs s)
  case (Cons p ps)
  then show ?case by (fastforce elim!: bind_OkE dest!: poll_subscribe_size)
qed (simp add: ret_def)

lemma length_subscribe:
  "length (fold (\<lambda>(f, ud). subscribe_read f ud) rs p) = length p + length rs"
  "length (fold (\<lambda>(f, ud). subscribe_write f ud) ws p) = length p + length ws"
  by (induction rs arbitrary: p, simp_all add: subscribe_read_def split: prod.splits)
    (induction ws arbitrary: p, simp_all add: subscribe_write_def split: prod.splits)

lemma length_poll_results: "length (fst (poll_results now p w)) \<le> length p"
proof (induction now p w rule: poll_results.induct)
  case (2 now sub ud p w)
  obtain r w1 where 1: "from_subscription now sub w = (r, w1)" by (metis surj_pair)
  obtain rs w2 where rs: "poll_results now p w1 = (rs, w2)" by (metis surj_pair)
  from 2 [OF 1 [symmetric] refl] 1 rs show ?case by (auto split: option.splits)
qed simp

end
