(* ===== verification/WASI_Sched.thy ===== *)
theory WASI_Sched
  imports WASI_Poll
begin

text \<open>
  The scheduler the launcher uses, \<^verbatim>\<open>crates/wasi-common/src/sync/sched.rs\<close> and \<^verbatim>\<open>sync/sched/unix.rs\<close>: waiting for
  the subscriptions of a poll with the operating system's \<^verbatim>\<open>poll\<close>, which is an argument together with the clock.
\<close>

section \<open>The system call\<close>

record poll_events =
  ev_nval :: bool
  ev_err :: bool
  ev_hup :: bool

datatype poll_interest = PollIn | PollOut

text \<open>\<^verbatim>\<open>rustix::event::poll\<close> returns how many descriptors are ready and fills in the events of all of them, or fails.\<close>

datatype poll_reply = PollReady nat "poll_events list" | PollInterrupted | PollFailed io_error

record ('w, 'f, 'fd) poll_os =
  os_pollable :: "'f \<Rightarrow> 'fd option"
  os_poll :: "('fd \<times> poll_interest) list \<Rightarrow> nat \<Rightarrow> 'w \<Rightarrow> poll_reply \<times> 'w"
  os_ready_bytes :: "'f \<Rightarrow> ('w, u64) act"
  os_now :: "nat \<Rightarrow> 'w \<Rightarrow> nat \<times> 'w"
  os_errno :: "i32 \<Rightarrow> rustix_errno"

definition c_int_max :: nat where "c_int_max = 2 ^ 31 - 1"

section \<open>Waiting\<close>

fun is_rw :: "'f subscription \<Rightarrow> bool" where
  "is_rw (SubMonotonic _ _) = False"
| "is_rw _ = True"

definition rw_subscriptions :: "'f poll \<Rightarrow> 'f subscription list" where
  "rw_subscriptions p = filter is_rw (map fst p)"

fun pollfd_of :: "('w, 'f, 'fd) poll_os \<Rightarrow> 'f subscription \<Rightarrow> ('fd \<times> poll_interest, wasi_error) outcome" where
  "pollfd_of S (SubRead f _) = map_ok (\<lambda>fd. (fd, PollIn)) (ok_or invalid_argument (os_pollable S f))"
| "pollfd_of S (SubWrite f _) = map_ok (\<lambda>fd. (fd, PollOut)) (ok_or invalid_argument (os_pollable S f))"
| "pollfd_of S (SubMonotonic _ _) = Panic"

definition duration_until :: "('w, 'f, 'fd) poll_os \<Rightarrow> nat \<times> nat \<Rightarrow> 'w \<Rightarrow> nat option \<times> 'w" where
  "duration_until S t w =
     (let (now, w1) = os_now S (snd t) w
      in (if now \<le> fst t then Some (fst t - now) else None, w1))"

text \<open>The time to wait: to the earliest deadline, in milliseconds and one more, or the greatest \<^verbatim>\<open>c_int\<close>.\<close>

definition poll_timeout ::
  "('w, 'f, 'fd) poll_os \<Rightarrow> (nat \<times> nat) option \<Rightarrow> 'w \<Rightarrow> (nat, wasi_error) outcome \<times> 'w" where
  "poll_timeout S deadline w =
     (case deadline of
        Some t \<Rightarrow>
          (let (d, w1) = duration_until S t w;
               ms = (case d of Some ns \<Rightarrow> ns | None \<Rightarrow> 0) div 1000000 + 1
           in (if ms \<le> c_int_max then Ok ms else Err overflow, w1))
      | None \<Rightarrow> (Ok c_int_max, w))"

text \<open>One pass of the loop: nothing if it was interrupted.\<close>

definition poll_try ::
  "('w, 'f, 'fd) poll_os \<Rightarrow> ('fd \<times> poll_interest) list \<Rightarrow> (nat \<times> nat) option \<Rightarrow> 'w \<Rightarrow>
   (nat \<times> poll_events list, wasi_error) outcome option \<times> 'w" where
  "poll_try S pollfds deadline w =
     (case poll_timeout S deadline w of
        (Ok timeout, w1) \<Rightarrow>
          (case os_poll S pollfds timeout w1 of
             (PollReady ready revents, w2) \<Rightarrow> (Some (Ok (ready, revents)), w2)
           | (PollInterrupted, w2) \<Rightarrow> (None, w2)
           | (PollFailed e, w2) \<Rightarrow> (Some (Err (error_from_io (os_errno S) e)), w2))
      | (Err e, w1) \<Rightarrow> (Some (Err e), w1)
      | (Panic, w1) \<Rightarrow> (Some Panic, w1))"

partial_function (option) wait_ready ::
  "('w, 'f, 'fd) poll_os \<Rightarrow> ('fd \<times> poll_interest) list \<Rightarrow> (nat \<times> nat) option \<Rightarrow> 'w \<Rightarrow>
   ((nat \<times> poll_events list, wasi_error) outcome \<times> 'w) option" where
  "wait_ready S pollfds deadline w =
     (case poll_try S pollfds deadline w of
        (Some r, w1) \<Rightarrow> Some (r, w1)
      | (None, w1) \<Rightarrow> wait_ready S pollfds deadline w1)"

section \<open>Results\<close>

definition mark_sub :: "poll_events \<Rightarrow> u64 \<Rightarrow> 'f subscription \<Rightarrow> 'f subscription" where
  "mark_sub revents nbytes sub =
     (if ev_nval revents then rw_error badf sub
      else if ev_err revents then rw_error io sub
      else if ev_hup revents then rw_complete nbytes RW_HANGUP sub
      else rw_complete nbytes 0 sub)"

fun complete_subs ::
  "('w, 'f, 'fd) poll_os \<Rightarrow> 'f poll \<Rightarrow> poll_events list \<Rightarrow> 'w \<Rightarrow> (unit, wasi_error) outcome \<times> 'f poll \<times> 'w" where
  "complete_subs S [] revs w = (Ok (), [], w)"
| "complete_subs S ((sub, ud) # p) revs w =
     (if \<not> is_rw sub then (let (r, p', w') = complete_subs S p revs w in (r, (sub, ud) # p', w'))
      else case revs of
        [] \<Rightarrow> (Ok (), (sub, ud) # p, w)
      | revents # revs \<Rightarrow>
          (case (case sub of
                   SubRead f _ \<Rightarrow> (let (r, w1) = os_ready_bytes S f w in (map_ok (\<lambda>ready. max ready 1) r, w1))
                 | _ \<Rightarrow> (Ok 0, w)) of
             (Ok nbytes, w1) \<Rightarrow>
               (let (r, p', w') = complete_subs S p revs w1 in (r, (mark_sub revents nbytes sub, ud) # p', w'))
           | (Err e, w1) \<Rightarrow> (Err e, (sub, ud) # p, w1)
           | (Panic, w1) \<Rightarrow> (Panic, (sub, ud) # p, w1)))"

definition unix_poll_oneoff ::
  "('w, 'f, 'fd) poll_os \<Rightarrow> 'f poll \<Rightarrow> 'w \<Rightarrow> ((unit, wasi_error) outcome \<times> 'f poll \<times> 'w) option" where
  "unix_poll_oneoff S poll w =
     (if poll = [] then Some (Ok (), poll, w)
      else case collect_ok (map (pollfd_of S) (rw_subscriptions poll)) of
        Err e \<Rightarrow> Some (Err e, poll, w)
      | Panic \<Rightarrow> Some (Panic, poll, w)
      | Ok pollfds \<Rightarrow>
          (case wait_ready S pollfds (earliest_clock_deadline poll) w of
             None \<Rightarrow> None
           | Some (Err e, w1) \<Rightarrow> Some (Err e, poll, w1)
           | Some (Panic, w1) \<Rightarrow> Some (Panic, poll, w1)
           | Some (Ok (ready, revents), w1) \<Rightarrow>
               if 0 < ready then Some (complete_subs S poll revents w1)
               else case earliest_clock_deadline poll of
                 None \<Rightarrow> Some (Panic, poll, w1)
               | Some (deadline, precision) \<Rightarrow>
                   (let (now, w2) = os_now S precision w1
                    in Some (if deadline \<le> now then Ok () else Panic, poll, w2))))"

section \<open>Waiting ends\<close>

lemma unix_poll_empty: "unix_poll_oneoff S [] w = Some (Ok (), [], w)"
  by (simp add: unix_poll_oneoff_def)

lemma wait_ready_returns:
  assumes "fst (poll_try S fds d (((\<lambda>w. snd (poll_try S fds d w)) ^^ n) w)) \<noteq> None"
  shows "\<exists>r. wait_ready S fds d w = Some r"
  using assms
proof (induction n arbitrary: w)
  case 0
  then show ?case by (subst wait_ready.simps) (auto split: prod.splits option.splits)
next
  case (Suc n)
  obtain r w1 where t: "poll_try S fds d w = (r, w1)" by (metis surj_pair)
  with Suc.prems have "fst (poll_try S fds d (((\<lambda>w. snd (poll_try S fds d w)) ^^ n) w1)) \<noteq> None"
    by (simp only: funpow_Suc_right comp_apply snd_conv not_False_eq_True)
  from Suc.IH [OF this] t show ?case by (subst wait_ready.simps) (auto split: option.splits)
qed

lemma wait_ready_tries:
  assumes "wait_ready S fds d w = Some (r, w')"
  shows "\<exists>w0. poll_try S fds d w0 = (Some r, w')"
proof -
  have "\<exists>w0. poll_try S fds d w0 = (Some (fst y), snd y)" if "wait_ready S fds d w = Some y" for y
    using that
  proof (rule wait_ready.raw_induct [where P = "\<lambda>S fds d w y. \<exists>w0. poll_try S fds d w0 = (Some (fst y), snd y)", rotated])
    fix wait :: "('a, 'b, 'c) poll_os \<Rightarrow> _" and S fds d w y
    assume "\<And>S fds d w y. wait S fds d w = Some y \<Longrightarrow> \<exists>w0. poll_try S fds d w0 = (Some (fst y), snd y)"
      and "(case poll_try S fds d w of (None, w1) \<Rightarrow> wait S fds d w1 | (Some r, w1) \<Rightarrow> Some (r, w1)) = Some y"
    then show "\<exists>w0. poll_try S fds d w0 = (Some (fst y), snd y)" by (auto split: prod.splits option.splits)
  qed
  from this [OF assms] show ?thesis by simp
qed

section \<open>Results are delivered\<close>

lemma is_rw_mark [simp]: "is_rw (mark_sub e n sub) = is_rw sub"
  by (cases sub) (auto simp: mark_sub_def rw_error_def rw_complete_def)

fun has_status :: "'f subscription \<Rightarrow> bool" where
  "has_status (SubRead _ st) = (st \<noteq> None)"
| "has_status (SubWrite _ st) = (st \<noteq> None)"
| "has_status (SubMonotonic _ _) = False"

lemma has_status_mark: "is_rw sub \<Longrightarrow> has_status (mark_sub e n sub)"
  by (cases sub) (auto simp: mark_sub_def rw_error_def rw_complete_def)

lemma complete_subs_status:
  assumes "complete_subs S p revs w = (Ok (), p', w')" "length revs = length (rw_subscriptions p)" "rw_subscriptions p \<noteq> []"
  shows "\<exists>x \<in> set p'. has_status (fst x)"
  using assms
proof (induction S p revs w arbitrary: p' w' rule: complete_subs.induct)
  case (2 S sub ud p revs w)
  show ?case
  proof (cases "is_rw sub")
    case False
    obtain r p1 w1 where c: "complete_subs S p revs w = (r, p1, w1)" by (metis prod_cases3)
    with "2.prems"(1) False have "r = Ok ()" "p' = (sub, ud) # p1" by auto
    with "2.IH"(1) [OF False, of p1 w1] "2.prems"(2,3) c False show ?thesis by (auto simp: rw_subscriptions_def)
  next
    case True
    with "2.prems"(2) obtain e es where "revs = e # es" by (cases revs) (auto simp: rw_subscriptions_def)
    with True "2.prems"(1) show ?thesis
      by (auto simp: Let_def has_status_mark split: prod.splits outcome.splits)
  qed
qed (simp add: rw_subscriptions_def)

lemma poll_results_status:
  assumes "x \<in> set p" "has_status (fst x)"
  shows "fst (poll_results now p w) \<noteq> []"
  using assms
proof (induction p arbitrary: w)
  case (Cons y p)
  obtain sub ud where y: "y = (sub, ud)" by (cases y)
  obtain r w1 where r: "from_subscription now sub w = (r, w1)" by (metis surj_pair)
  show ?case
  proof (cases "x = y")
    case True
    with Cons.prems(2) r y have "r \<noteq> None" by (cases sub) auto
    then show ?thesis by (auto simp: y r Let_def split: prod.splits)
  next
    case False
    with Cons have "fst (poll_results now p w1) \<noteq> []" by auto
    then show ?thesis by (auto simp: y r Let_def split: prod.splits option.splits)
  qed
qed simp

lemma poll_results_clock:
  assumes mono: "\<And>w q q'. fst (now q w) \<le> fst (now q' (snd (now q w)))"
    and "(SubMonotonic t q, ud) \<in> set p" "\<And>q. t \<le> fst (now q w)"
  shows "fst (poll_results now p w) \<noteq> []"
  using assms(2,3)
proof (induction p arbitrary: w)
  case (Cons y p)
  obtain sub u where y: "y = (sub, u)" by (cases y)
  obtain r w1 where r: "from_subscription now sub w = (r, w1)" by (metis surj_pair)
  have later: "t \<le> fst (now q w1)" for q
    proof (cases sub)
    case (SubMonotonic d p)
    with r have "w1 = snd (now p w)" by (auto split: prod.splits)
    with mono [of p w q] Cons.prems(2) [of p] show ?thesis by simp
  qed (use r Cons.prems(2) in auto)
  show ?case
  proof (cases "y = (SubMonotonic t q, ud)")
    case True
    with r y Cons.prems(2) [of q] have "r \<noteq> None" by (auto simp: clock_result_def split: prod.splits)
    then show ?thesis by (auto simp: y r Let_def split: prod.splits)
  next
    case False
    with Cons later have "fst (poll_results now p w1) \<noteq> []" by auto
    then show ?thesis by (auto simp: y r Let_def split: prod.splits option.splits)
  qed
qed simp

lemma earliest_mem:
  assumes "earliest_clock_deadline p = Some (d, q)"
  shows "\<exists>ud. (SubMonotonic d q, ud) \<in> set p"
proof -
  let ?g = "\<lambda>(sub, _). case sub of SubMonotonic d q \<Rightarrow> Some (d, q) | _ \<Rightarrow> None"
  have f: "foldl (\<lambda>a b. if fst b < fst a then b else a) t ts \<in> set (t # ts)" for t and ts :: "(nat \<times> nat) list"
  proof (induction ts arbitrary: t)
    case (Cons a ts)
    from Cons [of "if fst a < fst t then a else t"] show ?case by (auto split: if_splits)
  qed simp
  from assms obtain t ts where l: "List.map_filter ?g p = t # ts" "foldl (\<lambda>a b. if fst b < fst a then b else a) t ts = (d, q)"
    by (auto simp: earliest_clock_deadline_def split: list.splits)
  with f [of t ts] have "(d, q) \<in> set (List.map_filter ?g p)" by simp
  then obtain sub ud where x: "(sub, ud) \<in> set p" "?g (sub, ud) = Some (d, q)" by (auto simp: List.map_filter_def)
  then have "sub = SubMonotonic d q" by (auto split: subscription.splits)
  with x(1) show ?thesis by blast
qed

lemma unix_poll_results:
  assumes mono: "\<And>w q q'. fst (os_now S q w) \<le> fst (os_now S q' (snd (os_now S q w)))"
    and os: "\<And>fds t w n revs w'. os_poll S fds t w = (PollReady n revs, w') \<Longrightarrow> length revs = length fds \<and> n \<le> length fds"
    and sub: "poll \<noteq> []"
    and run: "unix_poll_oneoff S poll w = Some (Ok (), poll', w')"
  shows "fst (poll_results (os_now S) poll' w') \<noteq> []"
proof -
  from run sub obtain fds where fds: "collect_ok (map (pollfd_of S) (rw_subscriptions poll)) = Ok fds"
    by (auto simp: unix_poll_oneoff_def split: outcome.splits)
  from run sub fds obtain n revs w1 where wr: "wait_ready S fds (earliest_clock_deadline poll) w = Some (Ok (n, revs), w1)"
    by (auto simp: unix_poll_oneoff_def split: outcome.splits option.splits prod.splits)
  from wait_ready_tries [OF wr] obtain w0 where "poll_try S fds (earliest_clock_deadline poll) w0 = (Some (Ok (n, revs)), w1)" ..
  then obtain t w2 where "os_poll S fds t w2 = (PollReady n revs, w1)"
    by (auto simp: poll_try_def split: prod.splits outcome.splits poll_reply.splits)
  from os [OF this] have len: "length revs = length fds" "n \<le> length fds" by auto
  have fl: "length fds = length (rw_subscriptions poll)" using fds by (metis collect_ok_Ok_iff length_map)
  show ?thesis
  proof (cases "0 < n")
    case True
    with run sub fds wr have c: "complete_subs S poll revs w1 = (Ok (), poll', w')" by (simp add: unix_poll_oneoff_def)
    have "rw_subscriptions poll \<noteq> []" using True len fl by auto
    from complete_subs_status [OF c _ this] len fl obtain x where "x \<in> set poll'" "has_status (fst x)" by auto
    then show ?thesis by (rule poll_results_status)
  next
    case False
    with run sub fds wr obtain d q where e: "earliest_clock_deadline poll = Some (d, q)"
      by (auto simp: unix_poll_oneoff_def split: option.splits)
    obtain now w2 where nw: "os_now S q w1 = (now, w2)" by (metis surj_pair)
    from run sub fds wr False e nw have r: "poll' = poll" "w' = w2" "d \<le> now"
      by (auto simp: unix_poll_oneoff_def split: if_splits)
    have due: "d \<le> fst (os_now S q' w')" for q' using mono [of q w1 q'] nw r by simp
    obtain ud where "(SubMonotonic d q, ud) \<in> set poll'" using earliest_mem [OF e] r(1) by blast
    from poll_results_clock [where now = "os_now S", OF mono this due] show ?thesis .
  qed
qed

section \<open>Properties\<close>

text \<open>
  Claim C33. Waiting for a poll. If the system call is not interrupted for ever, the wait
  returns; and when it returns successfully for a poll with at least one subscription there is at
  least one result: every file has a status, or the earliest timer is due. Assumed are a
  clock that does not go back and a system call that answers for the descriptors it was given.
\<close>

theorem poll_delivers:
  assumes mono: "\<And>w q q'. fst (os_now S q w) \<le> fst (os_now S q' (snd (os_now S q w)))"
    and os: "\<And>fds t w n revs w'. os_poll S fds t w = (PollReady n revs, w') \<Longrightarrow> length revs = length fds \<and> n \<le> length fds"
    and once: "\<And>fds d. \<exists>n. fst (poll_try S fds d (((\<lambda>w. snd (poll_try S fds d w)) ^^ n) w)) \<noteq> None"
    and sub: "poll \<noteq> []"
  shows "(\<exists>r. unix_poll_oneoff S poll w = Some r) \<and>
    (\<forall>poll' w'. unix_poll_oneoff S poll w = Some (Ok (), poll', w') \<longrightarrow> fst (poll_results (os_now S) poll' w') \<noteq> [])"
proof (intro conjI allI impI)
  have wr: "\<exists>r. wait_ready S fds d w = Some r" for fds d
  proof -
    from once obtain n where "fst (poll_try S fds d (((\<lambda>w. snd (poll_try S fds d w)) ^^ n) w)) \<noteq> None" by blast
    then show ?thesis by (rule wait_ready_returns)
  qed
  show "\<exists>r. unix_poll_oneoff S poll w = Some r"
  proof (rule ccontr)
    assume "\<nexists>r. unix_poll_oneoff S poll w = Some r"
    then have "unix_poll_oneoff S poll w = None" by (metis not_None_eq)
    then have "\<exists>fds d. wait_ready S fds d w = None"
      by (auto simp: unix_poll_oneoff_def Let_def split: if_splits outcome.splits option.splits prod.splits)
    with wr show False by (metis option.distinct(1))
  qed
next
  fix poll' w' assume "unix_poll_oneoff S poll w = Some (Ok (), poll', w')"
  then show "fst (poll_results (os_now S) poll' w') \<noteq> []" by (rule unix_poll_results [rotated 3]) (rule mono, erule os, rule sub)
qed

definition demo_poll_os :: "(nat, nat, nat) poll_os" where
  "demo_poll_os =
     \<lparr>os_pollable = Some,
      os_poll = (\<lambda>fds t w. (if w = 0 then PollInterrupted
        else PollReady 0 (map (\<lambda>_. \<lparr>ev_nval = False, ev_err = False, ev_hup = False\<rparr>) fds), w + t)),
      os_ready_bytes = (\<lambda>f. ret 0), os_now = (\<lambda>q w. (w * 1000000, w)), os_errno = OS_OTHER\<rparr>"

lemma demo_poll_try:
  "fst (poll_try demo_poll_os fds d w) = None \<Longrightarrow> 0 < snd (poll_try demo_poll_os fds d w)"
  "0 < w \<Longrightarrow> fst (poll_try demo_poll_os fds d w) \<noteq> None"
  by (auto simp: poll_try_def poll_timeout_def duration_until_def demo_poll_os_def c_int_max_def Let_def split: option.splits if_splits prod.splits)

theorem poll_delivers_witness:
  "\<exists>r. unix_poll_oneoff demo_poll_os [(SubMonotonic 5 0, 9)] 0 = Some r"
proof -
  let ?S = demo_poll_os
  have mono: "fst (os_now ?S q w) \<le> fst (os_now ?S q' (snd (os_now ?S q w)))" for w q q'
    by (simp add: demo_poll_os_def)
  have os: "length revs = length fds \<and> n \<le> length fds" if "os_poll ?S fds t w = (PollReady n revs, w')" for fds t w n revs w'
    using that by (auto simp: demo_poll_os_def split: if_splits)
  have once: "\<exists>n. fst (poll_try ?S fds d (((\<lambda>w. snd (poll_try ?S fds d w)) ^^ n) 0)) \<noteq> None" for fds d
  proof (cases "fst (poll_try ?S fds d 0) = None")
    case True
    from demo_poll_try(2) [OF demo_poll_try(1) [OF True]] show ?thesis by (intro exI [of _ 1]) simp
  qed (auto intro: exI [of _ 0])
  show ?thesis
    using poll_delivers [where S = ?S and w = 0 and poll = "[(SubMonotonic 5 0, 9)]", OF mono os once] by simp
qed

end
