(* ===== verification/WASI_Preview0.thy ===== *)
theory WASI_Preview0
  imports WASI_Calls WASI_Sched
begin

text \<open>
  The older snapshot, \<^verbatim>\<open>crates/wasi-common/src/snapshots/preview_0.rs\<close>, which the launcher also registers. Its types
  come from \<^verbatim>\<open>witx/preview0/typenames.witx\<close>; enumerations with the same variants in both snapshots are one type here,
  flags are words with their own bits. Most calls convert their arguments, make the call of
  the newer snapshot and convert the result; \<^verbatim>\<open>poll_oneoff\<close> has its own code.
\<close>

unbundle bit_operations_syntax

section \<open>Conversions of types\<close>

datatype whence0 = Whence0Cur | Whence0End | Whence0Set

fun whence_from0 :: "whence0 \<Rightarrow> whence" where
  "whence_from0 Whence0Cur = WhenceCur"
| "whence_from0 Whence0End = WhenceEnd"
| "whence_from0 Whence0Set = WhenceSet"

text \<open>The flags of both snapshots with the same name.\<close>

definition lookupflags_names0 :: "(u32 \<times> u32) list" where
  "lookupflags_names0 = [(1, 1)]"

definition fdflags_names0 :: "(u16 \<times> u16) list" where
  "fdflags_names0 = [(1, 1), (2, 2), (4, 4), (8, 8), (16, 16)]"

definition fstflags_names0 :: "(u16 \<times> u16) list" where
  "fstflags_names0 = [(1, 1), (2, 2), (4, 4), (8, 8)]"

definition oflags_names0 :: "(u16 \<times> u16) list" where
  "oflags_names0 = [(1, 1), (2, 2), (4, 4), (8, 8)]"

text \<open>The older snapshot has the first 29 rights, at the same bits; it lacks the right to accept connections.\<close>

definition rights_names0 :: "(u64 \<times> u64) list" where
  "rights_names0 = map (\<lambda>r. (push_bit (right_index r) 1, push_bit (right_index r) 1))
     [FD_DATASYNC, FD_READ, FD_SEEK, FD_FDSTAT_SET_FLAGS, FD_SYNC, FD_TELL, FD_WRITE, FD_ADVISE,
      FD_ALLOCATE, PATH_CREATE_DIRECTORY, PATH_CREATE_FILE, PATH_LINK_SOURCE, PATH_LINK_TARGET,
      PATH_OPEN, FD_READDIR, PATH_READLINK, PATH_RENAME_SOURCE, PATH_RENAME_TARGET,
      PATH_FILESTAT_GET, PATH_FILESTAT_SET_SIZE, PATH_FILESTAT_SET_TIMES, FD_FILESTAT_GET,
      FD_FILESTAT_SET_SIZE, FD_FILESTAT_SET_TIMES, PATH_SYMLINK, PATH_REMOVE_DIRECTORY,
      PATH_UNLINK_FILE, POLL_FD_READWRITE, SOCK_SHUTDOWN]"

definition lookupflags_from0 :: "u32 \<Rightarrow> u32" where "lookupflags_from0 = convert_flags lookupflags_names0"
definition fdflags_from0 :: "u16 \<Rightarrow> u16" where "fdflags_from0 = convert_flags fdflags_names0"
definition fstflags_from0 :: "u16 \<Rightarrow> u16" where "fstflags_from0 = convert_flags fstflags_names0"
definition oflags_from0 :: "u16 \<Rightarrow> u16" where "oflags_from0 = convert_flags oflags_names0"
definition rights_from0 :: "u64 \<Rightarrow> u64" where "rights_from0 = convert_flags rights_names0"

definition fdstat0_from :: "witx_fdstat \<Rightarrow> witx_fdstat" where
  "fdstat0_from e =
     \<lparr>fs_filetype = fs_filetype e, fs_flags = fdflags_from0 (fs_flags e),
      fs_rights_base = rights_from0 (fs_rights_base e), fs_rights_inheriting = rights_from0 (fs_rights_inheriting e)\<rparr>"

text \<open>The link count is 32 bits wide in the older snapshot.\<close>

record filestat0 =
  st0_dev :: u64
  st0_ino :: u64
  st0_filetype :: witx_filetype
  st0_nlink :: u32
  st0_size :: u64
  st0_atim :: u64
  st0_mtim :: u64
  st0_ctim :: u64

definition filestat0_from :: "witx_filestat \<Rightarrow> filestat0" where
  "filestat0_from f =
     \<lparr>st0_dev = st_dev f, st0_ino = st_ino f, st0_filetype = st_filetype f,
      st0_nlink = (if unat (st_nlink f) < 2 ^ 32 then of_nat (unat (st_nlink f)) else - 1),
      st0_size = st_size f, st0_atim = st_atim f, st0_mtim = st_mtim f, st0_ctim = st_ctim f\<rparr>"

section \<open>Calls made by the newer snapshot\<close>

definition unstable_args_get :: "sized_ptr \<Rightarrow> sized_ptr \<Rightarrow> (('w, 'f, 'd) wasi_state, unit) act" where
  "unstable_args_get = args_get"

definition unstable_args_sizes_get :: "(('w, 'f, 'd) wasi_state, u32 \<times> u32) act" where
  "unstable_args_sizes_get = args_sizes_get"

definition unstable_environ_get :: "sized_ptr \<Rightarrow> sized_ptr \<Rightarrow> (('w, 'f, 'd) wasi_state, unit) act" where
  "unstable_environ_get = environ_get"

definition unstable_environ_sizes_get :: "(('w, 'f, 'd) wasi_state, u32 \<times> u32) act" where
  "unstable_environ_sizes_get = environ_sizes_get"

definition unstable_clock_res_get ::
  "('w, 'f, 'd) wasi_host \<Rightarrow> clockid \<Rightarrow> (('w, 'f, 'd) wasi_state, u64) act" where
  "unstable_clock_res_get = clock_res_get"

definition unstable_clock_time_get ::
  "('w, 'f, 'd) wasi_host \<Rightarrow> clockid \<Rightarrow> u64 \<Rightarrow> (('w, 'f, 'd) wasi_state, u64) act" where
  "unstable_clock_time_get = clock_time_get"

definition unstable_fd_advise ::
  "('w, 'f, 'd) wasi_host \<Rightarrow> u32 \<Rightarrow> u64 \<Rightarrow> u64 \<Rightarrow> witx_advice \<Rightarrow> (('w, 'f, 'd) wasi_state, unit) act" where
  "unstable_fd_advise = fd_advise"

definition unstable_fd_allocate :: "u32 \<Rightarrow> u64 \<Rightarrow> u64 \<Rightarrow> (('w, 'f, 'd) wasi_state, unit) act" where
  "unstable_fd_allocate = fd_allocate"

definition unstable_fd_close :: "u32 \<Rightarrow> (('w, 'f, 'd) wasi_state, unit) act" where
  "unstable_fd_close = fd_close"

definition unstable_fd_datasync :: "('w, 'f, 'd) wasi_host \<Rightarrow> u32 \<Rightarrow> (('w, 'f, 'd) wasi_state, unit) act" where
  "unstable_fd_datasync = fd_datasync"

definition unstable_fd_fdstat_get ::
  "('w, 'f, 'd) wasi_host \<Rightarrow> u32 \<Rightarrow> (('w, 'f, 'd) wasi_state, witx_fdstat) act" where
  "unstable_fd_fdstat_get H fd = bind (fd_fdstat_get H fd) (\<lambda>st. ret (fdstat0_from st))"

definition unstable_fd_fdstat_set_flags ::
  "('w, 'f, 'd) wasi_host \<Rightarrow> u32 \<Rightarrow> u16 \<Rightarrow> (('w, 'f, 'd) wasi_state, unit) act" where
  "unstable_fd_fdstat_set_flags H fd flags = fd_fdstat_set_flags H fd (fdflags_from0 flags)"

definition unstable_fd_fdstat_set_rights :: "u32 \<Rightarrow> u64 \<Rightarrow> u64 \<Rightarrow> (('w, 'f, 'd) wasi_state, unit) act" where
  "unstable_fd_fdstat_set_rights fd base inheriting =
     fd_fdstat_set_rights fd (rights_from0 base) (rights_from0 inheriting)"

definition unstable_fd_filestat_get ::
  "('w, 'f, 'd) wasi_host \<Rightarrow> u32 \<Rightarrow> (('w, 'f, 'd) wasi_state, filestat0) act" where
  "unstable_fd_filestat_get H fd = bind (fd_filestat_get H fd) (\<lambda>st. ret (filestat0_from st))"

definition unstable_fd_filestat_set_size ::
  "('w, 'f, 'd) wasi_host \<Rightarrow> u32 \<Rightarrow> u64 \<Rightarrow> (('w, 'f, 'd) wasi_state, unit) act" where
  "unstable_fd_filestat_set_size = fd_filestat_set_size"

definition unstable_fd_filestat_set_times ::
  "('w, 'f, 'd) wasi_host \<Rightarrow> u32 \<Rightarrow> u64 \<Rightarrow> u64 \<Rightarrow> u16 \<Rightarrow> (('w, 'f, 'd) wasi_state, unit) act" where
  "unstable_fd_filestat_set_times H fd at mt fst_flags = fd_filestat_set_times H fd at mt (fstflags_from0 fst_flags)"

definition unstable_fd_read :: "('w, 'f, 'd) wasi_host \<Rightarrow> u32 \<Rightarrow> slice_ptr \<Rightarrow> (('w, 'f, 'd) wasi_state, u32) act" where
  "unstable_fd_read = fd_read"

definition unstable_fd_pread ::
  "('w, 'f, 'd) wasi_host \<Rightarrow> u32 \<Rightarrow> slice_ptr \<Rightarrow> u64 \<Rightarrow> (('w, 'f, 'd) wasi_state, u32) act" where
  "unstable_fd_pread = fd_pread"

definition unstable_fd_write :: "('w, 'f, 'd) wasi_host \<Rightarrow> u32 \<Rightarrow> slice_ptr \<Rightarrow> (('w, 'f, 'd) wasi_state, u32) act" where
  "unstable_fd_write = fd_write"

definition unstable_fd_pwrite ::
  "('w, 'f, 'd) wasi_host \<Rightarrow> u32 \<Rightarrow> slice_ptr \<Rightarrow> u64 \<Rightarrow> (('w, 'f, 'd) wasi_state, u32) act" where
  "unstable_fd_pwrite = fd_pwrite"

definition unstable_fd_prestat_get :: "u32 \<Rightarrow> (('w, 'f, 'd) wasi_state, u32) act" where
  "unstable_fd_prestat_get = fd_prestat_get"

definition unstable_fd_prestat_dir_name :: "u32 \<Rightarrow> sized_ptr \<Rightarrow> u32 \<Rightarrow> (('w, 'f, 'd) wasi_state, unit) act" where
  "unstable_fd_prestat_dir_name = fd_prestat_dir_name"

definition unstable_fd_renumber :: "u32 \<Rightarrow> u32 \<Rightarrow> (('w, 'f, 'd) wasi_state, unit) act" where
  "unstable_fd_renumber = fd_renumber"

definition unstable_fd_seek ::
  "('w, 'f, 'd) wasi_host \<Rightarrow> u32 \<Rightarrow> 64 word \<Rightarrow> whence0 \<Rightarrow> (('w, 'f, 'd) wasi_state, u64) act" where
  "unstable_fd_seek H fd off wh = fd_seek H fd off (whence_from0 wh)"

definition unstable_fd_sync :: "('w, 'f, 'd) wasi_host \<Rightarrow> u32 \<Rightarrow> (('w, 'f, 'd) wasi_state, unit) act" where
  "unstable_fd_sync = fd_sync"

definition unstable_fd_tell :: "('w, 'f, 'd) wasi_host \<Rightarrow> u32 \<Rightarrow> (('w, 'f, 'd) wasi_state, u64) act" where
  "unstable_fd_tell = fd_tell"

definition unstable_fd_readdir ::
  "('w, 'f, 'd) wasi_host \<Rightarrow> u32 \<Rightarrow> sized_ptr \<Rightarrow> u32 \<Rightarrow> u64 \<Rightarrow> (('w, 'f, 'd) wasi_state, u32) act" where
  "unstable_fd_readdir = fd_readdir"

definition unstable_path_create_directory ::
  "('w, 'f, 'd) wasi_host \<Rightarrow> u32 \<Rightarrow> slice_ptr \<Rightarrow> (('w, 'f, 'd) wasi_state, unit) act" where
  "unstable_path_create_directory = path_create_directory"

definition unstable_path_filestat_get ::
  "('w, 'f, 'd) wasi_host \<Rightarrow> u32 \<Rightarrow> u32 \<Rightarrow> slice_ptr \<Rightarrow> (('w, 'f, 'd) wasi_state, filestat0) act" where
  "unstable_path_filestat_get H dirfd flags path =
     bind (path_filestat_get H dirfd (lookupflags_from0 flags) path) (\<lambda>st. ret (filestat0_from st))"

definition unstable_path_filestat_set_times ::
  "('w, 'f, 'd) wasi_host \<Rightarrow> u32 \<Rightarrow> u32 \<Rightarrow> slice_ptr \<Rightarrow> u64 \<Rightarrow> u64 \<Rightarrow> u16 \<Rightarrow> (('w, 'f, 'd) wasi_state, unit) act" where
  "unstable_path_filestat_set_times H dirfd flags path at mt fst_flags =
     path_filestat_set_times H dirfd (lookupflags_from0 flags) path at mt (fstflags_from0 fst_flags)"

definition unstable_path_link ::
  "('w, 'f, 'd) wasi_host \<Rightarrow> u32 \<Rightarrow> u32 \<Rightarrow> slice_ptr \<Rightarrow> u32 \<Rightarrow> slice_ptr \<Rightarrow> (('w, 'f, 'd) wasi_state, unit) act" where
  "unstable_path_link H src_fd src_flags src_path target_fd target_path =
     path_link H src_fd (lookupflags_from0 src_flags) src_path target_fd target_path"

definition unstable_path_open ::
  "('w, 'f, 'd) wasi_host \<Rightarrow> u32 \<Rightarrow> u32 \<Rightarrow> slice_ptr \<Rightarrow> u16 \<Rightarrow> u64 \<Rightarrow> u64 \<Rightarrow> u16 \<Rightarrow> (('w, 'f, 'd) wasi_state, u32) act" where
  "unstable_path_open H dirfd dirflags path oflags rights_base rights_inheriting fdflags =
     path_open H dirfd (lookupflags_from0 dirflags) path (oflags_from0 oflags)
       (rights_from0 rights_base) (rights_from0 rights_inheriting) (fdflags_from0 fdflags)"

definition unstable_path_readlink ::
  "('w, 'f, 'd) wasi_host \<Rightarrow> u32 \<Rightarrow> slice_ptr \<Rightarrow> sized_ptr \<Rightarrow> u32 \<Rightarrow> (('w, 'f, 'd) wasi_state, u32) act" where
  "unstable_path_readlink = path_readlink"

definition unstable_path_remove_directory ::
  "('w, 'f, 'd) wasi_host \<Rightarrow> u32 \<Rightarrow> slice_ptr \<Rightarrow> (('w, 'f, 'd) wasi_state, unit) act" where
  "unstable_path_remove_directory = path_remove_directory"

definition unstable_path_rename ::
  "('w, 'f, 'd) wasi_host \<Rightarrow> u32 \<Rightarrow> slice_ptr \<Rightarrow> u32 \<Rightarrow> slice_ptr \<Rightarrow> (('w, 'f, 'd) wasi_state, unit) act" where
  "unstable_path_rename = path_rename"

definition unstable_path_symlink ::
  "('w, 'f, 'd) wasi_host \<Rightarrow> slice_ptr \<Rightarrow> u32 \<Rightarrow> slice_ptr \<Rightarrow> (('w, 'f, 'd) wasi_state, unit) act" where
  "unstable_path_symlink = path_symlink"

definition unstable_path_unlink_file ::
  "('w, 'f, 'd) wasi_host \<Rightarrow> u32 \<Rightarrow> slice_ptr \<Rightarrow> (('w, 'f, 'd) wasi_state, unit) act" where
  "unstable_path_unlink_file = path_unlink_file"

definition unstable_proc_exit :: "u32 \<Rightarrow> exit_error" where
  "unstable_proc_exit = proc_exit"

definition unstable_proc_raise :: "u8 \<Rightarrow> (('w, 'f, 'd) wasi_state, unit) act" where
  "unstable_proc_raise sig = throw (Trap ''proc_raise unsupported'')"

definition unstable_sched_yield :: "('w, 'f, 'd) wasi_host \<Rightarrow> (('w, 'f, 'd) wasi_state, unit) act" where
  "unstable_sched_yield = sched_yield"

definition unstable_random_get ::
  "('w, 'f, 'd) wasi_host \<Rightarrow> sized_ptr \<Rightarrow> u32 \<Rightarrow> (('w, 'f, 'd) wasi_state, unit) act" where
  "unstable_random_get = random_get"

definition unstable_sock_recv :: "u32 \<Rightarrow> slice_ptr \<Rightarrow> u16 \<Rightarrow> (('w, 'f, 'd) wasi_state, u32 \<times> u16) act" where
  "unstable_sock_recv fd ri_data ri_flags = throw (Trap ''sock_recv unsupported'')"

definition unstable_sock_send :: "u32 \<Rightarrow> slice_ptr \<Rightarrow> u16 \<Rightarrow> (('w, 'f, 'd) wasi_state, u32) act" where
  "unstable_sock_send fd si_data si_flags = throw (Trap ''sock_send unsupported'')"

definition unstable_sock_shutdown :: "u32 \<Rightarrow> u8 \<Rightarrow> (('w, 'f, 'd) wasi_state, unit) act" where
  "unstable_sock_shutdown fd how = throw (Trap ''sock_shutdown unsupported'')"

section \<open>Polling\<close>

text \<open>
  A subscription has 56 bytes here: the clock's contents start with an identifier, which is
  read and not used.
\<close>

definition read_subscription_clock0 :: "guest_memory \<Rightarrow> sized_ptr \<Rightarrow> (subscription_u, guest_error) outcome" where
  "read_subscription_clock0 m p =
     bind_ok (read_at (integer_primitive u64_prim) m p 0) (\<lambda>identifier.
     bind_ok (bind_ok (ptr_add 1 p 8) (read_clockid m)) (\<lambda>clk.
     bind_ok (read_at (integer_primitive u64_prim) m p 16) (\<lambda>timeout.
     bind_ok (read_at (integer_primitive u64_prim) m p 24) (\<lambda>precision.
     bind_ok (bind_ok (ptr_add 1 p 32) (read_subclockflags m)) (\<lambda>flags.
       Ok (SubClock clk timeout precision flags))))))"

definition read_subscription_u0 :: "guest_memory \<Rightarrow> sized_ptr \<Rightarrow> (subscription_u, guest_error) outcome" where
  "read_subscription_u0 m p =
     bind_ok (mem_read (integer_primitive u8_prim) m p) (\<lambda>tag.
       if tag = 0 then bind_ok (ptr_add 1 p 8) (read_subscription_clock0 m)
       else if tag = 1 then bind_ok (ptr_add 1 p 8) (\<lambda>q. map_ok SubFdRead (read_at (integer_primitive u32_prim) m q 0))
       else if tag = 2 then bind_ok (ptr_add 1 p 8) (\<lambda>q. map_ok SubFdWrite (read_at (integer_primitive u32_prim) m q 0))
       else Err (InvalidEnumValue ''SubscriptionU''))"

definition read_subscription0 :: "guest_memory \<Rightarrow> sized_ptr \<Rightarrow> (u64 \<times> subscription_u, guest_error) outcome" where
  "read_subscription0 m p =
     bind_ok (read_at (integer_primitive u64_prim) m p 0) (\<lambda>userdata.
     bind_ok (bind_ok (ptr_add 1 p 8) (read_subscription_u0 m)) (\<lambda>u. Ok (userdata, u)))"

type_synonym 'f poll_refs0 = "'f poll \<times> u32 list \<times> (u32 \<times> u64) list \<times> (u32 \<times> u64) list"

text \<open>The state of the loop: the poll, the descriptors subscribed to, and the two lists \<^verbatim>\<open>reads\<close> and \<^verbatim>\<open>writes\<close>.\<close>

definition poll_subscribe0 ::
  "('w, 'f, 'd) wasi_host \<Rightarrow> u64 \<times> subscription_u \<Rightarrow> 'f poll_refs0 \<Rightarrow> (('w, 'f, 'd) wasi_state, 'f poll_refs0) act" where
  "poll_subscribe0 H sub refs =
     (case (sub, refs) of ((userdata, u), (poll, sub_fds, reads, writes)) \<Rightarrow>
       (case u of
          SubClock clk timeout precision flags \<Rightarrow>
            (case clk of
               Monotonic \<Rightarrow>
                 bind (\<lambda>s. (clocks_monotonic (clocks (ctx s)), s)) (\<lambda>created.
                 bind (if contains flags ABSTIME then ret created else read_monotonic H (unat precision)) (\<lambda>start.
                 bind (lift (ok_or overflow (instant_checked_add start (unat timeout)))) (\<lambda>deadline.
                   ret (subscribe_monotonic_clock deadline (unat precision) userdata poll, sub_fds, reads, writes))))
             | _ \<Rightarrow> throw invalid_argument)
        | SubFdRead fd \<Rightarrow>
            if fd \<in> set sub_fds then throw invalid_argument
            else bind (the_file fd) (\<lambda>_. ret (poll, fd # sub_fds, reads @ [(fd, userdata)], writes))
        | SubFdWrite fd \<Rightarrow>
            if fd \<in> set sub_fds then throw invalid_argument
            else bind (the_file fd) (\<lambda>_. ret (poll, fd # sub_fds, reads, writes @ [(fd, userdata)]))))"

fun poll_subs0 ::
  "('w, 'f, 'd) wasi_host \<Rightarrow> (sized_ptr, guest_error) outcome list \<Rightarrow> 'f poll_refs0 \<Rightarrow>
   (('w, 'f, 'd) wasi_state, 'f poll_refs0) act" where
  "poll_subs0 H [] refs = ret refs"
| "poll_subs0 H (sub_elem # rest) refs =
     bind (lift_guest sub_elem) (\<lambda>sub_ptr.
     bind (read_mem (\<lambda>m. read_subscription0 m sub_ptr)) (\<lambda>sub.
     bind (poll_subscribe0 H sub refs) (\<lambda>refs. poll_subs0 H rest refs)))"

text \<open>After the loop only the poll is used; the two lists are not.\<close>

definition poll_wait0 ::
  "('w, 'f, 'd) wasi_host \<Rightarrow> sized_ptr \<Rightarrow> sized_ptr \<Rightarrow> u32 \<Rightarrow> (('w, 'f, 'd) wasi_state, u32) act" where
  "poll_wait0 H subs events nsubscriptions =
     bind (poll_subs0 H (ptr_iter 56 (as_array subs nsubscriptions)) (poll_new, [], [], [])) (\<lambda>(poll, sub_fds, reads, writes).
     on_world_buf (sched_poll_oneoff H poll) (\<lambda>r poll.
       bind (lift r) (\<lambda>_.
       bind (on_world (\<lambda>w. let (rs, w') = poll_results (monotonic_now H) poll w in (Ok rs, w'))) (\<lambda>results.
       if unat nsubscriptions < length results then lift Panic
       else
         bind (write_events (zip results (ptr_iter 32 (as_array events (of_nat (length results)))))) (\<lambda>_.
           ret (of_nat (length results)))))))"

definition unstable_poll_oneoff ::
  "('w, 'f, 'd) wasi_host \<Rightarrow> sized_ptr \<Rightarrow> sized_ptr \<Rightarrow> u32 \<Rightarrow> (('w, 'f, 'd) wasi_state, u32) act" where
  "unstable_poll_oneoff H subs events nsubscriptions =
     (if nsubscriptions = 0 then throw invalid_argument
      else if nsubscriptions = 1 then
        bind (read_mem (\<lambda>m. read_subscription0 m subs)) (\<lambda>(userdata, u).
        case u of
          SubClock clk timeout precision flags \<Rightarrow>
            if \<not> contains flags ABSTIME then
              bind (on_world (sched_sleep H (unat timeout))) (\<lambda>_.
              bind (write_event events \<lparr>ev_userdata = userdata, ev_error = ESuccess, ev_type = EvClock,
                      ev_nbytes = 0, ev_flags = 0\<rparr>) (\<lambda>_. ret 1))
            else poll_wait0 H subs events nsubscriptions
        | _ \<Rightarrow> poll_wait0 H subs events nsubscriptions)
      else poll_wait0 H subs events nsubscriptions)"

section \<open>Conversions keep the bits\<close>

lemma contains_bit: "n < LENGTH('a) \<Longrightarrow> contains (x :: 'a::len word) (2 ^ n) \<longleftrightarrow> bit x n"
  by (auto simp: contains_def bit_eq_iff [where 'a = "'a word"] bit_simps)

lemma convert_flags_append:
  "convert_flags (ps @ [(a, b)]) f = (if contains f a then convert_flags ps f OR b else convert_flags ps f)"
  by (simp add: convert_flags_def)

lemma convert_flags_same:
  fixes x :: "'a::len word"
  assumes "n \<le> LENGTH('a)"
  shows "convert_flags (map (\<lambda>i. (2 ^ i, 2 ^ i :: 'a word)) [0..<n]) x = take_bit n x"
  using assms
proof (induction n)
  case (Suc n)
  then have ih: "convert_flags (map (\<lambda>i. (2 ^ i, 2 ^ i :: 'a word)) [0..<n]) x = take_bit n x" by simp
  have "(if bit x n then take_bit n x OR 2 ^ n else take_bit n x) = take_bit (Suc n) x"
    using Suc.prems by (auto simp: bit_eq_iff [where 'a = "'a word"] bit_simps less_Suc_eq)
  then show ?case
    using Suc.prems by (auto simp: convert_flags_append ih contains_bit split: if_splits)
qed (simp add: convert_flags_def)

lemma flags0_take_bit:
  "lookupflags_from0 x = take_bit 1 x" "fdflags_from0 y = take_bit 5 y" "fstflags_from0 y = take_bit 4 y"
  "oflags_from0 y = take_bit 4 y" "rights_from0 z = take_bit 29 z"
proof -
  have 1: "lookupflags_names0 = map (\<lambda>i. (2 ^ i, 2 ^ i)) [0..<1]"
    by (simp add: lookupflags_names0_def)
  have 2: "fdflags_names0 = map (\<lambda>i. (2 ^ i, 2 ^ i)) [0..<5]"
    by (simp add: fdflags_names0_def upt_rec)
  have 3: "fstflags_names0 = map (\<lambda>i. (2 ^ i, 2 ^ i)) [0..<4]" "oflags_names0 = map (\<lambda>i. (2 ^ i, 2 ^ i)) [0..<4]"
    by (simp_all add: fstflags_names0_def oflags_names0_def upt_rec)
  have "map right_index [FD_DATASYNC, FD_READ, FD_SEEK, FD_FDSTAT_SET_FLAGS, FD_SYNC, FD_TELL, FD_WRITE, FD_ADVISE,
      FD_ALLOCATE, PATH_CREATE_DIRECTORY, PATH_CREATE_FILE, PATH_LINK_SOURCE, PATH_LINK_TARGET,
      PATH_OPEN, FD_READDIR, PATH_READLINK, PATH_RENAME_SOURCE, PATH_RENAME_TARGET,
      PATH_FILESTAT_GET, PATH_FILESTAT_SET_SIZE, PATH_FILESTAT_SET_TIMES, FD_FILESTAT_GET,
      FD_FILESTAT_SET_SIZE, FD_FILESTAT_SET_TIMES, PATH_SYMLINK, PATH_REMOVE_DIRECTORY,
      PATH_UNLINK_FILE, POLL_FD_READWRITE, SOCK_SHUTDOWN] = [0..<29]"
    by (simp only: list.map right_index_def right.case upt_conv_Cons_Cons) (simp add: upt_rec)
  from arg_cong [OF this, of "map (\<lambda>i. (2 ^ i :: u64, 2 ^ i :: u64))"]
  have 4: "rights_names0 = map (\<lambda>i. (2 ^ i, 2 ^ i)) [0..<29]"
    by (simp only: rights_names0_def map_map comp_def push_bit_of_1)
  show "lookupflags_from0 x = take_bit 1 x" "fdflags_from0 y = take_bit 5 y" "fstflags_from0 y = take_bit 4 y"
    "oflags_from0 y = take_bit 4 y" "rights_from0 z = take_bit 29 z"
    unfolding lookupflags_from0_def fdflags_from0_def fstflags_from0_def oflags_from0_def rights_from0_def 1 2 3 4
    by (rule convert_flags_same, simp)+
qed

lemma filestat0_nlink: "unat (st0_nlink (filestat0_from st)) = min (unat (st_nlink st)) (2 ^ 32 - 1)"
  by (simp add: filestat0_from_def unsigned_ucast_eq take_bit_nat_eq_self unsigned_minus_1_eq_mask mask_eq_exp_minus_1)

lemma filestat0_fields:
  "filestat0_from = (\<lambda>st. \<lparr>st0_dev = st_dev st, st0_ino = st_ino st, st0_filetype = st_filetype st,
      st0_nlink = of_nat (min (unat (st_nlink st)) (2 ^ 32 - 1)), st0_size = st_size st, st0_atim = st_atim st,
      st0_mtim = st_mtim st, st0_ctim = st_ctim st\<rparr>)"
proof
  fix st
  have "st0_nlink (filestat0_from st) = of_nat (min (unat (st_nlink st)) (2 ^ 32 - 1))"
    by (simp add: word_unat_eq_iff filestat0_nlink unsigned_of_nat take_bit_nat_eq_self)
  then show "filestat0_from st = (\<lambda>st. \<lparr>st0_dev = st_dev st, st0_ino = st_ino st, st0_filetype = st_filetype st,
      st0_nlink = of_nat (min (unat (st_nlink st)) (2 ^ 32 - 1)), st0_size = st_size st, st0_atim = st_atim st,
      st0_mtim = st_mtim st, st0_ctim = st_ctim st\<rparr>) st"
    by (simp add: filestat0_from_def)
qed

lemma bind_ret_map: "bind m (\<lambda>x. ret (f x)) s = map_prod (map_ok f) id (m s)"
  by (auto simp: bind_def ret_def split: prod.splits outcome.splits)

section \<open>Properties\<close>

text \<open>
  Claim C31. The older snapshot behaves like the newer one: for arguments whose flags and
  rights are among the defined ones the calls with converted arguments do exactly what
  the newer calls do, with the same errors and the same effect; what \<^verbatim>\<open>fd_fdstat_get\<close> reports loses only the
  flags and the right the older snapshot does not have; and the statistics reported by \<^verbatim>\<open>fd_filestat_get\<close> and
  \<^verbatim>\<open>path_filestat_get\<close> are the same in every field but the link count, which is cut off at \<open>2 ^ 32 - 1\<close>.
\<close>

theorem unstable_calls_agree:
  assumes "take_bit 1 lookup = lookup" and "take_bit 5 fdflags = fdflags" and "take_bit 4 fstflags = fstflags"
    and "take_bit 4 oflags = oflags" and "take_bit 29 base = base" and "take_bit 29 inheriting = inheriting"
  shows "unstable_path_open H fd lookup path oflags base inheriting fdflags s =
      path_open H fd lookup path oflags base inheriting fdflags s \<and>
    unstable_fd_fdstat_set_flags H fd fdflags s = fd_fdstat_set_flags H fd fdflags s \<and>
    unstable_fd_fdstat_set_rights fd base inheriting s = fd_fdstat_set_rights fd base inheriting s \<and>
    unstable_fd_filestat_set_times H fd at mt fstflags s = fd_filestat_set_times H fd at mt fstflags s \<and>
    unstable_path_filestat_set_times H fd lookup path at mt fstflags s =
      path_filestat_set_times H fd lookup path at mt fstflags s \<and>
    unstable_path_link H fd lookup path fd' path' s = path_link H fd lookup path fd' path' s \<and>
    unstable_fd_seek H fd delta Whence0Set s = fd_seek H fd delta WhenceSet s \<and>
    unstable_fd_seek H fd delta Whence0Cur s = fd_seek H fd delta WhenceCur s \<and>
    unstable_fd_seek H fd delta Whence0End s = fd_seek H fd delta WhenceEnd s \<and>
    unstable_fd_fdstat_get H fd s =
      map_prod (map_ok (\<lambda>st. st\<lparr>fs_flags := take_bit 5 (fs_flags st), fs_rights_base := take_bit 29 (fs_rights_base st),
        fs_rights_inheriting := take_bit 29 (fs_rights_inheriting st)\<rparr>)) id (fd_fdstat_get H fd s) \<and>
    unstable_fd_filestat_get H fd s =
      map_prod (map_ok (\<lambda>st. \<lparr>st0_dev = st_dev st, st0_ino = st_ino st, st0_filetype = st_filetype st,
        st0_nlink = of_nat (min (unat (st_nlink st)) (2 ^ 32 - 1)), st0_size = st_size st, st0_atim = st_atim st,
        st0_mtim = st_mtim st, st0_ctim = st_ctim st\<rparr>)) id (fd_filestat_get H fd s) \<and>
    unstable_path_filestat_get H fd lookup path s =
      map_prod (map_ok (\<lambda>st. \<lparr>st0_dev = st_dev st, st0_ino = st_ino st, st0_filetype = st_filetype st,
        st0_nlink = of_nat (min (unat (st_nlink st)) (2 ^ 32 - 1)), st0_size = st_size st, st0_atim = st_atim st,
        st0_mtim = st_mtim st, st0_ctim = st_ctim st\<rparr>)) id (path_filestat_get H fd lookup path s)"
proof -
  have "fdstat0_from = (\<lambda>st. st\<lparr>fs_flags := take_bit 5 (fs_flags st), fs_rights_base := take_bit 29 (fs_rights_base st),
        fs_rights_inheriting := take_bit 29 (fs_rights_inheriting st)\<rparr>)"
    by (simp add: fdstat0_from_def flags0_take_bit fun_eq_iff)
  then show ?thesis
    unfolding unstable_path_open_def unstable_fd_fdstat_set_flags_def unstable_fd_fdstat_set_rights_def
      unstable_fd_filestat_set_times_def unstable_path_filestat_set_times_def unstable_path_link_def unstable_fd_seek_def
      unstable_fd_filestat_get_def unstable_path_filestat_get_def unstable_fd_fdstat_get_def flags0_take_bit bind_ret_map assms
      filestat0_fields [symmetric]
    by simp
qed

theorem unstable_calls_agree_witness:
  "unstable_path_open demo_host 3 1 (GuestPtr (0, 0)) 1 2 0 16 (demo_state (Unshared 0 [])) =
     path_open demo_host 3 1 (GuestPtr (0, 0)) 1 2 0 16 (demo_state (Unshared 0 []))"
  using unstable_calls_agree [of 1 16 0 1 2 0 demo_host 3 "GuestPtr (0, 0)" "demo_state (Unshared 0 [])"] by simp

section \<open>Descriptors are not polled\<close>

definition polls_fd :: "subscription_u \<Rightarrow> bool" where
  "polls_fd u = (case u of SubClock _ _ _ _ \<Rightarrow> False | _ \<Rightarrow> True)"

lemma ptr_iter_one: "ptr_iter sz (as_array p 1) = [Ok p]"
proof (cases p)
  case (GuestPtr x)
  with unat_u32_lt [of x] show ?thesis
    by (simp add: ptr_iter_def as_array_def ptr_len_def as_ptr_def ptr_add_eq offset_base_def)
qed

lemma poll_subscribe0_fd:
  assumes "polls_fd u" "poll_subscribe0 H (ud, u) (poll, fds, reads, writes) s = (Ok (poll', fds', reads', writes'), s')"
  shows "poll' = poll \<and> s' = s"
  using assms
  by (auto simp: polls_fd_def poll_subscribe0_def the_file_def throw_def ret_def elim!: bind_OkE split: subscription_u.splits if_splits)

lemma poll_subs0_fd:
  assumes "\<forall>q ud u. Ok q \<in> set es0 \<longrightarrow> read_subscription0 (mem s) q = Ok (ud, u) \<longrightarrow> polls_fd u"
    and "poll_subs0 H es0 (poll, refs) s = (Ok (poll', refs'), s')"
  shows "poll' = poll \<and> s' = s"
  using assms
proof (induction es0 arbitrary: refs)
  case (Cons e es)
  let ?k = "\<lambda>sub. bind (poll_subscribe0 H sub (poll, refs)) (\<lambda>refs. poll_subs0 H es refs)"
  obtain q s1 where 1: "lift_guest e s = (Ok q, s1)"
    and r1: "bind (read_mem (\<lambda>m. read_subscription0 m q)) ?k s1 = (Ok (poll', refs'), s')"
    using Cons.prems(2) unfolding poll_subs0.simps by (rule bind_OkE)
  from 1 have q: "e = Ok q" "s1 = s" by (auto simp: lift_guest_def lift_def outcome_iffs)
  obtain sub s2 where 2: "read_mem (\<lambda>m. read_subscription0 m q) s = (Ok sub, s2)" and r2: "?k sub s2 = (Ok (poll', refs'), s')"
    using r1 unfolding q by (rule bind_OkE)
  obtain ud u where su: "sub = (ud, u)" by (cases sub)
  from 2 have sub: "read_subscription0 (mem s) q = Ok (ud, u)" and s2: "s2 = s" by (auto simp: read_mem_def outcome_iffs su)
  obtain x s3 where 3: "poll_subscribe0 H (ud, u) (poll, refs) s = (Ok x, s3)"
    and r3: "poll_subs0 H es x s3 = (Ok (poll', refs'), s')"
    using r2 unfolding su s2 by (rule bind_OkE)
  obtain poll1 refs1 where x: "x = (poll1, refs1)" by (cases x)
  obtain fds reads writes where refs: "refs = (fds, reads, writes)" by (metis prod_cases3)
  obtain fds1 reads1 writes1 where refs1: "refs1 = (fds1, reads1, writes1)" by (metis prod_cases3)
  have "polls_fd u" using Cons.prems(1) q sub by auto
  from poll_subscribe0_fd [OF this 3 [unfolded x refs refs1]] have "poll1 = poll" "s3 = s" by simp_all
  with Cons.IH [of refs1] Cons.prems(1) r3 x show ?case by simp
qed (auto simp: ret_def)

text \<open>
  Claim C32. The older snapshot's \<^verbatim>\<open>poll_oneoff\<close> never reports a descriptor. Its subscriptions to files are
  collected but not handed to the scheduler. If all subscriptions are to descriptors the poll
  is empty, the scheduler returns at once, and the call returns zero events and changes
  nothing, although the module asked for at least one.
\<close>

theorem unstable_poll_ignores_files:
  assumes sched: "\<And>p w r. unix_poll_oneoff S p w = Some r \<Longrightarrow> sched_poll_oneoff H p w = r"
    and subs: "\<forall>q ud u. Ok q \<in> set (ptr_iter 56 (as_array subs n)) \<longrightarrow> read_subscription0 (mem s) q = Ok (ud, u) \<longrightarrow> polls_fd u"
    and run: "unstable_poll_oneoff H subs events n s = (Ok k, s')"
  shows "k = 0 \<and> s' = s"
proof -
  have idle: "sched_poll_oneoff H poll_new w = (Ok (), poll_new, w)" for w
    using sched [OF unix_poll_empty] by (simp add: poll_new_def)
  have wait: "k = 0 \<and> s' = s" if pw: "poll_wait0 H subs events n s = (Ok k, s')"
  proof -
    obtain x s1 where p0: "poll_subs0 H (ptr_iter 56 (as_array subs n)) (poll_new, [], [], []) s = (Ok x, s1)"
      using pw unfolding poll_wait0_def by (rule bind_OkE)
    obtain poll refs where "x = (poll, refs)" by (cases x)
    note p = p0 [unfolded this]
    from poll_subs0_fd [OF subs p] have e: "poll = poll_new" "s1 = s" by auto
    obtain fds reads writes where refs: "refs = (fds, reads, writes)" by (metis prod_cases3)
    show ?thesis
      using pw unfolding poll_wait0_def bind_apply [where m = "poll_subs0 H (ptr_iter 56 (as_array subs n)) (poll_new, [], [], [])", OF p]
      by (simp add: e refs on_world_buf_def idle) (simp add: act_simps poll_new_def on_world_def bind_def ret_def)
  qed
  show ?thesis
  proof (cases "n = 1")
    case True
    have mem1: "Ok subs \<in> set (ptr_iter 56 (as_array subs n))" by (simp add: True ptr_iter_one)
    obtain ud u where r: "read_subscription0 (mem s) subs = Ok (ud, u)"
      using run True by (cases "read_subscription0 (mem s) subs") (auto simp: unstable_poll_oneoff_def read_mem_def bind_def)
    with subs mem1 have "polls_fd u" by blast
    with run True r have "poll_wait0 H subs events n s = (Ok k, s')"
      by (auto simp: unstable_poll_oneoff_def polls_fd_def read_mem_def bind_def split: subscription_u.splits)
    with wait show ?thesis by blast
  next
    case False
    with run wait show ?thesis by (auto simp: unstable_poll_oneoff_def throw_def split: if_splits)
  qed
qed

definition demo_sub_memory :: guest_memory where
  "demo_sub_memory = Unshared 0 ([7, 0, 0, 0, 0, 0, 0, 0] @ [1, 0, 0, 0, 0, 0, 0, 0] @ [0, 0, 0, 0, 0, 0, 0, 0])"

lemma demo_sub: "read_subscription0 demo_sub_memory (GuestPtr 0) = Ok (7, SubFdRead 0)"
proof -
  have "prim_read u64_prim demo_sub_memory (GuestPtr 0) = Ok 7" "prim_read u8_prim demo_sub_memory (GuestPtr 8) = Ok 1"
    "prim_read u32_prim demo_sub_memory (GuestPtr 16) = Ok 0"
    by (simp_all only: u64.prim_read_Ok_iff u8.prim_read_Ok_iff u32.prim_read_Ok_iff u64.aligned_at_def u8.aligned_at_def u32.aligned_at_def)
      (simp_all add: demo_sub_memory_def u8_prim_def u32_prim_def u64_prim_def word_prim_def)
  then show ?thesis
    by (simp add: read_subscription0_def read_subscription_u0_def read_at_def ptr_add_eq mem_read_def integer_primitive_def)
qed

definition demo_sched_os :: "(u8 list, nat, nat) poll_os" where
  "demo_sched_os =
     \<lparr>os_pollable = Some, os_poll = (\<lambda>fds t w. (PollInterrupted, w)), os_ready_bytes = (\<lambda>f. ret 0),
      os_now = (\<lambda>q w. (0, w)), os_errno = OS_OTHER\<rparr>"

definition demo_sched_host :: "(u8 list, nat, nat) wasi_host" where
  "demo_sched_host = demo_host\<lparr>sched_poll_oneoff := (\<lambda>p w. case unix_poll_oneoff demo_sched_os p w of Some r \<Rightarrow> r | None \<Rightarrow> (Panic, p, w))\<rparr>"

theorem unstable_poll_ignores_files_witness:
  "unstable_poll_oneoff demo_sched_host (GuestPtr 0) (GuestPtr 0) 1 (demo_state demo_sub_memory) = (Ok 0, demo_state demo_sub_memory)"
proof -
  let ?s = "demo_state demo_sub_memory"
  have m: "mem ?s = demo_sub_memory" by (simp add: demo_state_def)
  note it = ptr_iter_one [of 56 "GuestPtr 0"]
  have f: "the_file 0 ?s = (Ok (file_entry_new 0 MODE_READ), ?s)"
    by (simp add: the_file_def demo_state_def get_file_Ok_iff demo_lookup)
  have sched: "sched_poll_oneoff demo_sched_host p w = r" if "unix_poll_oneoff demo_sched_os p w = Some r" for p w r
    using that by (simp add: demo_sched_host_def)
  note idle = sched [OF unix_poll_empty]
  have "\<exists>k s'. unstable_poll_oneoff demo_sched_host (GuestPtr 0) (GuestPtr 0) 1 ?s = (Ok k, s')"
    by (simp add: unstable_poll_oneoff_def poll_wait0_def it act_simps read_mem_def m demo_sub poll_subscribe0_def f on_world_buf_def
        bind_def lift_guest_def lift_def ret_def on_world_def poll_new_def idle)
  then obtain k s' where run: "unstable_poll_oneoff demo_sched_host (GuestPtr 0) (GuestPtr 0) 1 ?s = (Ok k, s')" by blast
  have "k = 0 \<and> s' = ?s"
    by (rule unstable_poll_ignores_files [OF sched _ run]) (simp_all add: it m demo_sub polls_fd_def)
  with run show ?thesis by simp
qed

end
