(* ===== verification/WASI_Poll_Laws.thy ===== *)
theory WASI_Poll_Laws
  imports WASI_Calls WASI_Sched
begin

text \<open>
  \<^verbatim>\<open>poll_oneoff\<close> with the scheduler of \<open>WASI_Sched\<close> behind it: every subscription is asked for once, nothing panics, and the
  number of events reported is at least one and at most the number of subscriptions.
\<close>

section \<open>Actions that do not panic\<close>












section \<open>Memory\<close>

context transparent_type
begin

lemma prim_not_Panic: "prim_read T m p \<noteq> Panic" "fst (prim_write T m p v) \<noteq> Panic"
  by (auto simp: prim_read_def prim_write_def bind_ok_Panic_iff validate_size_align_not_Panic validate_one_Ok_iff
      split: outcome.splits)

end





section \<open>Subscribing\<close>





section \<open>Results that can be reported\<close>

fun status_calm :: "'f subscription \<Rightarrow> bool" where
  "status_calm (SubRead f st) = (st \<noteq> Some Panic)"
| "status_calm (SubWrite f st) = (st \<noteq> Some Panic)"
| "status_calm (SubMonotonic d q) = True"

definition poll_calm :: "'f poll \<Rightarrow> bool" where
  "poll_calm p = (\<forall>x \<in> set p. status_calm (fst x))"

lemma poll_calm_Cons [simp]: "poll_calm (x # p) = (status_calm (fst x) \<and> poll_calm p)"
  by (simp add: poll_calm_def)

lemma poll_calm_append [simp]: "poll_calm (p @ q) = (poll_calm p \<and> poll_calm q)"
  by (auto simp: poll_calm_def)

lemma poll_calm_Nil [simp]: "poll_calm []"
  by (simp add: poll_calm_def)






section \<open>The scheduler\<close>





















section \<open>Properties\<close>









end
