(* ===== verification/WASI_Sync.thy ===== *)
theory WASI_Sync
  imports WASI_Calls
begin

text \<open>
  The files and directories the launcher gives to the module: \<^verbatim>\<open>crates/wasi-common/src/sync/file.rs\<close>, \<^verbatim>\<open>dir.rs\<close>, \<^verbatim>\<open>stdio.rs\<close>
  and \<^verbatim>\<open>net.rs\<close>, which implement \<^verbatim>\<open>WasiFile\<close> and \<^verbatim>\<open>WasiDir\<close> over the crates cap-std, system-interface and the
  standard library. Those are arguments: records of operations on a world, whose errors are
  \<^verbatim>\<open>io::Error\<close>. The code for Unix is modelled.
\<close>

unbundle bit_operations_syntax

section \<open>The libraries below\<close>

type_synonym ('w, 'a) io = "'w \<Rightarrow> ('a, io_error) outcome \<times> 'w"

record sysif_fdflags =
  sf_append :: bool
  sf_dsync :: bool
  sf_nonblock :: bool
  sf_rsync :: bool
  sf_sync :: bool

datatype sysif_advice = SNormal | SSequential | SRandom | SWillNeed | SDontNeed | SNoReuse

record cap_file_type =
  ft_is_dir :: bool
  ft_is_symlink :: bool
  ft_is_socket :: bool
  ft_is_block_device :: bool
  ft_is_char_device :: bool
  ft_is_file :: bool

record metadata =
  md_dev :: u64
  md_ino :: u64
  md_file_type :: cap_file_type
  md_nlink :: u64
  md_len :: u64
  md_accessed :: "(system_time, io_error) outcome"
  md_modified :: "(system_time, io_error) outcome"
  md_created :: "(system_time, io_error) outcome"

record open_options =
  oo_read :: bool
  oo_write :: bool
  oo_append :: bool
  oo_truncate :: bool
  oo_create :: bool
  oo_create_new :: bool
  oo_maybe_dir :: bool
  oo_follow :: bool

definition open_options_new :: open_options where
  "open_options_new = \<lparr>oo_read = False, oo_write = False, oo_append = False, oo_truncate = False, oo_create = False,
     oo_create_new = False, oo_maybe_dir = False, oo_follow = True\<rparr>"

record ('w, 'cf, 'sf) cap_file =
  cf_sync_data :: "'cf \<Rightarrow> ('w, unit) io"
  cf_sync_all :: "'cf \<Rightarrow> ('w, unit) io"
  cf_metadata :: "'cf \<Rightarrow> ('w, metadata) io"
  cf_get_fd_flags :: "'cf \<Rightarrow> ('w, sysif_fdflags) io"
  cf_new_set_fd_flags :: "'cf \<Rightarrow> sysif_fdflags \<Rightarrow> ('w, 'sf) io"
  cf_set_fd_flags :: "'cf \<Rightarrow> 'sf \<Rightarrow> 'w \<Rightarrow> (unit, io_error) outcome \<times> 'cf \<times> 'w"
  cf_set_len :: "'cf \<Rightarrow> u64 \<Rightarrow> ('w, unit) io"
  cf_advise :: "'cf \<Rightarrow> u64 \<Rightarrow> u64 \<Rightarrow> sysif_advice \<Rightarrow> ('w, unit) io"
  cf_set_times :: "'cf \<Rightarrow> system_time_spec option \<Rightarrow> system_time_spec option \<Rightarrow> ('w, unit) io"
  cf_read_vectored :: "'cf \<Rightarrow> u8 list list \<Rightarrow> 'w \<Rightarrow> (nat, io_error) outcome \<times> u8 list list \<times> 'w"
  cf_read_vectored_at :: "'cf \<Rightarrow> u8 list list \<Rightarrow> u64 \<Rightarrow> 'w \<Rightarrow> (nat, io_error) outcome \<times> u8 list list \<times> 'w"
  cf_write_vectored :: "'cf \<Rightarrow> u8 list list \<Rightarrow> ('w, nat) io"
  cf_write_vectored_at :: "'cf \<Rightarrow> u8 list list \<Rightarrow> u64 \<Rightarrow> ('w, nat) io"
  cf_seek :: "'cf \<Rightarrow> seek_from \<Rightarrow> ('w, u64) io"
  cf_peek :: "'cf \<Rightarrow> u8 list \<Rightarrow> 'w \<Rightarrow> (nat, io_error) outcome \<times> u8 list \<times> 'w"
  cf_num_ready_bytes :: "'cf \<Rightarrow> ('w, u64) io"

text \<open>An entry of a directory: its metadata, and its name if that is a string.\<close>

record dir_entry_info =
  de_full_metadata :: "(metadata, io_error) outcome"
  de_file_name :: "u8 list option"

record ('w, 'cf, 'cd) cap_dir =
  cd_open_with :: "'cd \<Rightarrow> u8 list \<Rightarrow> open_options \<Rightarrow> ('w, 'cf) io"
  cd_from_std_file :: "'cf \<Rightarrow> 'cd"
  cd_rename :: "'cd \<Rightarrow> u8 list \<Rightarrow> 'cd \<Rightarrow> u8 list \<Rightarrow> ('w, unit) io"
  cd_hard_link :: "'cd \<Rightarrow> u8 list \<Rightarrow> 'cd \<Rightarrow> u8 list \<Rightarrow> ('w, unit) io"
  cd_create_dir :: "'cd \<Rightarrow> u8 list \<Rightarrow> ('w, unit) io"
  cd_dir_metadata :: "'cd \<Rightarrow> ('w, metadata) io"
  cd_entries :: "'cd \<Rightarrow> ('w, (dir_entry_info, io_error) outcome list) io"
  cd_symlink :: "'cd \<Rightarrow> u8 list \<Rightarrow> u8 list \<Rightarrow> ('w, unit) io"
  cd_remove_dir :: "'cd \<Rightarrow> u8 list \<Rightarrow> ('w, unit) io"
  cd_remove_file_or_symlink :: "'cd \<Rightarrow> u8 list \<Rightarrow> ('w, unit) io"
  cd_read_link :: "'cd \<Rightarrow> u8 list \<Rightarrow> ('w, u8 list) io"
  cd_metadata :: "'cd \<Rightarrow> u8 list \<Rightarrow> ('w, metadata) io"
  cd_symlink_metadata :: "'cd \<Rightarrow> u8 list \<Rightarrow> ('w, metadata) io"
  cd_set_times :: "'cd \<Rightarrow> u8 list \<Rightarrow> system_time_spec option \<Rightarrow> system_time_spec option \<Rightarrow> ('w, unit) io"
  cd_set_symlink_times :: "'cd \<Rightarrow> u8 list \<Rightarrow> system_time_spec option \<Rightarrow> system_time_spec option \<Rightarrow> ('w, unit) io"

datatype std_stream = Stdin | Stdout | Stderr

record 'w std_io =
  std_is_terminal :: "std_stream \<Rightarrow> 'w \<Rightarrow> bool"
  std_set_times :: "std_stream \<Rightarrow> system_time_spec option \<Rightarrow> system_time_spec option \<Rightarrow> ('w, unit) io"
  stdin_read_vectored :: "u8 list list \<Rightarrow> 'w \<Rightarrow> (nat, io_error) outcome \<times> u8 list list \<times> 'w"
  stdin_num_ready_bytes :: "('w, u64) io"
  std_write_vectored :: "std_stream \<Rightarrow> u8 list list \<Rightarrow> ('w, nat) io"
  std_flush :: "std_stream \<Rightarrow> ('w, unit) io"

datatype shutdown = ShutBoth | ShutRead | ShutWrite

record ('w, 'l, 's) cap_net =
  cl_accept :: "'l \<Rightarrow> ('w, 's) io"
  cl_get_fd_flags :: "'l \<Rightarrow> ('w, sysif_fdflags) io"
  cl_set_nonblocking :: "'l \<Rightarrow> bool \<Rightarrow> ('w, unit) io"
  cs_get_fd_flags :: "'s \<Rightarrow> ('w, sysif_fdflags) io"
  cs_set_nonblocking :: "'s \<Rightarrow> bool \<Rightarrow> ('w, unit) io"
  cs_read_vectored :: "'s \<Rightarrow> u8 list list \<Rightarrow> 'w \<Rightarrow> (nat, io_error) outcome \<times> u8 list list \<times> 'w"
  cs_read_exact_vectored :: "'s \<Rightarrow> u8 list list \<Rightarrow> 'w \<Rightarrow> (unit, io_error) outcome \<times> u8 list list \<times> 'w"
  cs_write_vectored :: "'s \<Rightarrow> u8 list list \<Rightarrow> ('w, nat) io"
  cs_peek :: "'s \<Rightarrow> u8 list \<Rightarrow> 'w \<Rightarrow> (nat, io_error) outcome \<times> u8 list \<times> 'w"
  cs_num_ready_bytes :: "'s \<Rightarrow> ('w, u64) io"
  cs_is_read_write :: "'s \<Rightarrow> ('w, bool \<times> bool) io"
  cs_shutdown :: "'s \<Rightarrow> shutdown \<Rightarrow> ('w, unit) io"

datatype socket_kind = TcpSocket | UnixSocket

record ('w, 'cf, 'sf, 'cd, 'l, 's) sync_libs =
  lib_file :: "('w, 'cf, 'sf) cap_file"
  lib_dir :: "('w, 'cf, 'cd) cap_dir"
  lib_std :: "'w std_io"
  lib_net :: "socket_kind \<Rightarrow> ('w, 'l, 's) cap_net"
  lib_errno :: "i32 \<Rightarrow> rustix_errno"

text \<open>The operator \<^verbatim>\<open>?\<close> on an \<^verbatim>\<open>io::Result\<close>, plain and with the buffers a call fills.\<close>

definition io_act :: "(i32 \<Rightarrow> rustix_errno) \<Rightarrow> ('w, 'a) io \<Rightarrow> ('w, 'a) act" where
  "io_act E a w = (let (r, w') = a w in (map_err (error_from_io E) r, w'))"

definition io_fill ::
  "(i32 \<Rightarrow> rustix_errno) \<Rightarrow> ('a \<Rightarrow> ('b, wasi_error) outcome) \<Rightarrow> (('a, io_error) outcome \<times> 'c \<times> 'w) \<Rightarrow>
   ('b, wasi_error) outcome \<times> 'c \<times> 'w" where
  "io_fill E f r = (case r of (r, bufs, w) \<Rightarrow> (bind_ok (map_err (error_from_io E) r) f, bufs, w))"

section \<open>Conversions\<close>

definition cap_filetype_from :: "cap_file_type \<Rightarrow> file_type" where
  "cap_filetype_from ft =
     (if ft_is_dir ft then Directory
      else if ft_is_symlink ft then SymbolicLink
      else if ft_is_socket ft then (if ft_is_block_device ft then SocketDgram else SocketStream)
      else if ft_is_block_device ft then BlockDevice
      else if ft_is_char_device ft then CharacterDevice
      else if ft_is_file ft then RegularFile
      else Unknown)"

definition FDFLAGS_DSYNC :: u32 where "FDFLAGS_DSYNC = 0b10"
definition FDFLAGS_NONBLOCK :: u32 where "FDFLAGS_NONBLOCK = 0b100"
definition FDFLAGS_RSYNC :: u32 where "FDFLAGS_RSYNC = 0b1000"
definition FDFLAGS_SYNC :: u32 where "FDFLAGS_SYNC = 0b10000"

definition OFLAGS_CREATE :: u32 where "OFLAGS_CREATE = 0b1"
definition OFLAGS_DIRECTORY :: u32 where "OFLAGS_DIRECTORY = 0b10"
definition OFLAGS_EXCLUSIVE :: u32 where "OFLAGS_EXCLUSIVE = 0b100"
definition OFLAGS_TRUNCATE :: u32 where "OFLAGS_TRUNCATE = 0b1000"

definition RECV_PEEK :: u32 where "RECV_PEEK = 0b1"
definition RECV_WAITALL :: u32 where "RECV_WAITALL = 0b10"
definition SHUT_RD :: u32 where "SHUT_RD = 0b1"
definition SHUT_WR :: u32 where "SHUT_WR = 0b10"

definition intersects :: "u32 \<Rightarrow> u32 \<Rightarrow> bool" where
  "intersects f g \<longleftrightarrow> f AND g \<noteq> 0"

definition to_sysif_fdflags :: "u32 \<Rightarrow> sysif_fdflags" where
  "to_sysif_fdflags f =
     \<lparr>sf_append = contains f FDFLAGS_APPEND, sf_dsync = contains f FDFLAGS_DSYNC, sf_nonblock = contains f FDFLAGS_NONBLOCK,
      sf_rsync = contains f FDFLAGS_RSYNC, sf_sync = contains f FDFLAGS_SYNC\<rparr>"

definition sysif_nonblock :: sysif_fdflags where
  "sysif_nonblock = \<lparr>sf_append = False, sf_dsync = False, sf_nonblock = True, sf_rsync = False, sf_sync = False\<rparr>"

definition from_sysif_fdflags :: "sysif_fdflags \<Rightarrow> u32" where
  "from_sysif_fdflags f =
     (if sf_append f then FDFLAGS_APPEND else 0) OR (if sf_dsync f then FDFLAGS_DSYNC else 0) OR
     (if sf_nonblock f then FDFLAGS_NONBLOCK else 0) OR (if sf_rsync f then FDFLAGS_RSYNC else 0) OR
     (if sf_sync f then FDFLAGS_SYNC else 0)"

fun convert_advice :: "advice \<Rightarrow> sysif_advice" where
  "convert_advice Normal = SNormal"
| "convert_advice Sequential = SSequential"
| "convert_advice Random = SRandom"
| "convert_advice WillNeed = SWillNeed"
| "convert_advice DontNeed = SDontNeed"
| "convert_advice NoReuse = SNoReuse"

fun ok_time :: "(system_time, io_error) outcome \<Rightarrow> system_time option" where
  "ok_time (Ok t) = Some t"
| "ok_time _ = None"

definition filestat_of :: "metadata \<Rightarrow> filestat" where
  "filestat_of meta =
     \<lparr>device_id = md_dev meta, inode = md_ino meta, filetype = cap_filetype_from (md_file_type meta), nlink = md_nlink meta,
      file_size = md_len meta, atim = ok_time (md_accessed meta), mtim = ok_time (md_modified meta),
      ctim = ok_time (md_created meta)\<rparr>"

section \<open>Files\<close>

datatype ('cf, 'l, 's) sync_file =
    SyncFile 'cf
  | SyncStd std_stream
  | SyncListener socket_kind 'l
  | SyncStream socket_kind 's

definition cap_set_fdflags ::
  "('w, 'cf, 'sf, 'cd, 'l, 's) sync_libs \<Rightarrow> 'cf \<Rightarrow> sysif_fdflags \<Rightarrow> 'w \<Rightarrow> (unit, wasi_error) outcome \<times> 'cf \<times> 'w" where
  "cap_set_fdflags L c fl w =
     (case io_act (lib_errno L) (cf_new_set_fd_flags (lib_file L) c fl) w of
        (Ok sf, w1) \<Rightarrow> io_fill (lib_errno L) Ok (cf_set_fd_flags (lib_file L) c sf w1)
      | (Err e, w1) \<Rightarrow> (Err e, c, w1)
      | (Panic, w1) \<Rightarrow> (Panic, c, w1))"

definition file_set_fdflags ::
  "('w, 'cf, 'sf, 'cd, 'l, 's) sync_libs \<Rightarrow> 'cf \<Rightarrow> u32 \<Rightarrow> 'w \<Rightarrow> (unit, wasi_error) outcome \<times> 'cf \<times> 'w" where
  "file_set_fdflags L c fdflags w =
     (if intersects fdflags (FDFLAGS_DSYNC OR FDFLAGS_SYNC OR FDFLAGS_RSYNC) then (Err invalid_argument, c, w)
      else cap_set_fdflags L c (to_sysif_fdflags fdflags) w)"

definition file_write_vectored_at ::
  "('w, 'cf, 'sf, 'cd, 'l, 's) sync_libs \<Rightarrow> 'cf \<Rightarrow> u8 list list \<Rightarrow> u64 \<Rightarrow> ('w, u64) act" where
  "file_write_vectored_at L c bufs off =
     (if sum_list (map length bufs) = 0 then ret 0
      else bind (io_act (lib_errno L) (cf_write_vectored_at (lib_file L) c bufs off)) (\<lambda>n. lift (usize_to_u64 n)))"

text \<open>The methods of \<^verbatim>\<open>File\<close>; the ones it does not define are those of the trait.\<close>

definition file_impl ::
  "('w, 'cf, 'sf, 'cd, 'l, 's) sync_libs \<Rightarrow> 'cf \<Rightarrow> ('w, ('cf, 'l, 's) sync_file) file_methods" where
  "file_impl L c =
     (let E = lib_errno L; F = lib_file L
      in (wasi_file_default (\<lambda>_. bind (io_act E (cf_metadata F c)) (\<lambda>meta. ret (cap_filetype_from (md_file_type meta)))))
        \<lparr>datasync := (\<lambda>_. io_act E (cf_sync_data F c)),
         sync := (\<lambda>_. io_act E (cf_sync_all F c)),
         get_fdflags := (\<lambda>_. bind (io_act E (cf_get_fd_flags F c)) (\<lambda>fl. ret (from_sysif_fdflags fl))),
         set_fdflags := (\<lambda>_ fl w. let (r, c', w') = file_set_fdflags L c fl w in (r, SyncFile c', w')),
         get_filestat := (\<lambda>_. bind (io_act E (cf_metadata F c)) (\<lambda>meta. ret (filestat_of meta))),
         set_filestat_size := (\<lambda>_ size. io_act E (cf_set_len F c size)),
         advise := (\<lambda>_ off len a. io_act E (cf_advise F c off len (convert_advice a))),
         set_times := (\<lambda>_ at mt. io_act E (cf_set_times F c at mt)),
         read_vectored := (\<lambda>_ bufs w. io_fill E usize_to_u64 (cf_read_vectored F c bufs w)),
         read_vectored_at := (\<lambda>_ bufs off w. io_fill E usize_to_u64 (cf_read_vectored_at F c bufs off w)),
         write_vectored := (\<lambda>_ bufs. bind (io_act E (cf_write_vectored F c bufs)) (\<lambda>n. lift (usize_to_u64 n))),
         write_vectored_at := (\<lambda>_ bufs off. file_write_vectored_at L c bufs off),
         seek := (\<lambda>_ pos. io_act E (cf_seek F c pos)),
         peek := (\<lambda>_ buf w. io_fill E usize_to_u64 (cf_peek F c buf w)),
         num_ready_bytes := (\<lambda>_. io_act E (cf_num_ready_bytes F c))\<rparr>)"

section \<open>Standard streams\<close>

definition usize_in_range :: "nat \<Rightarrow> (u64, wasi_error) outcome" where
  "usize_in_range n = (if n < 2 ^ 64 then Ok (of_nat n) else Err range_error)"

definition std_filetype :: "'w std_io \<Rightarrow> std_stream \<Rightarrow> ('w, file_type) act" where
  "std_filetype I st w = (Ok (if std_is_terminal I st w then CharacterDevice else Unknown), w)"

definition stdin_impl ::
  "('w, 'cf, 'sf, 'cd, 'l, 's) sync_libs \<Rightarrow> ('w, ('cf, 'l, 's) sync_file) file_methods" where
  "stdin_impl L =
     (let E = lib_errno L; I = lib_std L
      in (wasi_file_default (\<lambda>_. std_filetype I Stdin))
        \<lparr>read_vectored := (\<lambda>_ bufs w. io_fill E usize_in_range (stdin_read_vectored I bufs w)),
         read_vectored_at := (\<lambda>_ bufs _ w. (Err seek_pipe, bufs, w)),
         seek := (\<lambda>_ _. throw seek_pipe),
         peek := (\<lambda>_ buf w. (Err seek_pipe, buf, w)),
         set_times := (\<lambda>_ at mt. io_act E (std_set_times I Stdin at mt)),
         num_ready_bytes := (\<lambda>_. io_act E (stdin_num_ready_bytes I))\<rparr>)"

text \<open>A successful write is followed by a flush.\<close>

definition std_write ::
  "('w, 'cf, 'sf, 'cd, 'l, 's) sync_libs \<Rightarrow> std_stream \<Rightarrow> u8 list list \<Rightarrow> ('w, u64) act" where
  "std_write L st bufs =
     bind (io_act (lib_errno L) (std_write_vectored (lib_std L) st bufs)) (\<lambda>n.
     bind (io_act (lib_errno L) (std_flush (lib_std L) st)) (\<lambda>_.
       lift (usize_in_range n)))"

definition stdout_impl ::
  "('w, 'cf, 'sf, 'cd, 'l, 's) sync_libs \<Rightarrow> std_stream \<Rightarrow> ('w, ('cf, 'l, 's) sync_file) file_methods" where
  "stdout_impl L st =
     (wasi_file_default (\<lambda>_. std_filetype (lib_std L) st))
       \<lparr>get_fdflags := (\<lambda>_. ret FDFLAGS_APPEND),
        write_vectored := (\<lambda>_ bufs. std_write L st bufs),
        write_vectored_at := (\<lambda>_ _ _. throw seek_pipe),
        seek := (\<lambda>_ _. throw seek_pipe),
        set_times := (\<lambda>_ at mt. io_act (lib_errno L) (std_set_times (lib_std L) st at mt))\<rparr>"

section \<open>Sockets\<close>

definition socket_get_fdflags :: "(i32 \<Rightarrow> rustix_errno) \<Rightarrow> ('w, sysif_fdflags) io \<Rightarrow> ('w, u32) act" where
  "socket_get_fdflags E get_fd_flags =
     bind (io_act E get_fd_flags) (\<lambda>fl. ret (if sf_nonblock fl then FDFLAGS_NONBLOCK else 0))"

definition socket_set_fdflags :: "(i32 \<Rightarrow> rustix_errno) \<Rightarrow> (bool \<Rightarrow> ('w, unit) io) \<Rightarrow> u32 \<Rightarrow> ('w, unit) act" where
  "socket_set_fdflags E set_nonblocking fdflags =
     (if fdflags = FDFLAGS_NONBLOCK then io_act E (set_nonblocking True)
      else if fdflags = 0 then io_act E (set_nonblocking False)
      else throw invalid_argument)"

definition listener_accept ::
  "('w, 'cf, 'sf, 'cd, 'l, 's) sync_libs \<Rightarrow> socket_kind \<Rightarrow> 'l \<Rightarrow> u32 \<Rightarrow> ('w, ('cf, 'l, 's) sync_file) act" where
  "listener_accept L k l fdflags =
     bind (io_act (lib_errno L) (cl_accept (lib_net L k) l)) (\<lambda>stream.
     bind (socket_set_fdflags (lib_errno L) (cs_set_nonblocking (lib_net L k) stream) fdflags) (\<lambda>_.
       ret (SyncStream k stream)))"

definition listener_impl ::
  "('w, 'cf, 'sf, 'cd, 'l, 's) sync_libs \<Rightarrow> socket_kind \<Rightarrow> 'l \<Rightarrow> ('w, ('cf, 'l, 's) sync_file) file_methods" where
  "listener_impl L k l =
     (wasi_file_default (\<lambda>_. ret SocketStream))
       \<lparr>sock_accept := (\<lambda>_ fdflags. listener_accept L k l fdflags),
        get_fdflags := (\<lambda>_. socket_get_fdflags (lib_errno L) (cl_get_fd_flags (lib_net L k) l)),
        set_fdflags := (\<lambda>_ fl w. let (r, w') = socket_set_fdflags (lib_errno L) (cl_set_nonblocking (lib_net L k) l) fl w
                                 in (r, SyncListener k l, w')),
        num_ready_bytes := (\<lambda>_. ret 1)\<rparr>"

text \<open>The complement of a set of flags has the flags the type declares and not more.\<close>

definition riflags_complement :: "u32 \<Rightarrow> u32" where
  "riflags_complement f = NOT f AND (RECV_PEEK OR RECV_WAITALL)"

definition stream_recv ::
  "('w, 'cf, 'sf, 'cd, 'l, 's) sync_libs \<Rightarrow> socket_kind \<Rightarrow> 's \<Rightarrow> u8 list list \<Rightarrow> u32 \<Rightarrow> 'w \<Rightarrow>
   (u64 \<times> u32, wasi_error) outcome \<times> u8 list list \<times> 'w" where
  "stream_recv L k s ri_data ri_flags w =
     (let E = lib_errno L; N = lib_net L k; count = (\<lambda>n. Ok (of_nat n, 0))
      in if ri_flags AND riflags_complement (RECV_PEEK OR RECV_WAITALL) \<noteq> 0 then (Err not_supported, ri_data, w)
         else if contains ri_flags RECV_PEEK then
           (case ri_data of
              first # rest \<Rightarrow>
                (case io_fill E count (cs_peek N s first w) of (r, first', w') \<Rightarrow> (r, first' # rest, w'))
            | [] \<Rightarrow> (Ok (0, 0), ri_data, w))
         else if contains ri_flags RECV_WAITALL then
           io_fill E (\<lambda>_. count (sum_list (map length ri_data))) (cs_read_exact_vectored N s ri_data w)
         else io_fill E count (cs_read_vectored N s ri_data w))"

definition stream_send ::
  "('w, 'cf, 'sf, 'cd, 'l, 's) sync_libs \<Rightarrow> socket_kind \<Rightarrow> 's \<Rightarrow> u8 list list \<Rightarrow> u32 \<Rightarrow> ('w, u64) act" where
  "stream_send L k s si_data si_flags =
     (if si_flags \<noteq> 0 then throw not_supported
      else bind (io_act (lib_errno L) (cs_write_vectored (lib_net L k) s si_data)) (\<lambda>n. ret (of_nat n)))"

definition stream_shutdown ::
  "('w, 'cf, 'sf, 'cd, 'l, 's) sync_libs \<Rightarrow> socket_kind \<Rightarrow> 's \<Rightarrow> u32 \<Rightarrow> ('w, unit) act" where
  "stream_shutdown L k s how =
     (if how = SHUT_RD OR SHUT_WR then io_act (lib_errno L) (cs_shutdown (lib_net L k) s ShutBoth)
      else if how = SHUT_RD then io_act (lib_errno L) (cs_shutdown (lib_net L k) s ShutRead)
      else if how = SHUT_WR then io_act (lib_errno L) (cs_shutdown (lib_net L k) s ShutWrite)
      else throw invalid_argument)"

definition stream_impl ::
  "('w, 'cf, 'sf, 'cd, 'l, 's) sync_libs \<Rightarrow> socket_kind \<Rightarrow> 's \<Rightarrow> ('w, ('cf, 'l, 's) sync_file) file_methods" where
  "stream_impl L k s =
     (let E = lib_errno L; N = lib_net L k
      in (wasi_file_default (\<lambda>_. ret SocketStream))
        \<lparr>sock_recv := (\<lambda>_ bufs fl w. stream_recv L k s bufs fl w),
         sock_send := (\<lambda>_ bufs fl. stream_send L k s bufs fl),
         sock_shutdown := (\<lambda>_ how. stream_shutdown L k s how),
         get_fdflags := (\<lambda>_. socket_get_fdflags E (cs_get_fd_flags N s)),
         set_fdflags := (\<lambda>_ fl w. let (r, w') = socket_set_fdflags E (cs_set_nonblocking N s) fl w
                                  in (r, SyncStream k s, w')),
         read_vectored := (\<lambda>_ bufs w. io_fill E usize_to_u64 (cs_read_vectored N s bufs w)),
         write_vectored := (\<lambda>_ bufs. bind (io_act E (cs_write_vectored N s bufs)) (\<lambda>n. lift (usize_to_u64 n))),
         peek := (\<lambda>_ buf w. io_fill E usize_to_u64 (cs_peek N s buf w)),
         num_ready_bytes := (\<lambda>_. io_act E (cs_num_ready_bytes N s)),
         readable := (\<lambda>_. bind (io_act E (cs_is_read_write N s)) (\<lambda>(rd, _). if rd then ret () else throw io)),
         writable := (\<lambda>_. bind (io_act E (cs_is_read_write N s)) (\<lambda>(_, wr). if wr then ret () else throw io))\<rparr>)"

section \<open>Dispatch\<close>

text \<open>A method of a trait object is the one of the object's type.\<close>

fun sync_methods ::
  "('w, 'cf, 'sf, 'cd, 'l, 's) sync_libs \<Rightarrow> ('cf, 'l, 's) sync_file \<Rightarrow> ('w, ('cf, 'l, 's) sync_file) file_methods" where
  "sync_methods L (SyncFile c) = file_impl L c"
| "sync_methods L (SyncStd Stdin) = stdin_impl L"
| "sync_methods L (SyncStd Stdout) = stdout_impl L Stdout"
| "sync_methods L (SyncStd Stderr) = stdout_impl L Stderr"
| "sync_methods L (SyncListener k l) = listener_impl L k l"
| "sync_methods L (SyncStream k s) = stream_impl L k s"

definition sync_files ::
  "('w, 'cf, 'sf, 'cd, 'l, 's) sync_libs \<Rightarrow> ('w, ('cf, 'l, 's) sync_file) file_methods" where
  "sync_files L =
     \<lparr>get_filetype = (\<lambda>f. get_filetype (sync_methods L f) f),
      sock_accept = (\<lambda>f. sock_accept (sync_methods L f) f),
      sock_recv = (\<lambda>f. sock_recv (sync_methods L f) f),
      sock_send = (\<lambda>f. sock_send (sync_methods L f) f),
      sock_shutdown = (\<lambda>f. sock_shutdown (sync_methods L f) f),
      datasync = (\<lambda>f. datasync (sync_methods L f) f),
      sync = (\<lambda>f. sync (sync_methods L f) f),
      get_fdflags = (\<lambda>f. get_fdflags (sync_methods L f) f),
      set_fdflags = (\<lambda>f. set_fdflags (sync_methods L f) f),
      get_filestat = (\<lambda>f. get_filestat (sync_methods L f) f),
      set_filestat_size = (\<lambda>f. set_filestat_size (sync_methods L f) f),
      advise = (\<lambda>f. advise (sync_methods L f) f),
      set_times = (\<lambda>f. set_times (sync_methods L f) f),
      read_vectored = (\<lambda>f. read_vectored (sync_methods L f) f),
      read_vectored_at = (\<lambda>f. read_vectored_at (sync_methods L f) f),
      write_vectored = (\<lambda>f. write_vectored (sync_methods L f) f),
      write_vectored_at = (\<lambda>f. write_vectored_at (sync_methods L f) f),
      seek = (\<lambda>f. seek (sync_methods L f) f),
      peek = (\<lambda>f. peek (sync_methods L f) f),
      num_ready_bytes = (\<lambda>f. num_ready_bytes (sync_methods L f) f),
      readable = (\<lambda>f. readable (sync_methods L f) f),
      writable = (\<lambda>f. writable (sync_methods L f) f)\<rparr>"

section \<open>Directories\<close>

text \<open>The options \<^verbatim>\<open>open_file_\<close> sets, in its order.\<close>

definition open_opts :: "bool \<Rightarrow> u32 \<Rightarrow> bool \<Rightarrow> bool \<Rightarrow> u32 \<Rightarrow> open_options" where
  "open_opts symlink_follow oflags rd wr fdflags =
     (let opts = open_options_new\<lparr>oo_maybe_dir := True\<rparr>;
          opts = (if contains oflags (OFLAGS_CREATE OR OFLAGS_EXCLUSIVE) then opts\<lparr>oo_create_new := True, oo_write := True\<rparr>
                  else if contains oflags OFLAGS_CREATE then opts\<lparr>oo_create := True, oo_write := True\<rparr>
                  else opts);
          opts = (if contains oflags OFLAGS_TRUNCATE then opts\<lparr>oo_truncate := True\<rparr> else opts);
          opts = (if rd then opts\<lparr>oo_read := True\<rparr> else opts);
          opts = (if wr then opts\<lparr>oo_write := True\<rparr> else opts\<lparr>oo_read := True\<rparr>);
          opts = (if contains fdflags FDFLAGS_APPEND then opts\<lparr>oo_append := True\<rparr> else opts)
      in opts\<lparr>oo_follow := symlink_follow\<rparr>)"

text \<open>What happens with the file that was opened.\<close>

definition opened_file ::
  "('w, 'cf, 'sf, 'cd, 'l, 's) sync_libs \<Rightarrow> u32 \<Rightarrow> u32 \<Rightarrow> 'cf \<Rightarrow> ('w, (('cf, 'l, 's) sync_file, 'cd) open_result) act" where
  "opened_file L oflags fdflags f =
     bind (io_act (lib_errno L) (cf_metadata (lib_file L) f)) (\<lambda>meta.
       if ft_is_dir (md_file_type meta) then ret (OpenDir (cd_from_std_file (lib_dir L) f))
       else if contains oflags OFLAGS_DIRECTORY then throw not_dir
       else if contains fdflags FDFLAGS_NONBLOCK then
         (\<lambda>w. let (r, f', w') = cap_set_fdflags L f sysif_nonblock w
              in (map_ok (\<lambda>_. OpenFile (SyncFile f')) r, w'))
       else ret (OpenFile (SyncFile f)))"

definition dir_open_file ::
  "('w, 'cf, 'sf, 'cd, 'l, 's) sync_libs \<Rightarrow> 'cd \<Rightarrow> bool \<Rightarrow> u8 list \<Rightarrow> u32 \<Rightarrow> bool \<Rightarrow> bool \<Rightarrow> u32 \<Rightarrow>
   ('w, (('cf, 'l, 's) sync_file, 'cd) open_result) act" where
  "dir_open_file L d symlink_follow path oflags rd wr fdflags =
     (if intersects fdflags (FDFLAGS_DSYNC OR FDFLAGS_SYNC OR FDFLAGS_RSYNC) then throw not_supported
      else if contains oflags OFLAGS_DIRECTORY \<and>
        (contains oflags OFLAGS_CREATE \<or> contains oflags OFLAGS_EXCLUSIVE \<or> contains oflags OFLAGS_TRUNCATE)
        then throw invalid_argument
      else
        bind (io_act (lib_errno L) (cd_open_with (lib_dir L) d path (open_opts symlink_follow oflags rd wr fdflags)))
          (opened_file L oflags fdflags))"

datatype readdir_error = ReaddirIo io_error | IllegalSequence

definition entry_of :: "(dir_entry_info, io_error) outcome \<Rightarrow> (file_type \<times> u64 \<times> u8 list, readdir_error) outcome" where
  "entry_of e =
     bind_ok (map_err ReaddirIo e) (\<lambda>entry.
     bind_ok (map_err ReaddirIo (de_full_metadata entry)) (\<lambda>meta.
     bind_ok (ok_or IllegalSequence (de_file_name entry)) (\<lambda>name.
       Ok (cap_filetype_from (md_file_type meta), md_ino meta, name))))"

fun readdir_item ::
  "(i32 \<Rightarrow> rustix_errno) \<Rightarrow> nat \<times> (file_type \<times> u64 \<times> u8 list, readdir_error) outcome \<Rightarrow> (readdir_entity, wasi_error) outcome" where
  "readdir_item E (ix, Ok (ft, ino, name)) =
     Ok \<lparr>rd_next = of_nat ix + 1, rd_inode = ino, rd_name = name, rd_filetype = ft\<rparr>"
| "readdir_item E (ix, Err (ReaddirIo e)) = Err (error_from_io E e)"
| "readdir_item E (ix, Err IllegalSequence) = Err illegal_byte_sequence"
| "readdir_item E (ix, Panic) = Panic"

text \<open>
  The source returns an iterator that asks the library for the next entry when it is asked for one; here the
  library's answers are a list that is read at once.
\<close>

definition dir_readdir ::
  "('w, 'cf, 'sf, 'cd, 'l, 's) sync_libs \<Rightarrow> 'cd \<Rightarrow> u64 \<Rightarrow> ('w, (readdir_entity, wasi_error) outcome list) act" where
  "dir_readdir L d cursor =
     bind (io_act (lib_errno L) (cd_dir_metadata (lib_dir L) d)) (\<lambda>dir_meta.
     bind (io_act (lib_errno L) (cd_entries (lib_dir L) d)) (\<lambda>entries.
       let rd = [Ok (Directory, md_ino dir_meta, [0x2E]), Ok (Directory, md_ino dir_meta, [0x2E, 0x2E])] @ map entry_of entries
       in ret (drop (unat cursor) (map (readdir_item (lib_errno L)) (enumerate 0 rd)))))"

definition sync_dirs ::
  "('w, 'cf, 'sf, 'cd, 'l, 's) sync_libs \<Rightarrow> ('w, ('cf, 'l, 's) sync_file, 'cd) dir_methods" where
  "sync_dirs L =
     (let E = lib_errno L; D = lib_dir L
      in \<lparr>open_file = dir_open_file L,
          create_dir = (\<lambda>d path. io_act E (cd_create_dir D d path)),
          readdir = dir_readdir L,
          symlink = (\<lambda>d src dest. io_act E (cd_symlink D d src dest)),
          remove_dir = (\<lambda>d path. io_act E (cd_remove_dir D d path)),
          unlink_file = (\<lambda>d path. io_act E (cd_remove_file_or_symlink D d path)),
          read_link = (\<lambda>d path. io_act E (cd_read_link D d path)),
          dir_get_filestat = (\<lambda>d. bind (io_act E (cd_dir_metadata D d)) (\<lambda>meta. ret (filestat_of meta))),
          get_path_filestat = (\<lambda>d path follow.
            bind (io_act E (if follow then cd_metadata D d path else cd_symlink_metadata D d path))
              (\<lambda>meta. ret (filestat_of meta))),
          rename_to = (\<lambda>d src dest_dir dest. io_act E (cd_rename D d src dest_dir dest)),
          hard_link = (\<lambda>d src target_dir target. io_act E (cd_hard_link D d src target_dir target)),
          dir_set_times = (\<lambda>d path at mt follow.
            io_act E (if follow then cd_set_times D d path at mt else cd_set_symlink_times D d path at mt))\<rparr>)"

section \<open>The host\<close>

definition sync_host ::
  "('w, 'cf, 'sf, 'cd, 'l, 's) sync_libs \<Rightarrow> ('w, ('cf, 'l, 's) sync_file, 'cd) wasi_host \<Rightarrow>
   ('w, ('cf, 'l, 's) sync_file, 'cd) wasi_host" where
  "sync_host L H = H\<lparr>files := sync_files L, dirs := sync_dirs L, rustix_errno_of := lib_errno L\<rparr>"

end
