(* ===== verification/WASI_Sync_Laws.thy ===== *)
theory WASI_Sync_Laws
  imports WASI_Sync
begin

text \<open>
  What the launcher's files and directories do for the module: they meet the contract the calls
  rely on, opening asks the library for what the module asked for, and a directory can be
  listed in parts.
\<close>

unbundle bit_operations_syntax

section \<open>Flags\<close>

lemmas sync_flag_defs = FDFLAGS_APPEND_def FDFLAGS_DSYNC_def FDFLAGS_NONBLOCK_def FDFLAGS_RSYNC_def FDFLAGS_SYNC_def
  OFLAGS_CREATE_def OFLAGS_DIRECTORY_def OFLAGS_EXCLUSIVE_def OFLAGS_TRUNCATE_def

lemma from_sysif_bits: "from_sysif_fdflags f = bits5 (sf_append f) (sf_dsync f) (sf_nonblock f) (sf_rsync f) (sf_sync f)"
  by (simp add: from_sysif_fdflags_def sync_flag_defs bits5_def)

lemma sysif_fdflags_inverse:
  "to_sysif_fdflags (from_sysif_fdflags s) = s" "from_sysif_fdflags (to_sysif_fdflags f) = f AND 31"
proof -
  show "to_sysif_fdflags (from_sysif_fdflags s) = s"
    by (simp add: from_sysif_bits to_sysif_fdflags_def sync_flag_defs contains_bits5)
  show "from_sysif_fdflags (to_sysif_fdflags f) = f AND 31"
    by (simp add: from_sysif_bits to_sysif_fdflags_def sync_flag_defs and_31)
qed

lemma sync_family:
  "intersects (fdflags_from fl) (FDFLAGS_DSYNC OR FDFLAGS_SYNC OR FDFLAGS_RSYNC) \<longleftrightarrow> contains fl 2 \<or> contains fl 8 \<or> contains fl 16"
  by (auto simp: intersects_def sync_flag_defs convert_bits bits5_def)

lemma contains_flags:
  "contains (oflags_from ofl) OFLAGS_CREATE \<longleftrightarrow> contains ofl 1" "contains (oflags_from ofl) OFLAGS_DIRECTORY \<longleftrightarrow> contains ofl 2"
  "contains (oflags_from ofl) OFLAGS_EXCLUSIVE \<longleftrightarrow> contains ofl 4" "contains (oflags_from ofl) OFLAGS_TRUNCATE \<longleftrightarrow> contains ofl 8"
  "contains (oflags_from ofl) (OFLAGS_CREATE OR OFLAGS_EXCLUSIVE) \<longleftrightarrow> contains ofl 1 \<and> contains ofl 4"
  "contains (fdflags_from fl) FDFLAGS_APPEND \<longleftrightarrow> contains fl 1" "contains (fdflags_from fl) FDFLAGS_NONBLOCK \<longleftrightarrow> contains fl 4"
proof -
  show "contains (oflags_from ofl) (OFLAGS_CREATE OR OFLAGS_EXCLUSIVE) \<longleftrightarrow> contains ofl 1 \<and> contains ofl 4"
    by (auto simp: sync_flag_defs convert_bits bits5_def contains_def [of "_ OR _"] contains_def [where 'a = 32])
qed (simp_all add: sync_flag_defs convert_bits contains_bits5)

section \<open>The contract of the host\<close>

text \<open>
  The libraries fill the buffers they are given and do not change their lengths; with that
  the files meet the contract the calls rely on.
\<close>

definition libs_ok :: "('w, 'cf, 'sf, 'cd, 'l, 's) sync_libs \<Rightarrow> bool" where
  "libs_ok L \<longleftrightarrow>
     (\<forall>c bufs w. map length (fst (snd (cf_read_vectored (lib_file L) c bufs w))) = map length bufs) \<and>
     (\<forall>c bufs off w. map length (fst (snd (cf_read_vectored_at (lib_file L) c bufs off w))) = map length bufs) \<and>
     (\<forall>bufs w. map length (fst (snd (stdin_read_vectored (lib_std L) bufs w))) = map length bufs) \<and>
     (\<forall>k c bufs w. map length (fst (snd (cs_read_vectored (lib_net L k) c bufs w))) = map length bufs) \<and>
     (\<forall>k c bufs w. map length (fst (snd (cs_read_exact_vectored (lib_net L k) c bufs w))) = map length bufs) \<and>
     (\<forall>k c buf w. length (fst (snd (cs_peek (lib_net L k) c buf w))) = length buf)"

lemma io_fill_bufs: "fst (snd (io_fill E f r)) = fst (snd r)"
  by (simp add: io_fill_def split: prod.split)

lemma libs_okD:
  assumes "libs_ok L"
  shows "map length (fst (snd (cs_read_vectored (lib_net L k) c bufs w))) = map length bufs"
    "map length (fst (snd (cs_read_exact_vectored (lib_net L k) c bufs w))) = map length bufs"
    "length (fst (snd (cs_peek (lib_net L k) c buf w))) = length buf"
  using assms by (simp_all add: libs_ok_def)

lemma stream_recv_bufs:
  assumes "libs_ok L"
  shows "map length (fst (snd (stream_recv L k s bufs fl w))) = map length bufs"
proof (cases bufs)
  case Nil
  have "fst (snd (cs_read_vectored (lib_net L k) s [] w)) = []" "fst (snd (cs_read_exact_vectored (lib_net L k) s [] w)) = []"
    using libs_okD(1) [OF assms, of k s "[]" w] libs_okD(2) [OF assms, of k s "[]" w] by simp_all
  with Nil show ?thesis by (simp add: stream_recv_def io_fill_bufs Let_def)
next
  case (Cons b rest)
  let ?count = "(\<lambda>n. Ok (of_nat n, 0)) :: nat \<Rightarrow> (u64 \<times> u32, wasi_error) outcome"
  obtain r b' w' where p: "io_fill (lib_errno L) ?count (cs_peek (lib_net L k) s b w) = (r, b', w')"
    by (metis prod_cases3)
  then have "length b' = length b"
    using libs_okD(3) [OF assms, of k s b w] io_fill_bufs [of "lib_errno L" ?count "cs_peek (lib_net L k) s b w"] by simp
  with Cons p assms show ?thesis by (simp add: stream_recv_def io_fill_bufs libs_ok_def Let_def)
qed

lemmas sync_impl_defs = file_impl_def stdin_impl_def stdout_impl_def listener_impl_def stream_impl_def wasi_file_default_def

lemma sync_reads_in_place:
  assumes "libs_ok L"
  shows "map length (fst (snd (read_vectored (sync_files L) f bufs w))) = map length bufs"
    "map length (fst (snd (read_vectored_at (sync_files L) f bufs off w))) = map length bufs"
    "map length (fst (snd (sock_recv (sync_files L) f bufs fl w))) = map length bufs"
  using assms stream_recv_bufs [OF assms]
  by (cases "(L, f)" rule: sync_methods.cases;
      simp add: sync_files_def sync_impl_defs io_fill_bufs Let_def; simp add: libs_ok_def)+

lemma sync_host_ok:
  assumes "libs_ok L" and "\<forall>buf w. length (fst (snd (try_fill_bytes H buf w))) = length buf"
  shows "host_ok (sync_host L H)"
  using assms by (simp add: host_ok_def sync_host_def sync_reads_in_place)

section \<open>Opening\<close>

lemma open_opts_fields:
  "oo_write (open_opts fo ofl rd wr fl) \<longleftrightarrow> wr \<or> contains ofl OFLAGS_CREATE \<or> contains ofl (OFLAGS_CREATE OR OFLAGS_EXCLUSIVE)"
  "oo_read (open_opts fo ofl rd wr fl) \<longleftrightarrow> rd \<or> \<not> wr"
  "oo_create_new (open_opts fo ofl rd wr fl) \<longleftrightarrow> contains ofl (OFLAGS_CREATE OR OFLAGS_EXCLUSIVE)"
  "oo_create (open_opts fo ofl rd wr fl) \<longleftrightarrow> contains ofl OFLAGS_CREATE \<and> \<not> contains ofl (OFLAGS_CREATE OR OFLAGS_EXCLUSIVE)"
  "oo_truncate (open_opts fo ofl rd wr fl) \<longleftrightarrow> contains ofl OFLAGS_TRUNCATE"
  "oo_append (open_opts fo ofl rd wr fl) \<longleftrightarrow> contains fl FDFLAGS_APPEND"
  "oo_follow (open_opts fo ofl rd wr fl) \<longleftrightarrow> fo"
  by (simp_all add: open_opts_def open_options_new_def Let_def)

lemma io_act_Ok: "io_act E a w = (Ok x, w') \<longleftrightarrow> a w = (Ok x, w')"
  by (auto simp: io_act_def map_err_Ok_iff split: prod.splits)

text \<open>A successful opening: what was rejected before, what the library was asked, what came back.\<close>

text \<open>The file that is kept: the one that was opened, or what the library made of it when the descriptor had to be made non-blocking.\<close>

definition made_nonblocking :: "('w, 'cf, 'sf, 'cd, 'l, 's) sync_libs \<Rightarrow> bool \<Rightarrow> 'cf \<Rightarrow> 'w \<Rightarrow> 'cf \<Rightarrow> bool" where
  "made_nonblocking L nonblock f w f' \<longleftrightarrow>
     (if nonblock then
        \<exists>sf w1 w2. cf_new_set_fd_flags (lib_file L) f sysif_nonblock w = (Ok sf, w1) \<and>
          cf_set_fd_flags (lib_file L) f sf w1 = (Ok (), f', w2)
      else f' = f)"

lemma cap_set_fdflags_Ok:
  assumes "cap_set_fdflags L f sysif_nonblock w = (Ok x, f', w')"
  shows "made_nonblocking L True f w f'"
  using assms
  by (auto simp: cap_set_fdflags_def made_nonblocking_def io_fill_def io_act_Ok bind_ok_Ok_iff map_err_Ok_iff
      split: prod.splits outcome.splits)

lemma dir_open_file_Ok:
  assumes "dir_open_file L d follow path ofl rd wr fl w = (Ok r, w')"
  obtains f w1 meta w2 where "cd_open_with (lib_dir L) d path (open_opts follow ofl rd wr fl) w = (Ok f, w1)"
    and "cf_metadata (lib_file L) f w1 = (Ok meta, w2)"
    and "\<not> intersects fl (FDFLAGS_DSYNC OR FDFLAGS_SYNC OR FDFLAGS_RSYNC)"
    and "contains ofl OFLAGS_DIRECTORY \<longrightarrow> ft_is_dir (md_file_type meta) \<and> \<not> contains ofl OFLAGS_CREATE \<and>
      \<not> contains ofl OFLAGS_EXCLUSIVE \<and> \<not> contains ofl OFLAGS_TRUNCATE"
    and "if ft_is_dir (md_file_type meta) then r = OpenDir (cd_from_std_file (lib_dir L) f)
      else \<exists>f'. r = OpenFile (SyncFile f') \<and> made_nonblocking L (contains fl FDFLAGS_NONBLOCK) f w2 f'"
proof -
  have nf: "\<not> intersects fl (FDFLAGS_DSYNC OR FDFLAGS_SYNC OR FDFLAGS_RSYNC)"
    and nd: "\<not> (contains ofl OFLAGS_DIRECTORY \<and>
        (contains ofl OFLAGS_CREATE \<or> contains ofl OFLAGS_EXCLUSIVE \<or> contains ofl OFLAGS_TRUNCATE))"
    using assms by (auto simp: dir_open_file_def throw_def split: if_splits)
  from assms nf nd have "bind (io_act (lib_errno L) (cd_open_with (lib_dir L) d path (open_opts follow ofl rd wr fl)))
      (opened_file L ofl fl) w = (Ok r, w')"
    by (simp add: dir_open_file_def)
  then obtain f w1 where f: "cd_open_with (lib_dir L) d path (open_opts follow ofl rd wr fl) w = (Ok f, w1)"
    and rest: "opened_file L ofl fl f w1 = (Ok r, w')"
    by (rule bind_OkE) (simp add: io_act_Ok that)
  from rest [unfolded opened_file_def] obtain meta w2 where "io_act (lib_errno L) (cf_metadata (lib_file L) f) w1 = (Ok meta, w2)"
    and "(if ft_is_dir (md_file_type meta) then ret (OpenDir (cd_from_std_file (lib_dir L) f))
          else if contains ofl OFLAGS_DIRECTORY then throw not_dir
          else if contains fl FDFLAGS_NONBLOCK then
            (\<lambda>w. let (r, f', w') = cap_set_fdflags L f sysif_nonblock w
                 in (map_ok (\<lambda>_. OpenFile (SyncFile f')) r, w'))
          else ret (OpenFile (SyncFile f))) w2 = (Ok r, w')"
    by (rule bind_OkE)
  with f nf nd show thesis
    by (intro that [of f w1 meta w2]) (auto simp: io_act_Ok ret_def throw_def map_ok_Ok_iff Let_def made_nonblocking_def dest!: cap_set_fdflags_Ok
      split: if_splits prod.splits)
qed

lemma path_open_Ok:
  fixes H :: "('w, 'f, 'd) wasi_host"
  assumes "path_open H dirfd lookup path ofl base inh fl s = (Ok fd, s')"
  obtains d str r w' where "get_dir (table (ctx s)) dirfd = Ok d" and "as_cow_str u8_prim (mem s) path = Ok str"
    and "open_file (dirs H) (entry_dir d) (contains lookup SYMLINK_FOLLOW) str (oflags_from ofl)
      (has_right base FD_READ) (has_right base FD_WRITE) (fdflags_from fl) (world s) = (Ok r, w')"
    and "fd_lookup (table (ctx s')) fd = Some (case r of OpenFile f \<Rightarrow> FileEntry (file_entry_new f
        ((if has_right base FD_READ then MODE_READ else 0) OR (if has_right base FD_WRITE then MODE_WRITE else 0)))
      | OpenDir d \<Rightarrow> DirEntry (dir_entry_new None d))"
proof -
  let ?rd = "has_right base FD_READ" and ?wr = "has_right base FD_WRITE"
  define mode where "mode = (if ?rd then MODE_READ else 0) OR (if ?wr then MODE_WRITE else 0)"
  define add :: "('f, 'd) open_result \<Rightarrow> (('w, 'f, 'd) wasi_state, u32) act" where "add r = (case r of
           OpenFile f \<Rightarrow> on_table (push (Arc False (FileEntry (file_entry_new f mode))))
         | OpenDir d \<Rightarrow> on_table (push (Arc False (DirEntry (dir_entry_new None d)))))" for r
  have notfile: "\<not> is_file s dirfd" using assms by (auto simp: path_open_def throw_def)
  from assms have "bind (the_dir dirfd) (\<lambda>dir_entry. bind (read_str path) (\<lambda>path.
      bind (on_world (open_file (dirs H) (entry_dir dir_entry) (contains lookup SYMLINK_FOLLOW) path
         (oflags_from ofl) ?rd ?wr (fdflags_from fl))) add)) s = (Ok fd, s')"
    using notfile by (simp add: path_open_def Let_def add_def [abs_def] flip: mode_def)
  then obtain d str r w' where "get_dir (table (ctx s)) dirfd = Ok d" "as_cow_str u8_prim (mem s) path = Ok str"
    "open_file (dirs H) (entry_dir d) (contains lookup SYMLINK_FOLLOW) str (oflags_from ofl) ?rd ?wr (fdflags_from fl)
      (world s) = (Ok r, w')"
    and pu: "add r (s\<lparr>world := w'\<rparr>) = (Ok fd, s')"
    by (auto simp: the_dir_def read_str_def read_mem_def on_world_def map_err_Ok_iff bind_def split: prod.splits outcome.splits)
  moreover have "fd_lookup (table (ctx s')) fd = Some (case r of OpenFile f \<Rightarrow> FileEntry (file_entry_new f mode)
      | OpenDir d \<Rightarrow> DirEntry (dir_entry_new None d))"
    using pu by (auto simp: add_def on_table_def dest!: push_Ok split: open_result.splits prod.splits)
  ultimately show thesis using that unfolding mode_def by blast
qed

section \<open>Listing a directory\<close>

text \<open>The entries of a directory: itself, its parent, and what the library found, numbered from one.\<close>

definition listing_names :: "metadata \<Rightarrow> (metadata \<times> u8 list) list \<Rightarrow> (file_type \<times> u64 \<times> u8 list) list" where
  "listing_names m es = (Directory, md_ino m, [0x2E]) # (Directory, md_ino m, [0x2E, 0x2E]) #
     map (\<lambda>(md, name). (cap_filetype_from (md_file_type md), md_ino md, name)) es"

definition dir_listing :: "metadata \<Rightarrow> (metadata \<times> u8 list) list \<Rightarrow> readdir_entity list" where
  "dir_listing m es =
     map (\<lambda>(ix, ft, ino, name). \<lparr>rd_next = of_nat (Suc ix), rd_inode = ino, rd_name = name, rd_filetype = ft\<rparr>)
       (enumerate 0 (listing_names m es))"

lemma dir_readdir_listing:
  assumes "cd_dir_metadata (lib_dir L) d w = (Ok m, w1)"
    and "cd_entries (lib_dir L) d w1 = (Ok (map (\<lambda>(md, name). Ok \<lparr>de_full_metadata = Ok md, de_file_name = Some name\<rparr>) es), w2)"
  shows "dir_readdir L d cursor w = (Ok (map Ok (drop (unat cursor) (dir_listing m es))), w2)"
proof -
  have items: "map (readdir_item E) (enumerate n (map Ok xs)) =
      map Ok (map (\<lambda>(ix, ft, ino, name). \<lparr>rd_next = of_nat (Suc ix), rd_inode = ino, rd_name = name, rd_filetype = ft\<rparr>)
        (enumerate n xs))" for E n xs
    by (induction xs arbitrary: n) (auto simp: ac_simps)
  have found: "[Ok (Directory, md_ino m, [0x2E]), Ok (Directory, md_ino m, [0x2E, 0x2E])] @
      map entry_of (map (\<lambda>(md, name). Ok \<lparr>de_full_metadata = Ok md, de_file_name = Some name\<rparr>) es) = map Ok (listing_names m es)"
    by (simp add: listing_names_def entry_of_def case_prod_unfold)
  have "dir_readdir L d cursor w = (Ok (drop (unat cursor) (map (readdir_item (lib_errno L)) (enumerate 0
      ([Ok (Directory, md_ino m, [0x2E]), Ok (Directory, md_ino m, [0x2E, 0x2E])] @
        map entry_of (map (\<lambda>(md, name). Ok \<lparr>de_full_metadata = Ok md, de_file_name = Some name\<rparr>) es))))), w2)"
    using assms by (simp add: dir_readdir_def bind_def io_act_def ret_def Let_def)
  also have "\<dots> = (Ok (map Ok (drop (unat cursor) (dir_listing m es))), w2)"
    unfolding found items dir_listing_def drop_map ..
  finally show ?thesis .
qed

lemma dir_listing_nth:
  assumes "k < length (dir_listing m es)"
  shows "rd_next (dir_listing m es ! k) = of_nat (Suc k)"
  using assms by (simp add: dir_listing_def nth_enumerate_eq case_prod_unfold)

lemma dir_listing_names: "map rd_name (dir_listing m es) = map (\<lambda>(ft, ino, name). name) (listing_names m es)"
proof -
  have "map rd_name (map (\<lambda>(ix, ft, ino, name). \<lparr>rd_next = of_nat (Suc ix), rd_inode = ino, rd_name = name, rd_filetype = ft\<rparr>)
      (enumerate n xs)) = map (\<lambda>(ft, ino, name). name) xs" for n xs
    by (induction xs arbitrary: n) auto
  then show ?thesis by (simp only: dir_listing_def)
qed

lemma dir_listing_fields:
  "map rd_inode (dir_listing m es) = map (\<lambda>(ft, ino, name). ino) (listing_names m es)"
  "map rd_filetype (dir_listing m es) = map (\<lambda>(ft, ino, name). ft) (listing_names m es)"
proof -
  let ?f = "\<lambda>(ix, ft, ino, name). \<lparr>rd_next = of_nat (Suc ix), rd_inode = ino, rd_name = name, rd_filetype = ft\<rparr>"
  have "map rd_inode (map ?f (enumerate n xs)) = map (\<lambda>(ft, ino, name). ino) xs" for n xs
    by (induction xs arbitrary: n) auto
  moreover have "map rd_filetype (map ?f (enumerate n xs)) = map (\<lambda>(ft, ino, name). ft) xs" for n xs
    by (induction xs arbitrary: n) auto
  ultimately show "map rd_inode (dir_listing m es) = map (\<lambda>(ft, ino, name). ino) (listing_names m es)"
    "map rd_filetype (dir_listing m es) = map (\<lambda>(ft, ino, name). ft) (listing_names m es)"
    by (simp_all only: dir_listing_def)
qed

section \<open>An example\<close>

text \<open>Files are numbers, every opening is counted in the world, directories have one entry.\<close>

definition demo_meta :: metadata where
  "demo_meta =
     \<lparr>md_dev = 1, md_ino = 5, md_file_type = \<lparr>ft_is_dir = False, ft_is_symlink = False, ft_is_socket = False,
        ft_is_block_device = False, ft_is_char_device = False, ft_is_file = True\<rparr>, md_nlink = 1, md_len = 0,
      md_accessed = Ok 0, md_modified = Ok 0, md_created = Ok 0\<rparr>"

definition demo_cap_file :: "(nat, nat, unit) cap_file" where
  "demo_cap_file =
     \<lparr>cf_sync_data = (\<lambda>c w. (Ok (), w)), cf_sync_all = (\<lambda>c w. (Ok (), w)), cf_metadata = (\<lambda>c w. (Ok demo_meta, w)),
      cf_get_fd_flags = (\<lambda>c w. (Ok sysif_nonblock, w)), cf_new_set_fd_flags = (\<lambda>c fl w. (Ok (), w)),
      cf_set_fd_flags = (\<lambda>c sf w. (Ok (), c, w)), cf_set_len = (\<lambda>c n w. (Ok (), w)), cf_advise = (\<lambda>c off n a w. (Ok (), w)),
      cf_set_times = (\<lambda>c at mt w. (Ok (), w)), cf_read_vectored = (\<lambda>c bufs w. (Ok 0, bufs, w)),
      cf_read_vectored_at = (\<lambda>c bufs off w. (Ok 0, bufs, w)), cf_write_vectored = (\<lambda>c bufs w. (Ok 0, w)),
      cf_write_vectored_at = (\<lambda>c bufs off w. (Ok 0, w)), cf_seek = (\<lambda>c p w. (Ok 0, w)), cf_peek = (\<lambda>c b w. (Ok 0, b, w)),
      cf_num_ready_bytes = (\<lambda>c w. (Ok 0, w))\<rparr>"

definition demo_cap_dir :: "(nat, nat, nat) cap_dir" where
  "demo_cap_dir =
     \<lparr>cd_open_with = (\<lambda>d p opts w. (Ok (d + length p), w + 1)), cd_from_std_file = (\<lambda>f. f), cd_rename = (\<lambda>d p e q w. (Ok (), w)),
      cd_hard_link = (\<lambda>d p e q w. (Ok (), w)), cd_create_dir = (\<lambda>d p w. (Ok (), w)), cd_dir_metadata = (\<lambda>d w. (Ok demo_meta, w)),
      cd_entries = (\<lambda>d w. (Ok [Ok \<lparr>de_full_metadata = Ok demo_meta, de_file_name = Some [0x61]\<rparr>], w)),
      cd_symlink = (\<lambda>d p q w. (Ok (), w)), cd_remove_dir = (\<lambda>d p w. (Ok (), w)), cd_remove_file_or_symlink = (\<lambda>d p w. (Ok (), w)),
      cd_read_link = (\<lambda>d p w. (Ok p, w)), cd_metadata = (\<lambda>d p w. (Ok demo_meta, w)),
      cd_symlink_metadata = (\<lambda>d p w. (Ok demo_meta, w)), cd_set_times = (\<lambda>d p at mt w. (Ok (), w)),
      cd_set_symlink_times = (\<lambda>d p at mt w. (Ok (), w))\<rparr>"

definition demo_std :: "nat std_io" where
  "demo_std =
     \<lparr>std_is_terminal = (\<lambda>st w. False), std_set_times = (\<lambda>st at mt w. (Ok (), w)), stdin_read_vectored = (\<lambda>bufs w. (Ok 0, bufs, w)),
      stdin_num_ready_bytes = (\<lambda>w. (Ok 0, w)), std_write_vectored = (\<lambda>st bufs w. (Ok 0, w)), std_flush = (\<lambda>st w. (Ok (), w))\<rparr>"

definition demo_net :: "(nat, unit, unit) cap_net" where
  "demo_net =
     \<lparr>cl_accept = (\<lambda>l w. (Ok (), w)), cl_get_fd_flags = (\<lambda>l w. (Ok sysif_nonblock, w)), cl_set_nonblocking = (\<lambda>l b w. (Ok (), w)),
      cs_get_fd_flags = (\<lambda>s w. (Ok sysif_nonblock, w)), cs_set_nonblocking = (\<lambda>s b w. (Ok (), w)),
      cs_read_vectored = (\<lambda>s bufs w. (Ok 0, bufs, w)), cs_read_exact_vectored = (\<lambda>s bufs w. (Ok (), bufs, w)),
      cs_write_vectored = (\<lambda>s bufs w. (Ok 0, w)), cs_peek = (\<lambda>s b w. (Ok 0, b, w)), cs_num_ready_bytes = (\<lambda>s w. (Ok 0, w)),
      cs_is_read_write = (\<lambda>s w. (Ok (True, True), w)), cs_shutdown = (\<lambda>s how w. (Ok (), w))\<rparr>"

definition demo_libs :: "(nat, nat, unit, nat, unit, unit) sync_libs" where
  "demo_libs = \<lparr>lib_file = demo_cap_file, lib_dir = demo_cap_dir, lib_std = demo_std, lib_net = (\<lambda>_. demo_net), lib_errno = (\<lambda>_. OS_IO)\<rparr>"

definition demo_sync_host :: "(nat, (nat, unit, unit) sync_file, nat) wasi_host" where
  "demo_sync_host =
     \<lparr>files = sync_files demo_libs, dirs = sync_dirs demo_libs, system_resolution = 1, system_now = (\<lambda>_ w. (0, w)),
      monotonic_resolution = 1, monotonic_now = (\<lambda>_ w. (5, w)),
      sched_poll_oneoff = (\<lambda>p w. (Ok (), p, w)), sched_yield_now = ret (), sched_sleep = (\<lambda>_. ret ()),
      try_fill_bytes = (\<lambda>buf w. (Ok (), map (\<lambda>_. 4) buf, w)), rustix_errno_of = (\<lambda>_. OS_IO),
      dirent_padding = [0, 0, 0]\<rparr>"

definition demo_sync_state :: "(nat, (nat, unit, unit) sync_file, nat) wasi_state" where
  "demo_sync_state =
     \<lparr>ctx = \<lparr>args = string_array_new, env = string_array_new, clocks = clocks_new,
        table = \<lparr>fd_map = [(3, Arc False (DirEntry (dir_entry_new (Some [0x2F]) 100)))], next_fd = 3\<rparr>, ctx_cloned = False\<rparr>,
      mem = Unshared 0 (0x61 # 0x62 # replicate 126 0), world = 0\<rparr>"

lemma demo_sync_dir: "get_dir (table (ctx demo_sync_state)) 3 = Ok (dir_entry_new (Some [0x2F]) 100)"
  by (simp add: demo_sync_state_def get_dir_Ok_iff fd_lookup_def)

lemma demo_world: "world demo_sync_state = 0" "length (mem_bytes (mem demo_sync_state)) = 128" "demo_sync_state\<lparr>world := 0\<rparr> = demo_sync_state"
  by (simp_all add: demo_sync_state_def)

lemma demo_padding: "dirent_padding demo_sync_host = [0, 0, 0]"
  by (simp add: demo_sync_host_def)

lemma demo_sync_host_eq: "sync_host demo_libs demo_sync_host = demo_sync_host"
  by (simp add: sync_host_def demo_sync_host_def demo_libs_def)

lemma demo_libs_ok: "libs_ok demo_libs"
  by (simp add: libs_ok_def demo_libs_def demo_cap_file_def demo_std_def demo_net_def)

section \<open>Properties\<close>

text \<open>
  Claim C34. What the module's rights and flags mean for the file system. When \<^verbatim>\<open>path_open\<close> succeeds on a directory of the
  host, cap-std was asked to open the module's path in that directory with options that say
  exactly: write access if and only if the module asked for the right to write or for creation,
  read access if it asked for reading or did not ask for writing, creation, truncation and appending
  as the flags say, symbolic links followed only if asked. Flags of the synchronisation family never
  get that far, and a directory that was asked for is a directory, neither created nor truncated. The
  new descriptor is the directory that was opened, or the file that was opened, made non-blocking if that was asked for, with exactly
  the access to read and write that the rights asked for.
\<close>

theorem sync_open_privileges:
  fixes L :: "('w, 'cf, 'sf, 'cd, 'l, 's) sync_libs"
  assumes run: "path_open (sync_host L H) dirfd lookup path ofl base inh fl s = (Ok fd, s')"
  shows "\<exists>d str opts f w1 meta w2. get_dir (table (ctx s)) dirfd = Ok d \<and> as_cow_str u8_prim (mem s) path = Ok str \<and>
    cd_open_with (lib_dir L) (entry_dir d) str opts (world s) = (Ok f, w1) \<and> cf_metadata (lib_file L) f w1 = (Ok meta, w2) \<and>
    (oo_write opts \<longleftrightarrow> has_right base FD_WRITE \<or> contains ofl 1) \<and>
    (oo_read opts \<longleftrightarrow> has_right base FD_READ \<or> \<not> has_right base FD_WRITE) \<and>
    (oo_create opts \<longleftrightarrow> contains ofl 1 \<and> \<not> contains ofl 4) \<and> (oo_create_new opts \<longleftrightarrow> contains ofl 1 \<and> contains ofl 4) \<and>
    (oo_truncate opts \<longleftrightarrow> contains ofl 8) \<and> (oo_append opts \<longleftrightarrow> contains fl 1) \<and>
    (oo_follow opts \<longleftrightarrow> contains lookup SYMLINK_FOLLOW) \<and>
    \<not> contains fl 2 \<and> \<not> contains fl 8 \<and> \<not> contains fl 16 \<and>
    (contains ofl 2 \<longrightarrow> ft_is_dir (md_file_type meta) \<and> \<not> contains ofl 1 \<and> \<not> contains ofl 4 \<and> \<not> contains ofl 8) \<and>
    (if ft_is_dir (md_file_type meta)
     then fd_lookup (table (ctx s')) fd = Some (DirEntry (dir_entry_new None (cd_from_std_file (lib_dir L) f)))
     else \<exists>f'. made_nonblocking L (contains fl 4) f w2 f' \<and> fd_lookup (table (ctx s')) fd = Some (FileEntry (file_entry_new (SyncFile f')
       ((if has_right base FD_READ then MODE_READ else 0) OR (if has_right base FD_WRITE then MODE_WRITE else 0)))))"
proof -
  let ?rd = "has_right base FD_READ" and ?wr = "has_right base FD_WRITE"
  let ?opts = "open_opts (contains lookup SYMLINK_FOLLOW) (oflags_from ofl) ?rd ?wr (fdflags_from fl)"
  from run obtain d str r w' where d: "get_dir (table (ctx s)) dirfd = Ok d" and str: "as_cow_str u8_prim (mem s) path = Ok str"
    and "open_file (dirs (sync_host L H)) (entry_dir d) (contains lookup SYMLINK_FOLLOW) str (oflags_from ofl) ?rd ?wr
      (fdflags_from fl) (world s) = (Ok r, w')"
    and new: "fd_lookup (table (ctx s')) fd = Some (case r of OpenFile f \<Rightarrow> FileEntry (file_entry_new f
        ((if has_right base FD_READ then MODE_READ else 0) OR (if has_right base FD_WRITE then MODE_WRITE else 0)))
      | OpenDir d \<Rightarrow> DirEntry (dir_entry_new None d))" by (rule path_open_Ok)
  then have o: "dir_open_file L (entry_dir d) (contains lookup SYMLINK_FOLLOW) str (oflags_from ofl) ?rd ?wr (fdflags_from fl)
      (world s) = (Ok r, w')" by (simp add: sync_host_def sync_dirs_def Let_def)
  from o obtain f w1 meta w2 where f: "cd_open_with (lib_dir L) (entry_dir d) str ?opts (world s) = (Ok f, w1)"
    "cf_metadata (lib_file L) f w1 = (Ok meta, w2)"
    and nf: "\<not> intersects (fdflags_from fl) (FDFLAGS_DSYNC OR FDFLAGS_SYNC OR FDFLAGS_RSYNC)"
    and dir: "contains (oflags_from ofl) OFLAGS_DIRECTORY \<longrightarrow> ft_is_dir (md_file_type meta) \<and> \<not> contains (oflags_from ofl) OFLAGS_CREATE \<and>
      \<not> contains (oflags_from ofl) OFLAGS_EXCLUSIVE \<and> \<not> contains (oflags_from ofl) OFLAGS_TRUNCATE"
    and r: "if ft_is_dir (md_file_type meta) then r = OpenDir (cd_from_std_file (lib_dir L) f)
      else \<exists>f'. r = OpenFile (SyncFile f') \<and> made_nonblocking L (contains (fdflags_from fl) FDFLAGS_NONBLOCK) f w2 f'"
    by (rule dir_open_file_Ok)
  have entry: "if ft_is_dir (md_file_type meta)
     then fd_lookup (table (ctx s')) fd = Some (DirEntry (dir_entry_new None (cd_from_std_file (lib_dir L) f)))
     else \<exists>f'. made_nonblocking L (contains fl 4) f w2 f' \<and> fd_lookup (table (ctx s')) fd = Some (FileEntry (file_entry_new (SyncFile f')
       ((if has_right base FD_READ then MODE_READ else 0) OR (if has_right base FD_WRITE then MODE_WRITE else 0))))"
    using r new by (auto simp: contains_flags split: if_splits)
  show ?thesis
    by (rule exI [of _ d], rule exI [of _ str], rule exI [of _ ?opts], rule exI [of _ f], rule exI [of _ w1],
        rule exI [of _ meta], rule exI [of _ w2])
      (use d str f nf dir entry in \<open>simp only: open_opts_fields contains_flags sync_family de_Morgan_disj\<close>; blast)
qed

theorem sync_open_privileges_witness:
  "\<exists>opts. cd_open_with demo_cap_dir 100 [0x61, 0x62] opts 0 = (Ok 102, 1) \<and> oo_write opts \<and> oo_read opts \<and> oo_create opts \<and>
     \<not> oo_truncate opts \<and> \<not> oo_follow opts"
proof -
  let ?base = "rights_of [FD_READ]" and ?path = "GuestPtr (0, 2)"
  have str: "as_cow_str u8_prim (mem demo_sync_state) ?path = Ok [0x61, 0x62]"
    using as_cow_Ok [of 0 2 "mem demo_sync_state"] by (simp add: as_cow_str_def demo_sync_state_def as_array_def)
  have r: "has_right ?base FD_READ" "\<not> has_right ?base FD_WRITE"
    by (simp_all add: has_right_def rights_of_def right_index_def contains_def)
  have flags: "contains (1 :: u16) 1" "\<not> contains (1 :: u16) 2" "\<not> contains (1 :: u16) 4" "\<not> contains (1 :: u16) 8"
    "\<not> contains (0 :: u16) 1" "\<not> contains (0 :: u16) 2" "\<not> contains (0 :: u16) 4" "\<not> contains (0 :: u16) 8"
    "\<not> contains (0 :: u16) 16" "\<not> contains (0 :: u32) SYMLINK_FOLLOW"
    by (simp_all add: contains_def SYMLINK_FOLLOW_def)
  have o: "dir_open_file demo_libs 100 (contains 0 SYMLINK_FOLLOW) [0x61, 0x62] (oflags_from 1) True False (fdflags_from 0) 0 =
      (Ok (OpenFile (SyncFile 102)), 1)"
    by (simp add: dir_open_file_def sync_family contains_flags flags opened_file_def bind_def io_act_def ret_def
        demo_libs_def demo_cap_dir_def demo_cap_file_def demo_meta_def)
  let ?a = "Arc False (FileEntry (file_entry_new (SyncFile 102) MODE_READ))"
  have "0 < wasi_table_room (table (ctx demo_sync_state))"
    by (simp add: wasi_table_room_def demo_sync_state_def u32_MAX_def)
  from push_room [OF this, of ?a] obtain fd t where pu: "push ?a (table (ctx demo_sync_state)) = (Ok fd, t)" by blast
  have "\<not> is_file demo_sync_state 3"
    by (simp add: is_file_def table_is_def demo_sync_state_def is_file_entry_def)
  then have "path_open (sync_host demo_libs demo_sync_host) 3 0 ?path 1 ?base 0 0 demo_sync_state =
      (Ok fd, demo_sync_state\<lparr>world := 1, ctx := (ctx demo_sync_state)\<lparr>table := t\<rparr>\<rparr>)"
    using demo_sync_dir str o pu r
    by (simp add: path_open_def the_dir_def read_str_def read_mem_def bind_def on_world_def on_table_def Let_def
        sync_host_def sync_dirs_def dir_entry_new_def demo_world)
  from sync_open_privileges [OF this] demo_sync_dir str r flags show ?thesis
    by (auto simp: demo_libs_def demo_cap_dir_def demo_sync_state_def)
qed

text \<open>
  Claim C35. Listing a directory. If the host can read the directory, \<^verbatim>\<open>fd_readdir\<close> delivers its entries from the cookie on:
  the directory itself, its parent (with the number of the directory itself), then the entries of the file system in their
  order, each with its number and type, as much as fits. The cookie stored with an entry continues right after that entry, so a module that goes on from the last entry
  it got misses none and sees none twice.
\<close>

theorem sync_readdir_resumes:
  assumes d: "get_dir (table (ctx s)) fd = Ok d"
    and meta: "cd_dir_metadata (lib_dir L) (entry_dir d) (world s) = (Ok m, w1)"
    and ents: "cd_entries (lib_dir L) (entry_dir d) w1 =
      (Ok (map (\<lambda>(md, name). Ok \<lparr>de_full_metadata = Ok md, de_file_name = Some name\<rparr>) es), w2)"
    and pad: "length (dirent_padding H) = 3" and names: "\<forall>(md, name) \<in> set es. length name < 2 ^ 32"
    and buf: "unat (offset buf) + unat n \<le> length (mem_bytes (mem s))" "unat (offset buf) + unat n < 2 ^ 32"
    and few: "length es + 2 < 2 ^ 64"
  shows "\<exists>all. map rd_name all = [0x2E] # [0x2E, 0x2E] # map snd es \<and>
    fd_readdir (sync_host L H) fd buf n cookie s =
      (let bytes = dirent_stream (dirent_padding H) (drop (unat cookie) all)
       in (Ok (of_nat (min (length bytes) (unat n))), with_mem (s\<lparr>world := w2\<rparr>) (unat (offset buf)) (take (unat n) bytes))) \<and>
    (\<forall>k < length all. drop (unat (rd_next (all ! k))) all = drop (Suc k) all) \<and>
    map rd_inode all = md_ino m # md_ino m # map (\<lambda>(md, name). md_ino md) es \<and>
    map rd_filetype all = Directory # Directory # map (\<lambda>(md, name). cap_filetype_from (md_file_type md)) es"
proof -
  let ?all = "dir_listing m es" and ?H = "sync_host L H"
  have nm: "map rd_name ?all = [0x2E] # [0x2E, 0x2E] # map snd es"
    by (simp add: dir_listing_names listing_names_def case_prod_unfold)
  have fields: "map rd_inode ?all = md_ino m # md_ino m # map (\<lambda>(md, name). md_ino md) es"
    "map rd_filetype ?all = Directory # Directory # map (\<lambda>(md, name). cap_filetype_from (md_file_type md)) es"
    by (simp_all add: dir_listing_fields listing_names_def case_prod_unfold)
  have len: "length ?all = length es + 2" by (simp add: dir_listing_def listing_names_def)
  have small: "\<forall>e \<in> set (drop (unat cookie) ?all). length (rd_name e) < 2 ^ 32"
  proof
    fix e assume "e \<in> set (drop (unat cookie) ?all)"
    then have "rd_name e \<in> set (map rd_name ?all)" by (auto dest: in_set_dropD)
    with names show "length (rd_name e) < 2 ^ 32" unfolding nm by auto
  qed
  have "cursor_ok (unat (offset buf)) n buf 0" by (simp add: cursor_ok_def)
  from readdir_loop_stream [where s = "s\<lparr>world := w2\<rparr>", OF this pad small] buf d dir_readdir_listing [OF meta ents]
  have "fd_readdir ?H fd buf n cookie s =
      (let bytes = dirent_stream (dirent_padding H) (drop (unat cookie) ?all)
       in (Ok (of_nat (min (length bytes) (unat n))), with_mem (s\<lparr>world := w2\<rparr>) (unat (offset buf)) (take (unat n) bytes)))"
    by (simp add: fd_readdir_def the_dir_def on_world_def bind_def sync_host_def sync_dirs_def Let_def)
  moreover have "\<forall>k < length ?all. drop (unat (rd_next (?all ! k))) ?all = drop (Suc k) ?all"
    using few len by (simp add: dir_listing_nth unat_of_nat del: of_nat_Suc)
  ultimately show ?thesis using nm fields by (intro exI [of _ ?all] conjI)
qed

theorem sync_readdir_resumes_witness:
  "\<exists>all bytes. map rd_name all = [[0x2E], [0x2E, 0x2E], [0x61]] \<and> bytes = dirent_stream [0, 0, 0] (drop 2 all) \<and>
    fd_readdir demo_sync_host 3 (GuestPtr 10) 100 2 demo_sync_state =
      (Ok (of_nat (min (length bytes) 100)), with_mem demo_sync_state 10 (take 100 bytes)) \<and>
    drop (unat (rd_next (all ! 1))) all = drop 2 all"
proof -
  have "\<exists>all. map rd_name all = [0x2E] # [0x2E, 0x2E] # map snd [(demo_meta, [0x61])] \<and>
    fd_readdir (sync_host demo_libs demo_sync_host) 3 (GuestPtr 10) 100 2 demo_sync_state =
      (let bytes = dirent_stream (dirent_padding demo_sync_host) (drop (unat (2 :: u64)) all)
       in (Ok (of_nat (min (length bytes) (unat (100 :: u32)))), with_mem (demo_sync_state\<lparr>world := 0\<rparr>)
         (unat (offset (GuestPtr (10 :: u32)))) (take (unat (100 :: u32)) bytes))) \<and>
    (\<forall>k < length all. drop (unat (rd_next (all ! k))) all = drop (Suc k) all) \<and>
    map rd_inode all = md_ino demo_meta # md_ino demo_meta # map (\<lambda>(md, name). md_ino md) [(demo_meta, [0x61 :: u8])] \<and>
    map rd_filetype all = Directory # Directory # map (\<lambda>(md, name). cap_filetype_from (md_file_type md)) [(demo_meta, [0x61 :: u8])]"
    by (rule sync_readdir_resumes [OF demo_sync_dir, of _ _ 0])
      (simp_all add: demo_libs_def demo_cap_dir_def demo_world demo_padding)
  moreover have "unat (2 :: u64) = 2" "unat (100 :: u32) = 100" "unat (offset (GuestPtr (10 :: u32))) = 10" by simp_all
  ultimately obtain all where a: "map rd_name all = [[0x2E], [0x2E, 0x2E], [0x61]]"
    "fd_readdir demo_sync_host 3 (GuestPtr 10) 100 2 demo_sync_state =
      (let bytes = dirent_stream [0, 0, 0] (drop 2 all)
       in (Ok (of_nat (min (length bytes) 100)), with_mem demo_sync_state 10 (take 100 bytes)))"
    "\<forall>k < length all. drop (unat (rd_next (all ! k))) all = drop (Suc k) all"
    unfolding demo_sync_host_eq demo_padding demo_world list.map snd_conv by (elim exE conjE) (simp only:)
  from arg_cong [OF a(1), of length] have "1 < length all" by simp
  with a(3) have "drop (unat (rd_next (all ! 1))) all = drop 2 all" by (metis Suc_1)
  with a(1,2) show ?thesis
    by (intro exI [of _ all] exI [of _ "dirent_stream [0, 0, 0] (drop 2 all)"] conjI) (simp_all only: Let_def)
qed

end
