(* ===== verification/Linker.thy ===== *)
theory Linker
  imports Prelude "HOL-Library.AList"
begin

text \<open>
  The linker of the runtime, \<^verbatim>\<open>crates/wasmtime/src/runtime/linker.rs\<close>: a table of definitions under interned
  names, from which a module's imports are taken. The store, instances and functions of the
  runtime are an argument, \<open>runtime\<close>; a name is a \<open>string\<close>.
\<close>

section \<open>Items\<close>

text \<open>An item refers to something in a store, the type of which is opaque here.\<close>

datatype 'h extern = ExFunc 'h | ExGlobal 'h | ExTable 'h | ExMemory 'h | ExSharedMemory 'h

datatype 'ty extern_type = EtFunc 'ty | EtGlobal 'ty | EtTable 'ty | EtMemory 'ty

datatype 'ty definition_type =
    DtFunc 'ty
  | DtGlobal 'ty
  | DtTable 'ty u32
  | DtMemory 'ty u64

datatype ('h, 'ty, 'hf) link_def = DefExtern "'h extern" "'ty definition_type" | DefHostFunc 'hf

type_synonym 'ty import_type = "string \<times> string \<times> 'ty extern_type"

record 'ty wasm_module =
  module_imports :: "'ty import_type list"
  module_exports :: "(string \<times> 'ty extern_type) list"

datatype ('e, 'ty) link_error =
    DefinedTwice string "string option"
  | NoItem string string
  | NotAFunction string string
  | CommandExport string
  | StartNotFunction
  | InitializeNotFunction
  | CommandAndReactor
  | UnknownImport string string "'ty extern_type"
  | NoDefault 'ty
  | RuntimeError 'e

text \<open>
  What the linker uses of the rest of the runtime. A function made by the linker from a module's
  export is given by the module, the export's name and the resolved imports.
\<close>

record ('s, 'h, 'ty, 'hf, 'inst, 'e) runtime =
  type_of :: "'s \<Rightarrow> 'h \<Rightarrow> 'ty"
  table_size :: "'s \<Rightarrow> 'h \<Rightarrow> u32"
  memory_size :: "'s \<Rightarrow> 'h \<Rightarrow> u64"
  same_store :: "'s \<Rightarrow> 'h extern \<Rightarrow> bool"
  same_engine :: "'s \<Rightarrow> bool"
  sig_index :: "'hf \<Rightarrow> 'ty"
  to_func :: "'hf \<Rightarrow> 's \<Rightarrow> 'h \<times> 's"
  noop_func :: "'s \<Rightarrow> 'h \<times> 's"
  pre_ok :: "'ty wasm_module \<Rightarrow> ('h, 'ty, 'hf) link_def list \<Rightarrow> (unit, 'e) outcome"
  instantiate_now :: "'ty wasm_module \<Rightarrow> ('h, 'ty, 'hf) link_def list \<Rightarrow> 's \<Rightarrow> ('inst, 'e) outcome \<times> 's"
  command_func :: "'ty wasm_module \<Rightarrow> string \<Rightarrow> ('h, 'ty, 'hf) link_def list \<Rightarrow> 's \<Rightarrow> 'h \<times> 's"
  instance_exports :: "'s \<Rightarrow> 'inst \<Rightarrow> (string \<times> 'h extern) list"
  call_unit :: "'h \<Rightarrow> 's \<Rightarrow> (unit, 'e) outcome \<times> 's"

section \<open>Definitions\<close>

definition definition_type_from ::
  "('s, 'h, 'ty, 'hf, 'inst, 'e) runtime \<Rightarrow> 's \<Rightarrow> 'h extern \<Rightarrow> 'ty definition_type" where
  "definition_type_from R s item =
     (case item of
        ExFunc f \<Rightarrow> DtFunc (type_of R s f)
      | ExTable t \<Rightarrow> DtTable (type_of R s t) (table_size R s t)
      | ExGlobal g \<Rightarrow> DtGlobal (type_of R s g)
      | ExMemory m \<Rightarrow> DtMemory (type_of R s m) (memory_size R s m)
      | ExSharedMemory m \<Rightarrow> DtMemory (type_of R s m) (memory_size R s m))"

definition link_def_new ::
  "('s, 'h, 'ty, 'hf, 'inst, 'e) runtime \<Rightarrow> 's \<Rightarrow> 'h extern \<Rightarrow> ('h, 'ty, 'hf) link_def" where
  "link_def_new R s item = DefExtern item (definition_type_from R s item)"

definition link_def_ty ::
  "('s, 'h, 'ty, 'hf, 'inst, 'e) runtime \<Rightarrow> ('h, 'ty, 'hf) link_def \<Rightarrow> 'ty definition_type" where
  "link_def_ty R d = (case d of DefExtern _ ty \<Rightarrow> ty | DefHostFunc f \<Rightarrow> DtFunc (sig_index R f))"

definition to_extern ::
  "('s, 'h, 'ty, 'hf, 'inst, 'e) runtime \<Rightarrow> ('h, 'ty, 'hf) link_def \<Rightarrow> 's \<Rightarrow> 'h extern \<times> 's" where
  "to_extern R d s =
     (case d of
        DefExtern e _ \<Rightarrow> (e, s)
      | DefHostFunc f \<Rightarrow> (let (h, s') = to_func R f s in (ExFunc h, s')))"

definition comes_from_same_store ::
  "('s, 'h, 'ty, 'hf, 'inst, 'e) runtime \<Rightarrow> 's \<Rightarrow> ('h, 'ty, 'hf) link_def \<Rightarrow> bool" where
  "comes_from_same_store R s d = (case d of DefExtern e _ \<Rightarrow> same_store R s e | DefHostFunc _ \<Rightarrow> True)"

definition update_size ::
  "('s, 'h, 'ty, 'hf, 'inst, 'e) runtime \<Rightarrow> 's \<Rightarrow> ('h, 'ty, 'hf) link_def \<Rightarrow> ('h, 'ty, 'hf) link_def" where
  "update_size R s d =
     (case d of
        DefExtern (ExMemory m) (DtMemory ty _) \<Rightarrow> DefExtern (ExMemory m) (DtMemory ty (memory_size R s m))
      | DefExtern (ExSharedMemory m) (DtMemory ty _) \<Rightarrow> DefExtern (ExSharedMemory m) (DtMemory ty (memory_size R s m))
      | DefExtern (ExTable t) (DtTable ty _) \<Rightarrow> DefExtern (ExTable t) (DtTable ty (table_size R s t))
      | _ \<Rightarrow> d)"

definition definition_type_desc :: "'ty definition_type \<Rightarrow> string" where
  "definition_type_desc ty =
     (case ty of DtFunc _ \<Rightarrow> ''function'' | DtTable _ _ \<Rightarrow> ''table'' | DtMemory _ _ \<Rightarrow> ''memory'' | DtGlobal _ \<Rightarrow> ''global'')"

section \<open>The table of definitions\<close>

record ('h, 'ty, 'hf) linker =
  string2idx :: "(string \<times> nat) list"
  strings :: "string list"
  link_map :: "((nat \<times> nat) \<times> ('h, 'ty, 'hf) link_def) list"
  shadowing :: bool
  unknown_exports :: bool

definition usize_max :: nat where "usize_max = 2 ^ 64 - 1"

definition linker_new :: "('h, 'ty, 'hf) linker" where
  "linker_new = \<lparr>string2idx = [], strings = [], link_map = [], shadowing = False, unknown_exports = False\<rparr>"

definition allow_shadowing :: "bool \<Rightarrow> ('h, 'ty, 'hf) linker \<Rightarrow> ('h, 'ty, 'hf) linker" where
  "allow_shadowing allow l = l\<lparr>shadowing := allow\<rparr>"

definition allow_unknown_exports :: "bool \<Rightarrow> ('h, 'ty, 'hf) linker \<Rightarrow> ('h, 'ty, 'hf) linker" where
  "allow_unknown_exports allow l = l\<lparr>unknown_exports := allow\<rparr>"

definition intern_str :: "string \<Rightarrow> ('h, 'ty, 'hf) linker \<Rightarrow> nat \<times> ('h, 'ty, 'hf) linker" where
  "intern_str s l =
     (case map_of (string2idx l) s of
        Some idx \<Rightarrow> (idx, l)
      | None \<Rightarrow>
          (let idx = length (strings l)
           in (idx, l\<lparr>strings := strings l @ [s], string2idx := AList.update s idx (string2idx l)\<rparr>)))"

text \<open>A key is the pair of the indices of module and name, in this order.\<close>

definition import_key :: "string \<Rightarrow> string option \<Rightarrow> ('h, 'ty, 'hf) linker \<Rightarrow> (nat \<times> nat) \<times> ('h, 'ty, 'hf) linker" where
  "import_key module name l =
     (let (m, l1) = intern_str module l
      in case name of
           Some n \<Rightarrow> (let (i, l2) = intern_str n l1 in ((m, i), l2))
         | None \<Rightarrow> ((m, usize_max), l1))"

type_synonym ('h, 'ty, 'hf, 'e, 'a) link =
  "('h, 'ty, 'hf) linker \<Rightarrow> ('a, ('e, 'ty) link_error) outcome \<times> ('h, 'ty, 'hf) linker"

definition link_insert :: "nat \<times> nat \<Rightarrow> ('h, 'ty, 'hf) link_def \<Rightarrow> ('h, 'ty, 'hf, 'e, unit) link" where
  "link_insert key item l =
     (case map_of (link_map l) key of
        Some _ \<Rightarrow>
          if \<not> shadowing l then
            (if fst key < length (strings l) then
               (Err (DefinedTwice (strings l ! fst key)
                  (if snd key < length (strings l) then Some (strings l ! snd key) else None)), l)
             else (Panic, l))
          else (Ok (), l\<lparr>link_map := AList.update key item (link_map l)\<rparr>)
      | None \<Rightarrow> (Ok (), l\<lparr>link_map := AList.update key item (link_map l)\<rparr>))"

definition link_get :: "string \<Rightarrow> string \<Rightarrow> ('h, 'ty, 'hf) linker \<Rightarrow> ('h, 'ty, 'hf) link_def option" where
  "link_get module name l =
     Option.bind (map_of (string2idx l) module) (\<lambda>m.
     Option.bind (map_of (string2idx l) name) (\<lambda>n. map_of (link_map l) (m, n)))"

section \<open>Defining items\<close>

definition define_at :: "string \<Rightarrow> string option \<Rightarrow> ('h, 'ty, 'hf) link_def \<Rightarrow> ('h, 'ty, 'hf, 'e, unit) link" where
  "define_at module name item l = (let (key, l1) = import_key module name l in link_insert key item l1)"

definition linker_define ::
  "('s, 'h, 'ty, 'hf, 'inst, 'e) runtime \<Rightarrow> 's \<Rightarrow> string \<Rightarrow> string \<Rightarrow> 'h extern \<Rightarrow> ('h, 'ty, 'hf, 'e, unit) link" where
  "linker_define R s module name item = define_at module (Some name) (link_def_new R s item)"

definition define_name ::
  "('s, 'h, 'ty, 'hf, 'inst, 'e) runtime \<Rightarrow> 's \<Rightarrow> string \<Rightarrow> 'h extern \<Rightarrow> ('h, 'ty, 'hf, 'e, unit) link" where
  "define_name R s name item = define_at name None (link_def_new R s item)"

text \<open>The type given to \<^verbatim>\<open>func_new\<close> must come from the linker's engine; this is the argument \<open>same\<close>.\<close>

definition func_new :: "bool \<Rightarrow> string \<Rightarrow> string \<Rightarrow> 'hf \<Rightarrow> ('h, 'ty, 'hf, 'e, unit) link" where
  "func_new same module name f l =
     (if \<not> same then (Panic, l) else define_at module (Some name) (DefHostFunc f) l)"

definition func_wrap :: "string \<Rightarrow> string \<Rightarrow> 'hf \<Rightarrow> ('h, 'ty, 'hf, 'e, unit) link" where
  "func_wrap module name f = define_at module (Some name) (DefHostFunc f)"

abbreviation link_insert_all ::
  "((nat \<times> nat) \<times> ('h, 'ty, 'hf) link_def) list \<Rightarrow> ('h, 'ty, 'hf, 'e, unit) link" where
  "link_insert_all \<equiv> try_each (\<lambda>(key, item). link_insert key item)"

fun export_keys ::
  "string \<Rightarrow> (string \<times> 'h extern) list \<Rightarrow> ('h, 'ty, 'hf) linker \<Rightarrow> ((nat \<times> nat) \<times> 'h extern) list \<times> ('h, 'ty, 'hf) linker" where
  "export_keys module [] l = ([], l)"
| "export_keys module ((name, e) # es) l =
     (let (key, l1) = import_key module (Some name) l;
          (rest, l2) = export_keys module es l1
      in ((key, e) # rest, l2))"

definition linker_instance ::
  "('s, 'h, 'ty, 'hf, 'inst, 'e) runtime \<Rightarrow> 's \<Rightarrow> string \<Rightarrow> 'inst \<Rightarrow> ('h, 'ty, 'hf, 'e, unit) link" where
  "linker_instance R s module_name inst l =
     (let (keyed, l1) = export_keys module_name (instance_exports R s inst) l
      in link_insert_all (map (\<lambda>(key, e). (key, link_def_new R s e)) keyed) l1)"

definition linker_alias :: "string \<Rightarrow> string \<Rightarrow> string \<Rightarrow> string \<Rightarrow> ('h, 'ty, 'hf, 'e, unit) link" where
  "linker_alias module name as_module as_name l =
     (let (src, l1) = import_key module (Some name) l;
          (dst, l2) = import_key as_module (Some as_name) l1
      in case map_of (link_map l2) src of
           Some item \<Rightarrow> link_insert dst item l2
         | None \<Rightarrow> (Err (NoItem module name), l2))"

text \<open>The items of the module come from a hash map in an order that is left open; here it is the order of the list.\<close>

definition alias_module :: "string \<Rightarrow> string \<Rightarrow> ('h, 'ty, 'hf, 'e, unit) link" where
  "alias_module module as_module l =
     (let (m, l1) = intern_str module l;
          (a, l2) = intern_str as_module l1;
          items = map (\<lambda>(key, d). (snd key, d)) (filter (\<lambda>(key, d). fst key = m) (link_map l2))
      in link_insert_all (map (\<lambda>(name, item). ((a, name), item)) items) l2)"

section \<open>Resolving imports\<close>

definition get_by_import ::
  "('h, 'ty, 'hf) linker \<Rightarrow> 'ty import_type \<Rightarrow> (('h, 'ty, 'hf) link_def, ('e, 'ty) link_error) outcome" where
  "get_by_import l i =
     (case i of (module, name, ty) \<Rightarrow>
        (case link_get module name l of Some item \<Rightarrow> Ok item | None \<Rightarrow> Err (UnknownImport module name ty)))"

definition instantiate_pre ::
  "('s, 'h, 'ty, 'hf, 'inst, 'e) runtime \<Rightarrow> 'ty wasm_module \<Rightarrow> 's option \<Rightarrow> ('h, 'ty, 'hf) linker \<Rightarrow>
   (('h, 'ty, 'hf) link_def list, ('e, 'ty) link_error) outcome" where
  "instantiate_pre R m store l =
     bind_ok (collect_ok (map (get_by_import l) (module_imports m))) (\<lambda>ds.
       let ds = (case store of Some s \<Rightarrow> map (update_size R s) ds | None \<Rightarrow> ds)
       in map_ok (\<lambda>_. ds) (map_err RuntimeError (pre_ok R m ds)))"

definition linker_instantiate ::
  "('s, 'h, 'ty, 'hf, 'inst, 'e) runtime \<Rightarrow> 'ty wasm_module \<Rightarrow> ('h, 'ty, 'hf) linker \<Rightarrow> 's \<Rightarrow>
   ('inst, ('e, 'ty) link_error) outcome \<times> 's" where
  "linker_instantiate R m l s =
     (case instantiate_pre R m (Some s) l of
        Ok ds \<Rightarrow> (let (r, s') = instantiate_now R m ds s in (map_err RuntimeError r, s'))
      | Err e \<Rightarrow> (Err e, s)
      | Panic \<Rightarrow> (Panic, s))"

definition linker_get ::
  "('s, 'h, 'ty, 'hf, 'inst, 'e) runtime \<Rightarrow> string \<Rightarrow> string \<Rightarrow> ('h, 'ty, 'hf) linker \<Rightarrow> 's \<Rightarrow> 'h extern option \<times> 's" where
  "linker_get R module name l s =
     (case link_get module name l of
        Some d \<Rightarrow> (let (e, s') = to_extern R d s in (Some e, s'))
      | None \<Rightarrow> (None, s))"

definition get_default ::
  "('s, 'h, 'ty, 'hf, 'inst, 'e) runtime \<Rightarrow> string \<Rightarrow> ('h, 'ty, 'hf) linker \<Rightarrow> 's \<Rightarrow>
   ('h, ('e, 'ty) link_error) outcome \<times> 's" where
  "get_default R module l s =
     (case linker_get R module '''' l s of
        (Some (ExFunc f), s1) \<Rightarrow> (Ok f, s1)
      | (Some _, s1) \<Rightarrow> (Err (NotAFunction module ''''), s1)
      | (None, s1) \<Rightarrow>
          (case linker_get R module ''_start'' l s1 of
             (Some (ExFunc f), s2) \<Rightarrow> (Ok f, s2)
           | (Some _, s2) \<Rightarrow> (Err (NotAFunction module ''_start''), s2)
           | (None, s2) \<Rightarrow> (let (f, s3) = noop_func R s2 in (Ok f, s3))))"

text \<open>\<^verbatim>\<open>iter\<close> looks the names of every key up; a key without a name is out of range.\<close>

fun iter_items ::
  "('s, 'h, 'ty, 'hf, 'inst, 'e) runtime \<Rightarrow> string list \<Rightarrow> ((nat \<times> nat) \<times> ('h, 'ty, 'hf) link_def) list \<Rightarrow> 's \<Rightarrow>
   ((string \<times> string \<times> 'h extern) list, ('e, 'ty) link_error) outcome \<times> 's" where
  "iter_items R ss [] s = (Ok [], s)"
| "iter_items R ss (((m, n), d) # rest) s =
     (if m < length ss \<and> n < length ss then
        (let (e, s1) = to_extern R d s
         in case iter_items R ss rest s1 of
              (Ok xs, s2) \<Rightarrow> (Ok ((ss ! m, ss ! n, e) # xs), s2)
            | (r, s2) \<Rightarrow> (r, s2))
      else (Panic, s))"

definition linker_iter ::
  "('s, 'h, 'ty, 'hf, 'inst, 'e) runtime \<Rightarrow> ('h, 'ty, 'hf) linker \<Rightarrow> 's \<Rightarrow>
   ((string \<times> string \<times> 'h extern) list, ('e, 'ty) link_error) outcome \<times> 's" where
  "linker_iter R l s = iter_items R (strings l) (link_map l) s"

section \<open>Unknown imports\<close>

text \<open>
  The functions made for unknown imports: \<open>trap_func\<close> always fails with the import's name,
  \<open>default_func\<close> returns zeros or null; \<open>has_default\<close> is whether every result type has such a value and
  \<open>own_type\<close> whether a function type comes from the engine of the linker, which \<^verbatim>\<open>func_new\<close> asserts.
\<close>

fun define_unknown ::
  "('ty \<Rightarrow> bool) \<Rightarrow> ('ty \<Rightarrow> bool) \<Rightarrow> ('ty import_type \<Rightarrow> 'hf) \<Rightarrow> 'ty import_type list \<Rightarrow> ('h, 'ty, 'hf, 'e, unit) link" where
  "define_unknown own_type has_default mk [] l = (Ok (), l)"
| "define_unknown own_type has_default mk ((module, name, ty) # is) l =
     (case link_get module name l of
        Some _ \<Rightarrow> define_unknown own_type has_default mk is l
      | None \<Rightarrow>
          (case ty of
             EtFunc t \<Rightarrow>
               if \<not> has_default t then (Err (NoDefault t), l)
               else
                 (case func_new (own_type t) module name (mk (module, name, ty)) l of
                    (Ok _, l1) \<Rightarrow> define_unknown own_type has_default mk is l1
                  | (r, l1) \<Rightarrow> (r, l1))
           | _ \<Rightarrow> define_unknown own_type has_default mk is l))"

definition define_unknown_imports_as_traps ::
  "('ty \<Rightarrow> bool) \<Rightarrow> ('ty import_type \<Rightarrow> 'hf) \<Rightarrow> 'ty wasm_module \<Rightarrow> ('h, 'ty, 'hf, 'e, unit) link" where
  "define_unknown_imports_as_traps own_type trap_func m = define_unknown own_type (\<lambda>_. True) trap_func (module_imports m)"

definition define_unknown_imports_as_default_values ::
  "('ty \<Rightarrow> bool) \<Rightarrow> ('ty \<Rightarrow> bool) \<Rightarrow> ('ty import_type \<Rightarrow> 'hf) \<Rightarrow> 'ty wasm_module \<Rightarrow> ('h, 'ty, 'hf, 'e, unit) link" where
  "define_unknown_imports_as_default_values own_type has_default default_func m =
     define_unknown own_type has_default default_func (module_imports m)"

section \<open>Modules\<close>

datatype module_kind = Command | Reactor

definition is_func :: "'ty extern_type \<Rightarrow> bool" where
  "is_func ty = (case ty of EtFunc _ \<Rightarrow> True | _ \<Rightarrow> False)"

definition categorize :: "'ty wasm_module \<Rightarrow> (module_kind, ('e, 'ty) link_error) outcome" where
  "categorize m =
     (case (map_of (module_exports m) ''_start'', map_of (module_exports m) ''_initialize'') of
        (Some start, None) \<Rightarrow> if is_func start then Ok Command else Err StartNotFunction
      | (None, Some init) \<Rightarrow> if is_func init then Ok Reactor else Err InitializeNotFunction
      | (None, None) \<Rightarrow> Ok Reactor
      | (Some _, Some _) \<Rightarrow> Err CommandAndReactor)"

definition tolerated_export :: "string \<Rightarrow> 'ty extern_type \<Rightarrow> bool" where
  "tolerated_export name ty =
     (case ty of
        EtMemory _ \<Rightarrow> name = ''memory''
      | EtTable _ \<Rightarrow> name = ''__indirect_function_table'' \<or> name = ''table''
      | EtGlobal _ \<Rightarrow> name \<in> {''__data_end'', ''__heap_base'', ''__dso_handle'', ''__rtti_base''}
      | EtFunc _ \<Rightarrow> False)"

fun command_exports ::
  "('s, 'h, 'ty, 'hf, 'inst, 'e) runtime \<Rightarrow> string \<Rightarrow> 'ty wasm_module \<Rightarrow> (string \<times> 'ty extern_type) list \<Rightarrow>
   ('h, 'ty, 'hf) linker \<times> 's \<Rightarrow> (unit, ('e, 'ty) link_error) outcome \<times> ('h, 'ty, 'hf) linker \<times> 's" where
  "command_exports R module_name m [] (l, s) = (Ok (), l, s)"
| "command_exports R module_name m ((name, ty) # es) (l, s) =
     (if is_func ty then
        (case instantiate_pre R m None l of
           Ok ds \<Rightarrow>
             (let (f, s1) = command_func R m name ds s
              in case define_at module_name (Some name) (link_def_new R s1 (ExFunc f)) l of
                   (Ok _, l1) \<Rightarrow> command_exports R module_name m es (l1, s1)
                 | (r, l1) \<Rightarrow> (r, l1, s1))
         | Err e \<Rightarrow> (Err e, l, s)
         | Panic \<Rightarrow> (Panic, l, s))
      else if tolerated_export name ty \<or> unknown_exports l then command_exports R module_name m es (l, s)
      else (Err (CommandExport name), l, s))"

definition linker_module ::
  "('s, 'h, 'ty, 'hf, 'inst, 'e) runtime \<Rightarrow> string \<Rightarrow> 'ty wasm_module \<Rightarrow> ('h, 'ty, 'hf) linker \<times> 's \<Rightarrow>
   (unit, ('e, 'ty) link_error) outcome \<times> ('h, 'ty, 'hf) linker \<times> 's" where
  "linker_module R module_name m ls =
     (case ls of (l, s) \<Rightarrow>
       if \<not> same_engine R s then (Panic, l, s)
       else
         case categorize m of
           Ok Command \<Rightarrow> command_exports R module_name m (module_exports m) (l, s)
         | Ok Reactor \<Rightarrow>
             (case linker_instantiate R m l s of
                (Ok inst, s1) \<Rightarrow>
                  (let (r, s2) =
                     (case map_of (instance_exports R s1 inst) ''_initialize'' of
                        Some (ExFunc f) \<Rightarrow> (let (r, s2) = call_unit R f s1 in (map_err RuntimeError r, s2))
                      | _ \<Rightarrow> (Ok (), s1))
                   in case r of
                        Ok _ \<Rightarrow> (let (r, l1) = linker_instance R s2 module_name inst l in (r, l1, s2))
                      | Err e \<Rightarrow> (Err e, l, s2)
                      | Panic \<Rightarrow> (Panic, l, s2))
              | (Err e, s1) \<Rightarrow> (Err e, l, s1)
              | (Panic, s1) \<Rightarrow> (Panic, l, s1))
         | Err e \<Rightarrow> (Err e, l, s)
         | Panic \<Rightarrow> (Panic, l, s))"

end
