(* ===== verification/Linker_Laws.thy ===== *)
theory Linker_Laws
  imports Linker
begin

text \<open>
  The linker as a map from names to definitions: names are interned without changing the map,
  every operation keeps the table well-formed and, unless shadowing is allowed, keeps every
  definition. The locale \<open>item_registry\<close> is what the code that registers host functions relies
  on; its provider is \<open>define_at\<close>.
\<close>

section \<open>The table as a map\<close>

definition link_abs :: "('h, 'ty, 'hf) linker \<Rightarrow> string \<times> string option \<Rightarrow> ('h, 'ty, 'hf) link_def option" where
  "link_abs l k =
     Option.bind (map_of (string2idx l) (fst k)) (\<lambda>m.
       case snd k of
         Some n \<Rightarrow> Option.bind (map_of (string2idx l) n) (\<lambda>n. map_of (link_map l) (m, n))
       | None \<Rightarrow> map_of (link_map l) (m, usize_max))"

definition linker_ok :: "('h, 'ty, 'hf) linker \<Rightarrow> bool" where
  "linker_ok l \<longleftrightarrow>
     distinct (strings l) \<and> length (strings l) \<le> usize_max \<and> distinct (map fst (link_map l)) \<and>
     (\<forall>s i. map_of (string2idx l) s = Some i \<longleftrightarrow> i < length (strings l) \<and> strings l ! i = s) \<and>
     (\<forall>m n d. map_of (link_map l) (m, n) = Some d \<longrightarrow>
        m < length (strings l) \<and> (n < length (strings l) \<or> n = usize_max))"

lemma linker_okD:
  assumes "linker_ok l"
  shows "distinct (strings l)" "length (strings l) \<le> usize_max"
    "map_of (string2idx l) s = Some i \<longleftrightarrow> i < length (strings l) \<and> strings l ! i = s"
    "map_of (link_map l) (m, n) = Some d \<Longrightarrow> m < length (strings l) \<and> (n < length (strings l) \<or> n = usize_max)"
    "distinct (map fst (link_map l))"
  using assms unfolding linker_ok_def by blast+

lemma link_get_abs: "link_get m n l = link_abs l (m, Some n)"
  by (simp add: link_get_def link_abs_def)

text \<open>
  Interning a name only ever adds one, and only the index of a new name is new. The counter of
  names must not reach the value that marks an absent name.
\<close>

definition interned :: "('h, 'ty, 'hf) linker \<Rightarrow> ('h, 'ty, 'hf) linker \<Rightarrow> bool" where
  "interned l l' \<longleftrightarrow>
     link_map l' = link_map l \<and> shadowing l' = shadowing l \<and> unknown_exports l' = unknown_exports l \<and>
     length (strings l) \<le> length (strings l') \<and>
     (linker_ok l \<and> length (strings l') \<le> usize_max \<longrightarrow>
        linker_ok l' \<and> link_abs l' = link_abs l \<and> map_of (string2idx l) \<subseteq>\<^sub>m map_of (string2idx l'))"

lemma interned_refl: "interned l l"
  by (simp add: interned_def)

lemma interned_trans: "interned l l1 \<Longrightarrow> interned l1 l2 \<Longrightarrow> interned l l2"
  unfolding interned_def by (auto intro: map_le_trans)

lemma intern_new:
  assumes ok: "linker_ok l" and new: "map_of (string2idx l) s = None" and room: "length (strings l) < usize_max"
  defines "l' \<equiv> l\<lparr>strings := strings l @ [s], string2idx := AList.update s (length (strings l)) (string2idx l)\<rparr>"
  shows "linker_ok l' \<and> link_abs l' = link_abs l \<and> map_of (string2idx l) \<subseteq>\<^sub>m map_of (string2idx l')"
proof -
  let ?n = "length (strings l)"
  have idx: "map_of (string2idx l') = (map_of (string2idx l))(s \<mapsto> ?n)" and st: "strings l' = strings l @ [s]"
    and lm: "link_map l' = link_map l" by (simp_all add: l'_def update_conv')
  have ns: "strings l ! i \<noteq> s" if "i < ?n" for i
    using linker_okD(3) [OF ok, of s i] new that by auto
  have "linker_ok l'"
    unfolding linker_ok_def
  proof (intro conjI allI impI)
    show "distinct (strings l')" using linker_okD(1) [OF ok] ns by (auto simp: st in_set_conv_nth)
    show "length (strings l') \<le> usize_max" using room by (simp add: st)
    show "distinct (map fst (link_map l'))" using linker_okD(5) [OF ok] by (simp add: lm)
    show "map_of (string2idx l') t = Some i \<longleftrightarrow> i < length (strings l') \<and> strings l' ! i = t" for t i
      using linker_okD(3) [OF ok, of t i] ns [of i] by (auto simp: idx st nth_append less_Suc_eq)
    show "m < length (strings l')" "n < length (strings l') \<or> n = usize_max"
      if "map_of (link_map l') (m, n) = Some d" for m n d
      using linker_okD(4) [OF ok, of m n d] that by (auto simp: st lm)
  qed
  moreover have none: "map_of (link_map l) (?n, j) = None" "map_of (link_map l) (j, ?n) = None" for j
    using linker_okD(4) [OF ok, of ?n j] linker_okD(4) [OF ok, of j ?n] room
    by (cases "map_of (link_map l) (?n, j)"; cases "map_of (link_map l) (j, ?n)"; auto)+
  have "link_abs l' k = link_abs l k" for k
    using none new by (auto simp: link_abs_def idx lm split: option.splits bind_splits)
  ultimately show ?thesis using new by (auto simp: idx map_le_def fun_eq_iff)
qed

lemma intern_str_spec:
  assumes "intern_str s l = (i, l')"
  shows "interned l l'" "linker_ok l \<Longrightarrow> length (strings l') \<le> usize_max \<Longrightarrow> map_of (string2idx l') s = Some i"
proof -
  show "interned l l'"
  proof (cases "map_of (string2idx l) s")
    case None
    with assms have l': "l' = l\<lparr>strings := strings l @ [s], string2idx := AList.update s (length (strings l)) (string2idx l)\<rparr>"
      by (auto simp: intern_str_def Let_def)
    then have len: "length (strings l') = Suc (length (strings l))" by simp
    show ?thesis
      unfolding interned_def using intern_new [OF _ None] len by (auto simp: l')
  qed (use assms in \<open>auto simp: intern_str_def interned_refl\<close>)
  show "map_of (string2idx l') s = Some i"
    using assms by (auto simp: intern_str_def Let_def update_conv' split: option.splits)
qed

definition key_names :: "('h, 'ty, 'hf) linker \<Rightarrow> nat \<times> nat \<Rightarrow> string \<Rightarrow> string option \<Rightarrow> bool" where
  "key_names l key m n \<longleftrightarrow>
     map_of (string2idx l) m = Some (fst key) \<and>
     (case n of Some x \<Rightarrow> map_of (string2idx l) x = Some (snd key) | None \<Rightarrow> snd key = usize_max)"

lemma key_names_mono:
  "key_names l key m n \<Longrightarrow> map_of (string2idx l) \<subseteq>\<^sub>m map_of (string2idx l') \<Longrightarrow> key_names l' key m n"
  by (auto simp: key_names_def map_le_def dom_def split: option.splits)

lemma interned_key:
  "interned l l' \<Longrightarrow> linker_ok l \<Longrightarrow> length (strings l') \<le> usize_max \<Longrightarrow> key_names l key m n \<Longrightarrow> key_names l' key m n"
  by (auto simp: interned_def intro: key_names_mono)

lemma import_key_spec:
  assumes "import_key m n l = (key, l')"
  shows "interned l l'" "linker_ok l \<Longrightarrow> length (strings l') \<le> usize_max \<Longrightarrow> key_names l' key m n"
proof -
  obtain i l1 where 1: "intern_str m l = (i, l1)" by (metis surj_pair)
  note s1 = intern_str_spec [OF 1]
  show "interned l l'"
  proof (cases n)
    case (Some x)
    obtain j l2 where "intern_str x l1 = (j, l2)" by (metis surj_pair)
    with assms Some 1 intern_str_spec [OF this] s1 show ?thesis
      by (auto simp: import_key_def intro: interned_trans)
  qed (use assms 1 s1 in \<open>auto simp: import_key_def\<close>)
  show "key_names l' key m n" if ok: "linker_ok l" "length (strings l') \<le> usize_max"
  proof (cases n)
    case (Some x)
    obtain j l2 where 2: "intern_str x l1 = (j, l2)" by (metis surj_pair)
    note s2 = intern_str_spec [OF 2]
    have l2: "l' = l2" "key = (i, j)" using assms Some 1 2 by (auto simp: import_key_def)
    have len: "length (strings l1) \<le> usize_max" using s2(1) ok(2) l2 by (simp add: interned_def)
    have ok1: "linker_ok l1" using s1(1) ok(1) len by (simp add: interned_def)
    from s1(2) [OF ok(1) len] s2(1,2) ok1 ok(2) show ?thesis
      unfolding Some l2 key_names_def interned_def by (auto simp: map_le_def dom_def)
  qed (use assms 1 s1 ok in \<open>auto simp: import_key_def key_names_def\<close>)
qed

lemma key_names_inj:
  assumes "linker_ok l" "key_names l key m n" "key_names l key m' n'"
  shows "m' = m \<and> n' = n"
proof -
  have i: "map_of (string2idx l) a = Some j \<Longrightarrow> j < length (strings l) \<and> strings l ! j = a \<and> j \<noteq> usize_max" for a j
    using linker_okD(2,3) [OF assms(1)] by (metis less_le_not_le)
  have "m' = m" using assms(2,3) i by (auto simp: key_names_def)
  moreover have "n' = n" using assms(2,3) i by (auto simp: key_names_def split: option.splits)
  ultimately show ?thesis by simp
qed

lemma key_names_unique: "key_names l key m n \<Longrightarrow> key_names l key' m n \<Longrightarrow> key' = key"
  by (auto simp: key_names_def prod_eq_iff split: option.splits)

lemma abs_key: "key_names l key m n \<Longrightarrow> link_abs l (m, n) = map_of (link_map l) key"
  by (cases key) (auto simp: key_names_def link_abs_def split: option.splits)

lemma abs_keyE:
  assumes "link_abs l k = Some d"
  obtains key where "key_names l key (fst k) (snd k)" "map_of (link_map l) key = Some d"
  using assms by (auto simp: link_abs_def key_names_def split: option.splits bind_splits)

lemma link_insert_spec:
  assumes ok: "linker_ok l" and key: "key_names l key m n"
  shows "link_insert key item l =
      (if link_abs l (m, n) \<noteq> None \<and> \<not> shadowing l then (Err (DefinedTwice m n), l)
       else (Ok (), l\<lparr>link_map := AList.update key item (link_map l)\<rparr>))"
    and "linker_ok (l\<lparr>link_map := AList.update key item (link_map l)\<rparr>)"
    and "link_abs (l\<lparr>link_map := AList.update key item (link_map l)\<rparr>) = (link_abs l)((m, n) \<mapsto> item)"
proof -
  let ?l' = "l\<lparr>link_map := AList.update key item (link_map l)\<rparr>"
  have m: "fst key < length (strings l)" "strings l ! fst key = m"
    using linker_okD(3) [OF ok, of m "fst key"] key by (auto simp: key_names_def)
  have nm: "(if snd key < length (strings l) then Some (strings l ! snd key) else None) = n"
    "snd key < length (strings l) \<or> snd key = usize_max"
    using linker_okD(2,3) [OF ok] key by (auto simp: key_names_def split: option.splits)
  show "link_insert key item l =
      (if link_abs l (m, n) \<noteq> None \<and> \<not> shadowing l then (Err (DefinedTwice m n), l) else (Ok (), ?l'))"
    using m nm(1) by (auto simp: link_insert_def abs_key [OF key] split: option.splits)
  show "linker_ok ?l'"
    using ok m(1) nm(2) by (auto simp: linker_ok_def update_conv' distinct_update split: if_splits)
  show "link_abs ?l' = (link_abs l)((m, n) \<mapsto> item)"
  proof
    fix k
    have kn: "key_names ?l' = key_names l" by (auto simp: key_names_def fun_eq_iff split: option.splits)
    show "link_abs ?l' k = ((link_abs l)((m, n) \<mapsto> item)) k"
    proof (cases "\<exists>key'. key_names l key' (fst k) (snd k)")
      case True
      then obtain key' where k': "key_names l key' (fst k) (snd k)" by blast
      then have "key' = key \<longleftrightarrow> k = (m, n)"
        using key_names_inj [OF ok key, of "fst k" "snd k"] key_names_unique [OF key, of key']
        by (metis fst_conv snd_conv surjective_pairing)
      with abs_key [OF k'] abs_key [of ?l' key' "fst k" "snd k"] k' kn show ?thesis by (auto simp: update_conv')
    next
      case False
      then have "link_abs ?l' k = None" "link_abs l k = None" "k \<noteq> (m, n)"
        using kn key by (metis abs_keyE not_Some_eq, metis abs_keyE not_Some_eq, metis fst_conv snd_conv)
      then show ?thesis by simp
    qed
  qed
qed

text \<open>Defining an item: intern the names, then insert under their key.\<close>

lemma import_key_length: "import_key m n l = (key, l') \<Longrightarrow> length (strings l') \<le> length (strings l) + 2"
proof -
  have 1: "intern_str s k = (i, k') \<Longrightarrow> length (strings k') \<le> length (strings k) + 1"
    for s i and k k' :: "('a, 'b, 'c) linker"
    by (auto simp: intern_str_def Let_def split: option.splits)
  show "import_key m n l = (key, l') \<Longrightarrow> length (strings l') \<le> length (strings l) + 2"
    by (auto simp: import_key_def split: option.splits prod.splits dest!: 1)
qed

lemma define_at_spec:
  fixes l :: "('h, 'ty, 'hf) linker"
  assumes ok: "linker_ok l" and room: "length (strings l) + 2 \<le> usize_max"
  shows "\<exists>l'. define_at m n item l =
      (if link_abs l (m, n) \<noteq> None \<and> \<not> shadowing l then (Err (DefinedTwice m n), l')
       else (Ok () :: (unit, ('e, 'ty) link_error) outcome, l')) \<and>
    linker_ok l' \<and> shadowing l' = shadowing l \<and> unknown_exports l' = unknown_exports l \<and>
    length (strings l') \<le> length (strings l) + 2 \<and>
    link_abs l' = (if link_abs l (m, n) \<noteq> None \<and> \<not> shadowing l then link_abs l else (link_abs l)((m, n) \<mapsto> item))"
proof -
  obtain key l1 where k: "import_key m n l = (key, l1)" by (metis surj_pair)
  have len: "length (strings l1) \<le> usize_max" using import_key_length [OF k] room by simp
  from import_key_spec [OF k] ok len have i: "linker_ok l1" "link_abs l1 = link_abs l" "key_names l1 key m n"
    "shadowing l1 = shadowing l" "unknown_exports l1 = unknown_exports l" by (auto simp: interned_def)
  note sp = link_insert_spec [where item = item, OF i(1,3)]
  let ?l' = "if link_abs l (m, n) \<noteq> None \<and> \<not> shadowing l then l1
    else l1\<lparr>link_map := AList.update key item (link_map l1)\<rparr>"
  show ?thesis
    by (rule exI [of _ ?l']) (use sp(2,3) i import_key_length [OF k] in \<open>simp add: define_at_def k sp(1)\<close>)
qed

section \<open>Registering items\<close>

text \<open>
  What code that registers host functions relies on: an item defined under a fresh key is found
  there and nothing else changes; a key in use is refused. The client lemma: registering items
  under distinct fresh keys, one by one, succeeds and adds exactly these items; if a key is in
  use, it fails.
\<close>

locale item_registry =
  fixes lookup :: "'r \<Rightarrow> 'k \<Rightarrow> 'v option"
    and put :: "'k \<Rightarrow> 'v \<Rightarrow> 'r \<Rightarrow> (unit, 'e) outcome \<times> 'r"
    and room :: "'r \<Rightarrow> nat"
    and invar :: "'r \<Rightarrow> bool"
  assumes put_fresh: "invar r \<Longrightarrow> 0 < room r \<Longrightarrow> lookup r k = None \<Longrightarrow>
      \<exists>r'. put k v r = (Ok (), r') \<and> invar r' \<and> lookup r' = (lookup r)(k \<mapsto> v) \<and> room r \<le> Suc (room r')"
    and put_taken: "invar r \<Longrightarrow> 0 < room r \<Longrightarrow> lookup r k \<noteq> None \<Longrightarrow> \<exists>e r'. put k v r = (Err e, r') \<and> invar r' \<and> lookup r' = lookup r"
begin

lemma put_each_fresh:
  assumes "invar r" "length kvs \<le> room r" "distinct (map fst kvs)" "\<forall>k \<in> fst ` set kvs. lookup r k = None"
  shows "\<exists>r'. try_each (\<lambda>(k, v). put k v) kvs r = (Ok (), r') \<and> invar r' \<and>
    lookup r' = lookup r ++ map_of kvs \<and> room r \<le> length kvs + room r'"
  using assms
proof (induction kvs arbitrary: r)
  case (Cons kv kvs)
  obtain k v where kv: "kv = (k, v)" by (cases kv)
  from Cons.prems put_fresh [of r k v] kv obtain r1 where r1: "put k v r = (Ok (), r1)" "invar r1"
    "lookup r1 = (lookup r)(k \<mapsto> v)" "room r \<le> Suc (room r1)" by auto
  have "length kvs \<le> room r1" using Cons.prems(2) r1(4) by simp
  moreover have "\<forall>x \<in> fst ` set kvs. lookup r1 x = None" using Cons.prems(3,4) kv r1(3) by (auto simp: image_iff)
  ultimately obtain r' where r': "try_each (\<lambda>(k, v). put k v) kvs r1 = (Ok (), r')" "invar r'"
    "lookup r' = lookup r1 ++ map_of kvs" "room r1 \<le> length kvs + room r'"
    using Cons.IH [OF r1(2)] Cons.prems(3) by auto
  have "k \<notin> dom (map_of kvs)" using Cons.prems(3) kv by (simp add: dom_map_of_conv_image_fst)
  then have "lookup r' = lookup r ++ map_of (kv # kvs)"
    using r'(3) r1(3) by (auto simp: kv map_add_upd_left)
  with r1 r' show ?case by (auto simp: kv simp del: map_of.simps)
qed simp

end

interpretation items: item_registry link_abs "\<lambda>k item. define_at (fst k) (snd k) item"
  "\<lambda>l. (usize_max - length (strings l)) div 2" "\<lambda>l. linker_ok l \<and> \<not> shadowing l"
proof
  fix l :: "('h, 'ty, 'hf) linker" and k :: "string \<times> string option" and item
  assume l: "linker_ok l \<and> \<not> shadowing l" and room: "0 < (usize_max - length (strings l)) div 2"
  from room have "length (strings l) + 2 \<le> usize_max" by linarith
  note sp = define_at_spec [where 'e = 'e, OF conjunct1 [OF l] this, of "fst k" "snd k" item]
  show "\<exists>l'. define_at (fst k) (snd k) item l = (Ok () :: (unit, ('e, 'ty) link_error) outcome, l') \<and>
      (linker_ok l' \<and> \<not> shadowing l') \<and> link_abs l' = (link_abs l)(k \<mapsto> item) \<and>
      (usize_max - length (strings l)) div 2 \<le> Suc ((usize_max - length (strings l')) div 2)"
    if "link_abs l k = None"
    using sp l that by fastforce
  show "\<exists>e l'. define_at (fst k) (snd k) item l = (Err e :: (unit, ('e, 'ty) link_error) outcome, l') \<and>
      (linker_ok l' \<and> \<not> shadowing l') \<and> link_abs l' = link_abs l"
    if "link_abs l k \<noteq> None"
    using sp l that by fastforce
qed

section \<open>Definitions are never replaced\<close>

definition link_extends :: "('h, 'ty, 'hf) linker \<Rightarrow> ('h, 'ty, 'hf) linker \<Rightarrow> bool" where
  "link_extends l l' \<longleftrightarrow>
     shadowing l' = shadowing l \<and> unknown_exports l' = unknown_exports l \<and> length (strings l) \<le> length (strings l') \<and>
     (linker_ok l \<and> length (strings l') \<le> usize_max \<longrightarrow>
        linker_ok l' \<and> (\<not> shadowing l \<longrightarrow> link_abs l \<subseteq>\<^sub>m link_abs l'))"

lemma link_extends_refl: "link_extends l l"
  by (simp add: link_extends_def)

lemma link_extends_trans: "link_extends l l1 \<Longrightarrow> link_extends l1 l2 \<Longrightarrow> link_extends l l2"
  unfolding link_extends_def by (auto intro: map_le_trans)

lemma interned_ext: "interned l l' \<Longrightarrow> link_extends l l'"
  by (simp add: interned_def link_extends_def)

definition key_valid :: "('h, 'ty, 'hf) linker \<Rightarrow> nat \<times> nat \<Rightarrow> bool" where
  "key_valid l key \<longleftrightarrow> fst key < length (strings l) \<and> (snd key < length (strings l) \<or> snd key = usize_max)"

lemma key_valid_names: "linker_ok l \<Longrightarrow> key_valid l key \<Longrightarrow> \<exists>m n. key_names l key m n"
proof -
  assume ok: "linker_ok l" and v: "key_valid l key"
  have "map_of (string2idx l) (strings l ! fst key) = Some (fst key)"
    using linker_okD(3) [OF ok] v by (simp add: key_valid_def)
  moreover have "snd key = usize_max \<or> map_of (string2idx l) (strings l ! snd key) = Some (snd key)"
    using linker_okD(3) [OF ok] v by (auto simp: key_valid_def)
  ultimately have "key_names l key (strings l ! fst key) None \<or>
      key_names l key (strings l ! fst key) (Some (strings l ! snd key))" by (auto simp: key_names_def)
  then show ?thesis by blast
qed

lemma key_names_valid: "linker_ok l \<Longrightarrow> key_names l key m n \<Longrightarrow> key_valid l key"
  using linker_okD(3) [of l] by (auto simp: key_names_def key_valid_def split: option.splits)

lemma link_insert_ext:
  assumes "link_insert key item l = (r, l')" "linker_ok l \<Longrightarrow> key_valid l key"
  shows "link_extends l l' \<and> strings l' = strings l"
proof -
  have f: "strings l' = strings l" "shadowing l' = shadowing l" "unknown_exports l' = unknown_exports l"
    using assms(1) by (auto simp: link_insert_def split: option.splits if_splits)
  have "linker_ok l' \<and> (\<not> shadowing l \<longrightarrow> link_abs l \<subseteq>\<^sub>m link_abs l')" if ok: "linker_ok l"
  proof -
    obtain m n where kn: "key_names l key m n" using key_valid_names [OF ok assms(2) [OF ok]] by blast
    note sp = link_insert_spec [where item = item, OF ok kn]
    show ?thesis
      using assms(1) ok sp(2,3) by (auto simp: sp(1) map_le_def split: if_splits)
  qed
  with f show ?thesis by (simp add: link_extends_def)
qed

lemma link_insert_all_ext:
  fixes l :: "('h, 'ty, 'hf) linker" and r :: "(unit, ('e, 'ty) link_error) outcome"
  assumes "link_insert_all xs l = (r, l')" "linker_ok l" "\<forall>(key, d) \<in> set xs. key_valid l key"
  shows "link_extends l l' \<and> strings l' = strings l"
  using assms
proof (induction xs arbitrary: l)
  case (Cons x xs)
  obtain key item where x: "x = (key, item)" by (cases x)
  obtain r1 :: "(unit, ('e, 'ty) link_error) outcome" and l1 where i: "link_insert key item l = (r1, l1)"
    by (cases "link_insert key item l :: (unit, ('e, 'ty) link_error) outcome \<times> _")
  have e: "link_extends l l1" "strings l1 = strings l" using link_insert_ext [OF i] Cons.prems(3) x by auto
  then have "linker_ok l1" using Cons.prems(2) linker_okD(2) [OF Cons.prems(2)] by (simp add: link_extends_def)
  moreover have "\<forall>(key, d) \<in> set xs. key_valid l1 key" using Cons.prems(3) e(2) by (auto simp: key_valid_def)
  ultimately show ?case
    using Cons.IH [of l1] Cons.prems(1) i e x by (cases r1) (auto intro: link_extends_trans)
qed (auto simp: link_extends_refl)

lemma import_key_valid:
  assumes "import_key m n l = (key, l')" "linker_ok l" "length (strings l') \<le> usize_max"
  shows "linker_ok l'" "key_valid l' key"
proof -
  from import_key_spec [OF assms(1)] assms(2,3) show ok: "linker_ok l'" by (simp add: interned_def)
  from key_names_valid [OF ok] import_key_spec(2) [OF assms] show "key_valid l' key" .
qed

lemma link_insert_fields:
  "link_insert key item l = (r, l') \<Longrightarrow> strings l' = strings l \<and> shadowing l' = shadowing l \<and> unknown_exports l' = unknown_exports l"
  by (auto simp: link_insert_def split: option.splits if_splits)

lemma link_insert_all_fields:
  "link_insert_all xs l = (r, l') \<Longrightarrow> strings l' = strings l \<and> shadowing l' = shadowing l \<and> unknown_exports l' = unknown_exports l"
proof (induction xs arbitrary: l)
  case (Cons x xs)
  then show ?case by (cases x) (auto split: prod.splits outcome.splits dest: link_insert_fields)
qed simp

lemma define_at_ext: "define_at m n item l = (r, l') \<Longrightarrow> link_extends l l'"
proof -
  assume d: "define_at m n item l = (r, l')"
  obtain key l1 where k: "import_key m n l = (key, l1)" by (metis surj_pair)
  with d have i: "link_insert key item l1 = (r, l')" by (simp add: define_at_def)
  have "link_extends l1 l'" if "linker_ok l" "length (strings l1) \<le> usize_max"
    using link_insert_ext [OF i] import_key_valid [OF k that] by simp
  with import_key_spec(1) [OF k] link_insert_fields [OF i] show ?thesis
    unfolding link_extends_def interned_def by (auto intro: map_le_trans)
qed

lemma export_keys_spec:
  assumes "export_keys m es l = (ks, l')"
  shows "interned l l' \<and> map snd ks = map snd es \<and>
    (linker_ok l \<and> length (strings l') \<le> usize_max \<longrightarrow>
      (\<forall>i < length es. key_names l' (fst (ks ! i)) m (Some (fst (es ! i)))))"
  using assms
proof (induction m es l arbitrary: ks l' rule: export_keys.induct)
  case (2 m name e es l)
  obtain key l1 where k: "import_key m (Some name) l = (key, l1)" by (metis surj_pair)
  obtain rest l2 where r: "export_keys m es l1 = (rest, l2)" by (metis surj_pair)
  have eq: "ks = (key, e) # rest" "l' = l2" using 2(2) k r by auto
  note k1 = import_key_spec [OF k]
  note ih = 2(1) [OF k [symmetric] refl r]
  have "key_names l' (fst (ks ! i)) m (Some (fst (((name, e) # es) ! i)))"
    if "linker_ok l" "length (strings l') \<le> usize_max" "i < length ((name, e) # es)" for i
  proof -
    have len: "length (strings l1) \<le> usize_max" using ih that(2) eq by (simp add: interned_def)
    have ok1: "linker_ok l1" using k1(1) that(1) len by (simp add: interned_def)
    show ?thesis
      using k1(2) [OF that(1) len] ih ok1 that interned_key [of l1 l2 key m "Some name"] eq by (cases i) auto
  qed
  with k1(1) ih eq show ?case by (auto intro: interned_trans)
qed (simp add: interned_refl)

lemma linker_instance_ext: "linker_instance R s name inst l = (r, l') \<Longrightarrow> link_extends l l'"
proof -
  assume d: "linker_instance R s name inst l = (r, l')"
  obtain ks l1 where k: "export_keys name (instance_exports R s inst) l = (ks, l1)" by (metis surj_pair)
  note sp = export_keys_spec [OF k]
  let ?xs = "map (\<lambda>(key, e). (key, link_def_new R s e)) ks"
  from d k have i: "link_insert_all ?xs l1 = (r, l')" by (simp add: linker_instance_def)
  have "link_extends l1 l'" if ok: "linker_ok l" "length (strings l1) \<le> usize_max"
  proof -
    have ok1: "linker_ok l1" using sp ok by (simp add: interned_def)
    have "\<forall>(key, e) \<in> set ks. key_valid l1 key"
    proof (clarify)
      fix a b e assume "((a, b), e) \<in> set ks"
      then obtain j where "j < length ks" "ks ! j = ((a, b), e)" by (auto simp: in_set_conv_nth)
      moreover have "length ks = length (instance_exports R s inst)" using sp by (metis length_map)
      ultimately show "key_valid l1 (a, b)" using sp ok key_names_valid [OF ok1] by (metis fst_conv)
    qed
    then have "\<forall>(key, d) \<in> set ?xs. key_valid l1 key" by auto
    with link_insert_all_ext [OF i ok1] show ?thesis by blast
  qed
  with sp link_insert_all_fields [OF i] show ?thesis
    unfolding link_extends_def interned_def by (auto intro: map_le_trans)
qed

lemma linker_alias_ext: "linker_alias m n am an l = (r, l') \<Longrightarrow> link_extends l l'"
proof -
  assume d: "linker_alias m n am an l = (r, l')"
  obtain src l1 where k: "import_key m (Some n) l = (src, l1)" by (metis surj_pair)
  obtain dst l2 where k2: "import_key am (Some an) l1 = (dst, l2)" by (metis surj_pair)
  note s1 = import_key_spec(1) [OF k] and s2 = import_key_spec(1) [OF k2]
  show ?thesis
  proof (cases "map_of (link_map l2) src")
    case None
    with d k k2 have "l' = l2" by (auto simp: linker_alias_def)
    with interned_ext [OF interned_trans [OF s1 s2]] show ?thesis by simp
  next
    case (Some item)
    with d k k2 have i: "link_insert dst item l2 = (r, l')" by (simp add: linker_alias_def)
    have "link_extends l2 l'" if "linker_ok l" "length (strings l2) \<le> usize_max"
    proof -
      have "linker_ok l1" using s1 s2 that by (auto simp: interned_def)
      from import_key_valid [OF k2 this that(2)] link_insert_ext [OF i] show ?thesis by simp
    qed
    with interned_trans [OF s1 s2] link_insert_fields [OF i] show ?thesis
      unfolding link_extends_def interned_def by (auto intro: map_le_trans)
  qed
qed

lemma alias_module_ext:
  assumes d: "alias_module m am l = (r, l')"
  shows "link_extends l l'"
proof -
  obtain a l1 where k: "intern_str m l = (a, l1)" by (metis surj_pair)
  obtain b l2 where k2: "intern_str am l1 = (b, l2)" by (metis surj_pair)
  note s1 = intern_str_spec [OF k] and s2 = intern_str_spec [OF k2]
  note s12 = interned_trans [OF s1(1) s2(1)]
  let ?xs = "map (\<lambda>(name, item). ((b, name), item))
    (map (\<lambda>(key, d). (snd key, d)) (filter (\<lambda>(key, d). fst key = a) (link_map l2)))"
  from d k k2 have i: "link_insert_all ?xs l2 = (r, l')" by (simp add: alias_module_def)
  have "link_extends l2 l'" if ok: "linker_ok l" "length (strings l2) \<le> usize_max"
  proof -
    have ok2: "linker_ok l2" using s12 ok by (simp add: interned_def)
    have ok1: "linker_ok l1" using s1(1) s2(1) ok by (simp add: interned_def)
    have "b < length (strings l2)" using s2(2) [OF ok1 ok(2)] linker_okD(3) [OF ok2] by simp
    have sn: "snd key < length (strings l2) \<or> snd key = usize_max" if "(key, e) \<in> set (link_map l2)" for key e
    proof -
      from that linker_okD(5) [OF ok2] have "map_of (link_map l2) (fst key, snd key) = Some e" by simp
      from linker_okD(4) [OF ok2 this] show ?thesis by blast
    qed
    have "key_valid l2 key" if "(key, e) \<in> set ?xs" for key e
    proof -
      from that obtain key' where "(key', e) \<in> set (link_map l2)" "key = (b, snd key')" by auto
      with sn \<open>b < length (strings l2)\<close> show ?thesis by (simp add: key_valid_def)
    qed
    then have "\<forall>(key, d) \<in> set ?xs. key_valid l2 key" by blast
    with link_insert_all_ext [OF i ok2] show ?thesis by blast
  qed
  with s12 link_insert_all_fields [OF i] show ?thesis
    unfolding link_extends_def interned_def by (auto intro: map_le_trans)
qed

lemma command_exports_ext:
  "command_exports R name m es (l, s) = (r, l', s') \<Longrightarrow> link_extends l l'"
proof (induction es arbitrary: l s)
  case (Cons e es)
  then show ?case
    by (cases e)
      (auto simp: Let_def link_extends_refl split: if_splits outcome.splits prod.splits
        dest: define_at_ext intro: link_extends_trans)
qed (simp add: link_extends_refl)

lemma linker_module_ext: "linker_module R name m (l, s) = (r, l', s') \<Longrightarrow> link_extends l l'"
  unfolding linker_module_def
  by (auto simp: Let_def link_extends_refl split: if_splits outcome.splits prod.splits module_kind.splits option.splits
      dest: command_exports_ext linker_instance_ext)

lemma define_unknown_ext: "define_unknown own_type has_default mk is l = (r, l') \<Longrightarrow> link_extends l l'"
proof (induction "is" arbitrary: l)
  case (Cons i "is")
  then show ?case
    by (cases i)
      (auto simp: link_extends_refl func_new_def split: option.splits extern_type.splits if_splits outcome.splits prod.splits
        dest: define_at_ext intro: link_extends_trans)
qed (simp add: link_extends_refl)

text \<open>One operation on the linker, with any arguments and any outcome.\<close>

inductive linker_step ::
  "('s, 'h, 'ty, 'hf, 'inst, 'e) runtime \<Rightarrow> ('h, 'ty, 'hf) linker \<Rightarrow> ('h, 'ty, 'hf) linker \<Rightarrow> bool"
  for R :: "('s, 'h, 'ty, 'hf, 'inst, 'e) runtime" where
  "linker_define R s m n item l = (r, l') \<Longrightarrow> linker_step R l l'"
| "define_name R s n item l = (r, l') \<Longrightarrow> linker_step R l l'"
| "func_new same m n f l = (r :: (unit, ('e, 'ty) link_error) outcome, l') \<Longrightarrow> linker_step R l l'"
| "func_wrap m n f l = (r :: (unit, ('e, 'ty) link_error) outcome, l') \<Longrightarrow> linker_step R l l'"
| "linker_instance R s n inst l = (r, l') \<Longrightarrow> linker_step R l l'"
| "linker_alias m n am an l = (r :: (unit, ('e, 'ty) link_error) outcome, l') \<Longrightarrow> linker_step R l l'"
| "alias_module m am l = (r :: (unit, ('e, 'ty) link_error) outcome, l') \<Longrightarrow> linker_step R l l'"
| "define_unknown_imports_as_traps own_type trap mo l = (r :: (unit, ('e, 'ty) link_error) outcome, l') \<Longrightarrow> linker_step R l l'"
| "define_unknown_imports_as_default_values own_type has_default dflt mo l = (r :: (unit, ('e, 'ty) link_error) outcome, l') \<Longrightarrow> linker_step R l l'"
| "linker_module R n mo (l, s) = (r, l', s') \<Longrightarrow> linker_step R l l'"

lemma linker_step_ext: "linker_step R l l' \<Longrightarrow> link_extends l l'"
proof (induction rule: linker_step.induct)
  case (3 same m n f l r l')
  then show ?case by (auto simp: func_new_def link_extends_refl split: if_splits dest: define_at_ext)
qed (auto simp: linker_define_def define_name_def func_wrap_def define_unknown_imports_as_traps_def
  define_unknown_imports_as_default_values_def
  dest: define_at_ext linker_instance_ext linker_alias_ext alias_module_ext define_unknown_ext linker_module_ext)

lemma linker_steps_ext: "(linker_step R)\<^sup>*\<^sup>* l l' \<Longrightarrow> link_extends l l'"
  by (induction rule: rtranclp_induct) (auto intro: link_extends_refl link_extends_trans linker_step_ext)

lemma linker_ok_new: "linker_ok linker_new"
  by (simp add: linker_ok_def linker_new_def)

section \<open>Publishing an instance\<close>

lemma link_insert_all_Ok:
  fixes l :: "('h, 'ty, 'hf) linker"
  assumes "link_insert_all xs l = (Ok () :: (unit, ('e, 'ty) link_error) outcome, l')" "linker_ok l"
    and "length ns = length xs" "distinct ns" "\<forall>i < length xs. key_names l (fst (xs ! i)) m (Some (ns ! i))"
  shows "linker_ok l' \<and> (\<forall>i < length xs. link_abs l' (m, Some (ns ! i)) = Some (snd (xs ! i))) \<and>
    (\<forall>k. k \<notin> (\<lambda>n. (m, Some n)) ` set ns \<longrightarrow> link_abs l' k = link_abs l k)"
  using assms
proof (induction xs arbitrary: l ns)
  case (Cons x xs)
  obtain key item where x: "x = (key, item)" by (cases x)
  obtain n ns' where ns: "ns = n # ns'" using Cons.prems(3) by (cases ns) auto
  have kn: "key_names l key m (Some n)" using Cons.prems(5) x ns by auto
  note sp = link_insert_spec [where item = item, OF Cons.prems(2) kn]
  let ?l1 = "l\<lparr>link_map := AList.update key item (link_map l)\<rparr>"
  have run: "link_insert_all xs ?l1 = (Ok () :: (unit, ('e, 'ty) link_error) outcome, l')"
    using Cons.prems(1) x by (auto simp: sp(1) split: if_splits)
  have kn1: "key_names ?l1 = key_names l" by (auto simp: key_names_def fun_eq_iff split: option.splits)
  have "\<forall>i < length xs. key_names ?l1 (fst (xs ! i)) m (Some (ns' ! i))"
    using Cons.prems(5) ns unfolding kn1 by (metis Suc_less_eq length_Cons nth_Cons_Suc)
  from Cons.IH [OF run sp(2) _ _ this] Cons.prems(3,4) ns have ih: "linker_ok l'"
    "\<forall>i < length xs. link_abs l' (m, Some (ns' ! i)) = Some (snd (xs ! i))"
    "\<forall>k. k \<notin> (\<lambda>n. (m, Some n)) ` set ns' \<longrightarrow> link_abs l' k = ((link_abs l)((m, Some n) \<mapsto> item)) k"
    by (simp_all add: sp(3))
  have "(m, Some n) \<notin> (\<lambda>n. (m, Some n)) ` set ns'" using Cons.prems(4) ns by auto
  with ih(3) have "link_abs l' (m, Some n) = Some item" by simp
  with ih x ns show ?case by (auto simp: less_Suc_eq_0_disj)
qed simp

lemma linker_instance_Ok:
  fixes R :: "('s, 'h, 'ty, 'hf, 'inst, 'e) runtime"
  assumes run: "linker_instance R s name inst l = (Ok (), l')" and ok: "linker_ok l"
    and len: "length (strings l') \<le> usize_max" and dist: "distinct (map fst (instance_exports R s inst))"
    and e: "(n, e) \<in> set (instance_exports R s inst)"
  shows "link_get name n l' = Some (link_def_new R s e)"
proof -
  let ?es = "instance_exports R s inst"
  obtain ks l1 where k: "export_keys name ?es l = (ks, l1)" by (metis surj_pair)
  note sp = export_keys_spec [OF k]
  let ?xs = "map (\<lambda>(key, e). (key, link_def_new R s e)) ks"
  from run k have i: "link_insert_all ?xs l1 = (Ok () :: (unit, ('e, 'ty) link_error) outcome, l')"
    by (simp add: linker_instance_def)
  have len1: "length (strings l1) \<le> usize_max" using link_insert_all_fields [OF i] len by simp
  have ok1: "linker_ok l1" using sp ok len1 by (simp add: interned_def)
  have lk: "length ks = length ?es" using sp by (metis length_map)
  have kn: "\<forall>i < length ?xs. key_names l1 (fst (?xs ! i)) name (Some (map fst ?es ! i))"
    using sp ok len1 lk by (auto simp: split_def)
  from link_insert_all_Ok [OF i ok1 _ dist kn] lk have res:
    "\<forall>i < length ks. link_abs l' (name, Some (fst (?es ! i))) = Some (link_def_new R s (snd (ks ! i)))"
    by (auto simp: split_def)
  from e obtain j where j: "j < length ?es" "?es ! j = (n, e)" by (auto simp: in_set_conv_nth)
  moreover have "snd (ks ! j) = e" using sp j lk by (metis nth_map snd_conv)
  ultimately show ?thesis using res lk by (auto simp: link_get_abs)
qed

lemma link_insert_all_fresh:
  fixes l :: "('h, 'ty, 'hf) linker"
  assumes "linker_ok l" "length ns = length xs" "distinct ns" "\<forall>i < length xs. key_names l (fst (xs ! i)) m (Some (ns ! i))"
    "\<forall>n \<in> set ns. link_abs l (m, Some n) = None"
  shows "\<exists>l'. link_insert_all xs l = (Ok () :: (unit, ('e, 'ty) link_error) outcome, l')"
  using assms
proof (induction xs arbitrary: l ns)
  case (Cons x xs)
  obtain key item where x: "x = (key, item)" by (cases x)
  obtain n ns' where ns: "ns = n # ns'" using Cons.prems(2) by (cases ns) auto
  have kn: "key_names l key m (Some n)" using Cons.prems(4) x ns by auto
  note sp = link_insert_spec [where item = item, OF Cons.prems(1) kn]
  let ?l1 = "l\<lparr>link_map := AList.update key item (link_map l)\<rparr>"
  have kn1: "key_names ?l1 = key_names l" by (auto simp: key_names_def fun_eq_iff split: option.splits)
  have "\<forall>i < length xs. key_names ?l1 (fst (xs ! i)) m (Some (ns' ! i))"
    using Cons.prems(4) ns unfolding kn1 by (metis Suc_less_eq length_Cons nth_Cons_Suc)
  moreover have "\<forall>n \<in> set ns'. link_abs ?l1 (m, Some n) = None"
    using Cons.prems(3,5) ns by (auto simp: sp(3))
  ultimately have "\<exists>l'. link_insert_all xs ?l1 = (Ok () :: (unit, ('e, 'ty) link_error) outcome, l')"
    using Cons.IH [OF sp(2)] Cons.prems(2,3) ns by simp
  then show ?case using Cons.prems(5) ns x by (simp add: sp(1))
qed simp

lemma linker_instance_fresh:
  fixes R :: "('s, 'h, 'ty, 'hf, 'inst, 'e) runtime"
  assumes ok: "linker_ok l" and dist: "distinct (map fst (instance_exports R s inst))"
    and fresh: "\<forall>n. link_abs l (name, Some n) = None"
    and len: "length (strings (snd (export_keys name (instance_exports R s inst) l))) \<le> usize_max"
  shows "\<exists>l'. linker_instance R s name inst l = (Ok (), l') \<and> length (strings l') \<le> usize_max"
proof -
  let ?es = "instance_exports R s inst"
  obtain ks l1 where k: "export_keys name ?es l = (ks, l1)" by (metis surj_pair)
  note sp = export_keys_spec [OF k]
  let ?xs = "map (\<lambda>(key, e). (key, link_def_new R s e)) ks"
  have len1: "length (strings l1) \<le> usize_max" using len k by simp
  have ok1: "linker_ok l1" "link_abs l1 = link_abs l" using sp ok len1 by (simp_all add: interned_def)
  have lk: "length ks = length ?es" using sp by (metis length_map)
  have "\<forall>i < length ?xs. key_names l1 (fst (?xs ! i)) name (Some (map fst ?es ! i))"
    using sp ok len1 lk by (auto simp: split_def)
  from link_insert_all_fresh [where 'e = 'e, OF ok1(1) _ dist this] lk fresh ok1(2) obtain l' where
    i: "link_insert_all ?xs l1 = (Ok () :: (unit, ('e, 'ty) link_error) outcome, l')" by auto
  with link_insert_all_fields [OF i] len1 k show ?thesis by (simp add: linker_instance_def)
qed

lemma export_keys_length:
  "length (strings (snd (export_keys m es l))) \<le> length (strings l) + 2 * length es"
proof (induction m es l rule: export_keys.induct)
  case (2 m name e es l)
  obtain key l1 where k: "import_key m (Some name) l = (key, l1)" by (metis surj_pair)
  from 2 [OF k [symmetric] refl] import_key_length [OF k] show ?case
    by (cases "export_keys m es l1") (simp add: k)
qed simp

section \<open>Properties\<close>

text \<open>
  Claim C27. The linker is a map from pairs of a module's and an item's name, or from a single
  name. Interning names does not change it; defining an item adds it, or replaces it if
  shadowing is allowed, or fails with both names and changes nothing. Looking up is looking
  up in the map. The names in use must stay fewer than \<open>2 ^ 64 - 1\<close>.
\<close>

theorem linker_refines_map:
  fixes l :: "('h, 'ty, 'hf) linker"
  assumes "linker_ok l" and "length (strings l) + 2 \<le> usize_max"
  shows "link_get m n l = link_abs l (m, Some n) \<and>
    (\<exists>l'. define_at m k item l =
        (if link_abs l (m, k) \<noteq> None \<and> \<not> shadowing l then (Err (DefinedTwice m k), l')
         else (Ok () :: (unit, ('e, 'ty) link_error) outcome, l')) \<and>
      linker_ok l' \<and> shadowing l' = shadowing l \<and>
      link_abs l' = (if link_abs l (m, k) \<noteq> None \<and> \<not> shadowing l then link_abs l else (link_abs l)((m, k) \<mapsto> item)))"
  using define_at_spec [where 'e = 'e, OF assms, of m k item] link_get_abs [of m n l] by blast

definition demo_runtime :: "(nat, nat, nat, nat, nat, unit) runtime" where
  "demo_runtime =
     \<lparr>type_of = (\<lambda>s h. 0), table_size = (\<lambda>s h. 0), memory_size = (\<lambda>s h. 1), same_store = (\<lambda>s e. True),
      same_engine = (\<lambda>s. True), sig_index = (\<lambda>f. f), to_func = (\<lambda>f s. (f, s)), noop_func = (\<lambda>s. (0, s)),
      pre_ok = (\<lambda>m ds. Ok ()), instantiate_now = (\<lambda>m ds s. (Ok (length ds), s)), command_func = (\<lambda>m n ds s. (7, s)),
      instance_exports = (\<lambda>s i. [(''main'', ExFunc 8), (''memory'', ExMemory 9)]), call_unit = (\<lambda>h s. (Ok (), s + 1))\<rparr>"

lemma define_new:
  fixes item :: "('h, 'ty, 'hf) link_def"
  shows "\<exists>l'. define_at m n item linker_new = (Ok () :: (unit, ('e, 'ty) link_error) outcome, l') \<and> linker_ok l' \<and>
    link_abs l' (m, n) = Some item"
proof -
  have "length (strings (linker_new :: ('h, 'ty, 'hf) linker)) + 2 \<le> usize_max"
    by (simp add: linker_new_def usize_max_def)
  from define_at_spec [where 'e = 'e, OF linker_ok_new this, of m n item] show ?thesis
    by (auto simp: link_abs_def [of linker_new] linker_new_def [THEN arg_cong [where f = string2idx], simplified])
qed

definition demo_linker :: "(nat, nat, nat) linker" where
  "demo_linker = snd (func_wrap ''env'' ''f'' 3 linker_new :: (unit, (unit, nat) link_error) outcome \<times> _)"

lemma demo_linker_eq:
  "demo_linker = \<lparr>string2idx = [(''env'', 0), (''f'', 1)], strings = [''env'', ''f''],
     link_map = [((0, 1), DefHostFunc 3)], shadowing = False, unknown_exports = False\<rparr>"
  by (simp add: demo_linker_def func_wrap_def define_at_def import_key_def intern_str_def linker_new_def Let_def link_insert_def)

lemma demo_linker_ok: "linker_ok demo_linker"
proof -
  obtain l' :: "(nat, nat, nat) linker" where
    "define_at ''env'' (Some ''f'') (DefHostFunc 3) linker_new = (Ok () :: (unit, (unit, nat) link_error) outcome, l')" "linker_ok l'"
    using define_new [where 'e = unit, of "''env''" "Some ''f''" "DefHostFunc 3"] by blast
  then show ?thesis by (simp add: demo_linker_def func_wrap_def)
qed

theorem linker_refines_map_witness:
  "\<exists>l' :: (nat, nat, nat) linker. define_at ''env'' (Some ''f'') (DefHostFunc 4) demo_linker =
     (Err (DefinedTwice ''env'' (Some ''f'')) :: (unit, (unit, nat) link_error) outcome, l') \<and> link_abs l' = link_abs demo_linker"
proof -
  have "length (strings demo_linker) + 2 \<le> usize_max" by (simp add: demo_linker_eq usize_max_def)
  note r = linker_refines_map [where 'e = unit, OF demo_linker_ok this, of "''env''" "''f''" "Some ''f''" "DefHostFunc 4"]
  have "link_abs demo_linker (''env'', Some ''f'') = Some (DefHostFunc 3)" "\<not> shadowing demo_linker"
    by (simp_all add: link_abs_def demo_linker_eq)
  with r show ?thesis by auto
qed

text \<open>
  Claim C28. Definitions are stable. Unless shadowing is allowed, no sequence of operations on
  the linker - defining, aliasing, adding instances, modules or stand-ins for unknown
  imports - ever changes or removes a definition.
\<close>

theorem linker_definitions_stable:
  assumes "(linker_step R)\<^sup>*\<^sup>* l l'" and "linker_ok l" and "\<not> shadowing l" and "length (strings l') \<le> usize_max"
    and "link_get m n l = Some d"
  shows "link_get m n l' = Some d \<and> linker_ok l'"
proof -
  from linker_steps_ext [OF assms(1)] assms(2-4) have "linker_ok l'" "link_abs l \<subseteq>\<^sub>m link_abs l'"
    by (auto simp: link_extends_def)
  with assms(5) show ?thesis by (auto simp: link_get_abs map_le_def dom_def)
qed

theorem linker_definitions_stable_witness:
  "link_get ''env'' ''f'' (snd (func_wrap ''env'' ''f'' 4 demo_linker :: (unit, (unit, nat) link_error) outcome \<times> _)) = Some (DefHostFunc 3)"
proof -
  let ?l = "snd (func_wrap ''env'' ''f'' 4 demo_linker :: (unit, (unit, nat) link_error) outcome \<times> _)"
  have "linker_step demo_runtime demo_linker ?l"
    by (rule linker_step.intros(4) [of "''env''" "''f''" 4 demo_linker "fst (func_wrap ''env'' ''f'' 4 demo_linker)"]) simp
  then have "(linker_step demo_runtime)\<^sup>*\<^sup>* demo_linker ?l" by blast
  moreover have "length (strings ?l) \<le> usize_max"
    by (simp add: demo_linker_eq func_wrap_def define_at_def import_key_def intern_str_def link_insert_def usize_max_def)
  ultimately show ?thesis
    using linker_definitions_stable [OF _ demo_linker_ok, of demo_runtime ?l "''env''" "''f''"]
    by (simp add: link_get_def demo_linker_eq)
qed

text \<open>
  Claim C29. Imports are resolved by name and in order. If every import of a module is defined
  the definitions are handed over in the order of the imports, with the sizes of memories and
  tables brought up to date; otherwise the error names the first import that is not defined.
\<close>

theorem imports_resolved:
  "instantiate_pre R mo store l =
     (case find (\<lambda>(m, n, ty). link_get m n l = None) (module_imports mo) of
        Some (m, n, ty) \<Rightarrow> Err (UnknownImport m n ty)
      | None \<Rightarrow>
          (let ds = map (\<lambda>(m, n, ty). (case store of Some s \<Rightarrow> update_size R s | None \<Rightarrow> id) (the (link_get m n l))) (module_imports mo)
           in map_ok (\<lambda>_. ds) (map_err RuntimeError (pre_ok R mo ds))))"
proof -
  have c: "collect_ok (map (get_by_import l) is) =
      (case find (\<lambda>(m, n, ty). link_get m n l = None) is of
         Some (m, n, ty) \<Rightarrow> Err (UnknownImport m n ty) | None \<Rightarrow> Ok (map (\<lambda>(m, n, ty). the (link_get m n l)) is))" for "is"
    by (induction "is") (auto simp: get_by_import_def split: option.splits prod.splits)
  show ?thesis
    unfolding instantiate_pre_def c
    by (auto simp: Let_def comp_def split_def split: option.splits)
qed

text \<open>
  Listing the definitions panics as soon as one was made under a single name
  with \<^verbatim>\<open>define_name\<close>: the missing second name is looked up in the list of names, out of its range. Otherwise it
  returns every definition with its names.
\<close>

theorem linker_iter_panics:
  assumes ok: "linker_ok l"
  shows "fst (linker_iter R l s) = Panic \<longleftrightarrow> (\<exists>m. link_abs l (m, None) \<noteq> None)"
proof -
  have it: "fst (iter_items R ss xs s) = Panic \<longleftrightarrow> (\<exists>(key, d) \<in> set xs. \<not> (fst key < length ss \<and> snd key < length ss))"
    for xs ss s
  proof (induction xs arbitrary: s)
    case (Cons x xs)
    obtain m n d where x: "x = ((m, n), d)" by (metis prod_cases3 surj_pair)
    obtain e s1 where e: "to_extern R d s = (e, s1)" by (metis surj_pair)
    obtain r2 s2 where r: "iter_items R ss xs s1 = (r2, s2)" by (metis surj_pair)
    from Cons [of s1] show ?case by (cases r2) (simp_all add: x e r)
  qed simp
  have valid: "fst key < length (strings l) \<and> (snd key < length (strings l) \<or> snd key = usize_max)"
    if "(key, d) \<in> set (link_map l)" for key d
  proof -
    from that linker_okD(5) [OF ok] have "map_of (link_map l) (fst key, snd key) = Some d" by simp
    from linker_okD(4) [OF ok this] show ?thesis .
  qed
  have "\<not> (fst key < length (strings l) \<and> snd key < length (strings l)) \<longleftrightarrow> snd key = usize_max"
    if "(key, d) \<in> set (link_map l)" for key d
    using valid [OF that] linker_okD(2) [OF ok] by auto
  then have "(\<exists>(key, d) \<in> set (link_map l). \<not> (fst key < length (strings l) \<and> snd key < length (strings l))) \<longleftrightarrow>
      (\<exists>(key, d) \<in> set (link_map l). snd key = usize_max)"
    by (intro bex_cong) auto
  also have "\<dots> \<longleftrightarrow> (\<exists>i d. ((i, usize_max), d) \<in> set (link_map l))"
  proof
    assume "\<exists>(key, d) \<in> set (link_map l). snd key = usize_max"
    then obtain a b d where "((a, b), d) \<in> set (link_map l)" "b = usize_max" by auto
    then show "\<exists>i d. ((i, usize_max), d) \<in> set (link_map l)" by blast
  next
    assume "\<exists>i d. ((i, usize_max), d) \<in> set (link_map l)"
    then obtain i d where "((i, usize_max), d) \<in> set (link_map l)" by blast
    then show "\<exists>(key, d) \<in> set (link_map l). snd key = usize_max" by (intro bexI [of _ "((i, usize_max), d)"]) auto
  qed
  also have "\<dots> \<longleftrightarrow> (\<exists>m. link_abs l (m, None) \<noteq> None)"
  proof
    assume "\<exists>i d. ((i, usize_max), d) \<in> set (link_map l)"
    then obtain i d where d: "((i, usize_max), d) \<in> set (link_map l)" by blast
    then have "map_of (string2idx l) (strings l ! i) = Some i"
      using valid [OF d] linker_okD(3) [OF ok, of "strings l ! i" i] by simp
    then have "link_abs l (strings l ! i, None) \<noteq> None"
      using d by (auto simp: link_abs_def weak_map_of_SomeI)
    then show "\<exists>m. link_abs l (m, None) \<noteq> None" by blast
  next
    assume "\<exists>m. link_abs l (m, None) \<noteq> None"
    then obtain m i d where "map_of (link_map l) (i, usize_max) = Some d"
      by (auto simp: link_abs_def split: bind_splits)
    then show "\<exists>i d. ((i, usize_max), d) \<in> set (link_map l)" by (blast dest: map_of_SomeD)
  qed
  finally show ?thesis by (simp add: linker_iter_def it)
qed

theorem linker_iter_panics_witness:
  "fst (linker_iter demo_runtime (snd (define_name demo_runtime 0 ''f'' (ExFunc 1) linker_new)) 0) = Panic"
proof -
  let ?l = "snd (define_name demo_runtime 0 ''f'' (ExFunc 1) linker_new)"
  obtain l' :: "(nat, nat, nat) linker" where
    "define_at ''f'' None (link_def_new demo_runtime 0 (ExFunc 1)) linker_new = (Ok () :: (unit, (unit, nat) link_error) outcome, l')"
    "linker_ok l'" "link_abs l' (''f'', None) = Some (link_def_new demo_runtime 0 (ExFunc 1))"
    using define_new [where 'e = unit, of "''f''" None "link_def_new demo_runtime 0 (ExFunc 1)"] by blast
  then have "linker_ok ?l" "link_abs ?l (''f'', None) \<noteq> None" by (simp_all add: define_name_def)
  with linker_iter_panics [of ?l demo_runtime 0] show ?thesis by blast
qed

text \<open>
  Claim C30. Adding a module that is not a command publishes its instance: if the module has no
  \<^verbatim>\<open>_start\<close> export and adding it succeeds, every export of the instance made from the resolved imports can be looked up
  under the module's name and its own.
\<close>

theorem module_exports_linked:
  fixes R :: "('s, 'h, 'ty, 'hf, 'inst, 'e) runtime"
  assumes run: "linker_module R name mo (l, s) = (Ok (), l', s')" and start: "map_of (module_exports mo) ''_start'' = None"
    and ok: "linker_ok l" "length (strings l') \<le> usize_max"
    and dist: "\<forall>s inst. distinct (map fst (instance_exports R s inst))"
  shows "\<exists>ds inst s1. instantiate_pre R mo (Some s) l = Ok ds \<and> instantiate_now R mo ds s = (Ok inst, s1) \<and>
    (\<forall>(n, e) \<in> set (instance_exports R s' inst). link_get name n l' = Some (link_def_new R s' e))"
proof -
  have cat: "categorize mo = (Ok Reactor :: (module_kind, ('e, 'ty) link_error) outcome)"
  proof -
    let ?c = "categorize mo :: (module_kind, ('e, 'ty) link_error) outcome"
    have "?c \<noteq> Ok Command" using start by (simp add: categorize_def split: option.splits)
    moreover have "\<exists>k. ?c = Ok k" using run by (cases ?c) (simp_all add: linker_module_def split: if_splits)
    ultimately show ?thesis by (metis module_kind.exhaust)
  qed
  have eng: "same_engine R s" using run by (simp add: linker_module_def split: if_splits)
  obtain ri s1 where ri: "linker_instantiate R mo l s = (ri, s1)" by (metis surj_pair)
  with run cat eng obtain inst where inst: "ri = Ok inst" by (cases ri) (auto simp: linker_module_def)
  with ri have i: "linker_instantiate R mo l s = (Ok inst, s1)" by simp
  obtain rc s2 where rc: "(case map_of (instance_exports R s1 inst) ''_initialize'' of
      Some (ExFunc f) \<Rightarrow> (let (r, s2) = call_unit R f s1 in (map_err RuntimeError r, s2)) | _ \<Rightarrow> (Ok (), s1)) =
      (rc :: (unit, ('e, 'ty) link_error) outcome, s2)" by (metis surj_pair)
  have li: "linker_instance R s' name inst l = (Ok (), l')"
    using run eng by (cases rc) (simp_all add: linker_module_def cat i rc Let_def split: prod.splits)
  from i obtain ds where "instantiate_pre R mo (Some s) l = Ok ds" "instantiate_now R mo ds s = (Ok inst, s1)"
    by (auto simp: linker_instantiate_def outcome_iffs split: outcome.splits prod.splits)
  moreover have "\<forall>(n, e) \<in> set (instance_exports R s' inst). link_get name n l' = Some (link_def_new R s' e)"
  proof (intro ballI, clarify)
    fix n e assume "(n, e) \<in> set (instance_exports R s' inst)"
    with dist show "link_get name n l' = Some (link_def_new R s' e)" by (intro linker_instance_Ok [OF li ok]) auto
  qed
  ultimately show ?thesis by blast
qed

definition demo_module :: "nat wasm_module" where
  "demo_module = \<lparr>module_imports = [(''env'', ''f'', EtFunc 0)], module_exports = [(''main'', EtFunc 1), (''memory'', EtMemory 2)]\<rparr>"

theorem module_exports_linked_witness:
  "link_get ''test'' ''main'' (fst (snd (linker_module demo_runtime ''test'' demo_module (demo_linker, 0)))) =
     Some (DefExtern (ExFunc 8) (DtFunc 0))"
proof -
  obtain l' s' where run: "linker_module demo_runtime ''test'' demo_module (demo_linker, 0) = (Ok (), l', s')"
    and len: "length (strings l') \<le> usize_max"
    by (simp add: linker_module_def demo_runtime_def demo_module_def categorize_def linker_instantiate_def instantiate_pre_def
        get_by_import_def link_get_def demo_linker_eq linker_instance_def import_key_def intern_str_def link_insert_def
        link_def_new_def usize_max_def)
  have dist: "\<forall>s inst. distinct (map fst (instance_exports demo_runtime s inst))" by (simp add: demo_runtime_def)
  have "map_of (module_exports demo_module) ''_start'' = None" by (simp add: demo_module_def)
  from module_exports_linked [OF run this demo_linker_ok len dist] run show ?thesis
    by (auto simp: demo_runtime_def link_def_new_def definition_type_from_def)
qed

end
