(* ===== verification/Launcher.thy ===== *)
theory Launcher
  imports Linker_Laws NN_Onnx WASI_Ctx
begin

text \<open>
  The launcher, \<^verbatim>\<open>wasmtime-custom/src/main.rs\<close>: it registers the host functions of WASI and wasi-nn, makes
  the host state with two preopened directories, loads the module, links it under the name
  \<open>test\<close> and calls its \<open>main\<close>. The functions registered are those of the WITX files, by the code that
  \<^verbatim>\<open>crates/wiggle/generate/src/wasmtime.rs\<close> generates. Engine, store, file system and compiler are the argument \<open>launch_host\<close>.
\<close>

section \<open>The host functions\<close>

definition wasi_snapshot_preview1_funcs :: "string list" where
  "wasi_snapshot_preview1_funcs =
     [''args_get'', ''args_sizes_get'', ''environ_get'', ''environ_sizes_get'', ''clock_res_get'',
      ''clock_time_get'', ''fd_advise'', ''fd_allocate'', ''fd_close'', ''fd_datasync'',
      ''fd_fdstat_get'', ''fd_fdstat_set_flags'', ''fd_fdstat_set_rights'', ''fd_filestat_get'',
      ''fd_filestat_set_size'', ''fd_filestat_set_times'', ''fd_pread'', ''fd_prestat_get'',
      ''fd_prestat_dir_name'', ''fd_pwrite'', ''fd_read'', ''fd_readdir'', ''fd_renumber'', ''fd_seek'',
      ''fd_sync'', ''fd_tell'', ''fd_write'', ''path_create_directory'', ''path_filestat_get'',
      ''path_filestat_set_times'', ''path_link'', ''path_open'', ''path_readlink'',
      ''path_remove_directory'', ''path_rename'', ''path_symlink'', ''path_unlink_file'',
      ''poll_oneoff'', ''proc_exit'', ''proc_raise'', ''sched_yield'', ''random_get'', ''sock_accept'',
      ''sock_recv'', ''sock_send'', ''sock_shutdown'']"

definition wasi_unstable_funcs :: "string list" where
  "wasi_unstable_funcs =
     [''args_get'', ''args_sizes_get'', ''environ_get'', ''environ_sizes_get'', ''clock_res_get'',
      ''clock_time_get'', ''fd_advise'', ''fd_allocate'', ''fd_close'', ''fd_datasync'',
      ''fd_fdstat_get'', ''fd_fdstat_set_flags'', ''fd_fdstat_set_rights'', ''fd_filestat_get'',
      ''fd_filestat_set_size'', ''fd_filestat_set_times'', ''fd_pread'', ''fd_prestat_get'',
      ''fd_prestat_dir_name'', ''fd_pwrite'', ''fd_read'', ''fd_readdir'', ''fd_renumber'', ''fd_seek'',
      ''fd_sync'', ''fd_tell'', ''fd_write'', ''path_create_directory'', ''path_filestat_get'',
      ''path_filestat_set_times'', ''path_link'', ''path_open'', ''path_readlink'',
      ''path_remove_directory'', ''path_rename'', ''path_symlink'', ''path_unlink_file'',
      ''poll_oneoff'', ''proc_exit'', ''proc_raise'', ''sched_yield'', ''random_get'', ''sock_recv'',
      ''sock_send'', ''sock_shutdown'']"

definition wasi_ephemeral_nn_funcs :: "string list" where
  "wasi_ephemeral_nn_funcs =
     [''load'', ''load_by_name'', ''init_execution_context'', ''set_input'', ''get_output'', ''compute'']"

text \<open>\<open>mk module field\<close> is the closure made for a function: it finds the module's memory and makes the call.\<close>

definition link_module :: "(string \<Rightarrow> string \<Rightarrow> 'hf) \<Rightarrow> string \<Rightarrow> string list \<Rightarrow> ('h, 'ty, 'hf, 'e, unit) link" where
  "link_module mk module = try_each (\<lambda>field. func_wrap module field (mk module field))"

definition wasi_add_to_linker :: "(string \<Rightarrow> string \<Rightarrow> 'hf) \<Rightarrow> ('h, 'ty, 'hf, 'e, unit) link" where
  "wasi_add_to_linker mk l =
     (case link_module mk ''wasi_snapshot_preview1'' wasi_snapshot_preview1_funcs l of
        (Ok _, l1) \<Rightarrow> link_module mk ''wasi_unstable'' wasi_unstable_funcs l1
      | (r, l1) \<Rightarrow> (r, l1))"

definition nn_add_to_linker :: "(string \<Rightarrow> string \<Rightarrow> 'hf) \<Rightarrow> ('h, 'ty, 'hf, 'e, unit) link" where
  "nn_add_to_linker mk = link_module mk ''wasi_ephemeral_nn'' wasi_ephemeral_nn_funcs"

text \<open>
  The body of such a closure: the call works on the export \<^verbatim>\<open>memory\<close> of the calling instance, which
  may be shared or not, and fails without one.
\<close>

datatype 'e call_error = MissingMemory | CallError 'e

definition generate_func ::
  "'h extern option \<Rightarrow> ('h \<Rightarrow> 's \<Rightarrow> guest_memory) \<Rightarrow> ('h \<Rightarrow> 's \<Rightarrow> guest_memory) \<Rightarrow>
   (guest_memory \<Rightarrow> 's \<Rightarrow> ('r, 'e) outcome \<times> 's) \<Rightarrow> 's \<Rightarrow> ('r, 'e call_error) outcome \<times> 's" where
  "generate_func export unshared shared abi_func s =
     (case export of
        Some (ExMemory m) \<Rightarrow> (let (r, s') = abi_func (unshared m s) s in (map_err CallError r, s'))
      | Some (ExSharedMemory m) \<Rightarrow> (let (r, s') = abi_func (shared m s) s in (map_err CallError r, s'))
      | _ \<Rightarrow> (Err MissingMemory, s))"

section \<open>The host state\<close>

record ('f, 'd, 'se) launch_ctx =
  ctx_wasi :: "('f, 'd) wasi_ctx"
  ctx_wasi_nn :: "(unit, 'se onnx_graph, 'se onnx_exec) wasi_nn_ctx"

record ('w, 's, 'h, 'ty, 'f, 'd, 'bld, 'se, 'v, 'e) launch_host =
  inherited_stdio :: "'f stdio"
  ort_api :: "('bld, 'se, 'v) ort"
  model_file :: "string \<Rightarrow> (u8 list, string) outcome"
  engine_new :: "(unit, 'e) outcome"
  open_ambient_dir :: "string \<Rightarrow> 'w \<Rightarrow> ('d, 'e) outcome \<times> 'w"
  store_new :: "('f, 'd, 'se) launch_ctx \<Rightarrow> 'w \<Rightarrow> 's"
  deserialize_file :: "string \<Rightarrow> 's \<Rightarrow> ('ty wasm_module, 'e) outcome \<times> 's"
  from_file :: "string \<Rightarrow> 's \<Rightarrow> ('ty wasm_module, 'e) outcome \<times> 's"
  serialize :: "'ty wasm_module \<Rightarrow> (u8 list, 'e) outcome"
  fs_write :: "string \<Rightarrow> u8 list \<Rightarrow> 's \<Rightarrow> (unit, 'e) outcome \<times> 's"
  typed_unit :: "'s \<Rightarrow> 'h \<Rightarrow> bool"

datatype ('e, 'ty) launch_error = LinkError "('e, 'ty) link_error" | WasiError wasi_error | HostError 'e

definition str_bytes :: "string \<Rightarrow> u8 list" where
  "str_bytes s = map of_char s"

text \<open>The directories are opened one by one, each just before it is given to the builder.\<close>

fun preopen_all ::
  "(string \<Rightarrow> 'w \<Rightarrow> ('d, 'e) outcome \<times> 'w) \<Rightarrow> string list \<Rightarrow> ('f, 'd) wasi_ctx_builder \<Rightarrow> 'w \<Rightarrow>
   (('f, 'd) wasi_ctx_builder, ('e, 'ty) launch_error) outcome \<times> 'w" where
  "preopen_all open_dir [] b w = (Ok b, w)"
| "preopen_all open_dir (path # paths) b w =
     (case open_dir path w of
        (Ok d, w1) \<Rightarrow>
          (case preopened_dir d (str_bytes path) b of
             (Ok _, b1) \<Rightarrow> preopen_all open_dir paths b1 w1
           | (Err e, b1) \<Rightarrow> (Err (WasiError e), w1)
           | (Panic, b1) \<Rightarrow> (Panic, w1))
      | (_, w1) \<Rightarrow> (Panic, w1))"

definition launch_ctx_new ::
  "('w, 's, 'h, 'ty, 'f, 'd, 'bld, 'se, 'v, 'e) launch_host \<Rightarrow> string list \<Rightarrow> 'w \<Rightarrow>
   (('f, 'd, 'se) launch_ctx, ('e, 'ty) launch_error) outcome \<times> 'w" where
  "launch_ctx_new H directories w =
     (let std = inherited_stdio H in
      case preopen_all (open_ambient_dir H) directories (inherit_stdio std (builder_new std)) w of
        (Ok b, w1) \<Rightarrow>
          (case build std b of
             (Ok c, _) \<Rightarrow>
               (Ok \<lparr>ctx_wasi = c, ctx_wasi_nn = ctx_new (onnx_backend (model_file H) (ort_api H)) [()] Map.empty\<rparr>, w1)
           | (Err e, _) \<Rightarrow> (Err (WasiError e), w1)
           | (Panic, _) \<Rightarrow> (Panic, w1))
      | (Err e, w1) \<Rightarrow> (Err e, w1)
      | (Panic, w1) \<Rightarrow> (Panic, w1))"

section \<open>The launcher's main function\<close>

definition load_module ::
  "('w, 's, 'h, 'ty, 'f, 'd, 'bld, 'se, 'v, 'e) launch_host \<Rightarrow> string \<Rightarrow> 's \<Rightarrow>
   ('ty wasm_module, ('e, 'ty) launch_error) outcome \<times> 's" where
  "load_module H filename s =
     (let serialized_name = filename @ ''.SERIALIZED'' in
      case deserialize_file H serialized_name s of
        (Ok m, s1) \<Rightarrow> (Ok m, s1)
      | (Panic, s1) \<Rightarrow> (Panic, s1)
      | (Err _, s1) \<Rightarrow>
          (case from_file H filename s1 of
             (Ok m, s2) \<Rightarrow>
               (case serialize H m of
                  Ok bytes \<Rightarrow>
                    (case fs_write H serialized_name bytes s2 of
                       (Ok _, s3) \<Rightarrow> (Ok m, s3)
                     | (_, s3) \<Rightarrow> (Panic, s3))
                | Err e \<Rightarrow> (Err (HostError e), s2)
                | Panic \<Rightarrow> (Panic, s2))
           | (Err e, s2) \<Rightarrow> (Err (HostError e), s2)
           | (Panic, s2) \<Rightarrow> (Panic, s2)))"

definition run_main ::
  "('s, 'h, 'ty, 'hf, 'inst, 'e) runtime \<Rightarrow> ('w, 's, 'h, 'ty, 'f, 'd, 'bld, 'se, 'v, 'e) launch_host \<Rightarrow>
   'ty wasm_module \<Rightarrow> ('h, 'ty, 'hf) linker \<Rightarrow> 's \<Rightarrow> (unit, ('e, 'ty) launch_error) outcome \<times> 's" where
  "run_main R H wasm_module l s =
     (case linker_module R ''test'' wasm_module (l, s) of
        (Ok _, l1, s1) \<Rightarrow>
          (case linker_get R ''test'' ''main'' l1 s1 of
             (Some (ExFunc f), s2) \<Rightarrow>
               if typed_unit H s2 f then
                 (case call_unit R f s2 of
                    (Panic, s3) \<Rightarrow> (Panic, s3)
                  | (_, s3) \<Rightarrow> (Ok (), s3))
               else (Panic, s2)
           | (_, s2) \<Rightarrow> (Panic, s2))
      | (Err e, l1, s1) \<Rightarrow> (Err (LinkError e), s1)
      | (Panic, l1, s1) \<Rightarrow> (Panic, s1))"

definition host_linker :: "(string \<Rightarrow> string \<Rightarrow> 'hf) \<Rightarrow> ('h, 'ty, 'hf, 'e, unit) link" where
  "host_linker mk l =
     (case wasi_add_to_linker mk l of
        (Ok _, l1) \<Rightarrow> nn_add_to_linker mk l1
      | (r, l1) \<Rightarrow> (r, l1))"

definition shared_dirs :: "string list" where
  "shared_dirs = [''assets/models'', ''assets/imgs'']"

text \<open>The final state is the one the launcher stopped in: before or after the store was made.\<close>

definition launcher_main ::
  "('s, 'h, 'ty, 'hf, 'inst, 'e) runtime \<Rightarrow> ('w, 's, 'h, 'ty, 'f, 'd, 'bld, 'se, 'v, 'e) launch_host \<Rightarrow>
   (string \<Rightarrow> string \<Rightarrow> 'hf) \<Rightarrow> string list \<Rightarrow> 'w \<Rightarrow>
   (unit, ('e, 'ty) launch_error) outcome \<times> ('w + 's)" where
  "launcher_main R H mk argv w =
     (if length argv < 2 then (Panic, Inl w)
      else
        case engine_new H of
          Err e \<Rightarrow> (Err (HostError e), Inl w)
        | Panic \<Rightarrow> (Panic, Inl w)
        | Ok _ \<Rightarrow>
            (case host_linker mk linker_new of
               (Err e, _) \<Rightarrow> (Err (LinkError e), Inl w)
             | (Panic, _) \<Rightarrow> (Panic, Inl w)
             | (Ok _, l) \<Rightarrow>
                 (case launch_ctx_new H shared_dirs w of
                    (Err e, w1) \<Rightarrow> (Err e, Inl w1)
                  | (Panic, w1) \<Rightarrow> (Panic, Inl w1)
                  | (Ok c, w1) \<Rightarrow>
                      (case load_module H (argv ! 1) (store_new H c w1) of
                         (Err e, s1) \<Rightarrow> (Err e, Inr s1)
                       | (Panic, s1) \<Rightarrow> (Panic, Inr s1)
                       | (Ok m, s1) \<Rightarrow> (let (r, s2) = run_main R H m l s1 in (r, Inr s2))))))"

section \<open>Registration\<close>

definition host_imports :: "(string \<times> string) list" where
  "host_imports =
     map (Pair ''wasi_snapshot_preview1'') wasi_snapshot_preview1_funcs @
     map (Pair ''wasi_unstable'') wasi_unstable_funcs @ map (Pair ''wasi_ephemeral_nn'') wasi_ephemeral_nn_funcs"

abbreviation host_item :: "(string \<Rightarrow> string \<Rightarrow> 'hf) \<Rightarrow> string \<times> string \<Rightarrow> (string \<times> string option) \<times> ('h, 'ty, 'hf) link_def" where
  "host_item mk i \<equiv> ((fst i, Some (snd i)), DefHostFunc (mk (fst i) (snd i)))"

lemma host_linker_items:
  "host_linker mk l = try_each (\<lambda>(k, item). define_at (fst k) (snd k) item) (map (host_item mk) host_imports) l"
  by (simp add: host_linker_def wasi_add_to_linker_def nn_add_to_linker_def link_module_def func_wrap_def
      host_imports_def try_each_append try_each_map comp_def split: prod.splits outcome.splits)

lemma map_of_host_items:
  "map_of (map (host_item mk) is) (m, Some n) = (if (m, n) \<in> set is then Some (DefHostFunc (mk m n)) else None)"
  by (induction "is") auto

lemma distinct_funcs:
  "distinct wasi_snapshot_preview1_funcs" "distinct wasi_unstable_funcs" "distinct wasi_ephemeral_nn_funcs"
  by (simp_all add: wasi_snapshot_preview1_funcs_def wasi_unstable_funcs_def wasi_ephemeral_nn_funcs_def)

lemma distinct_host_imports: "distinct host_imports"
  by (auto simp: host_imports_def distinct_map distinct_funcs inj_on_def)

lemma length_host_imports: "length host_imports = 97"
  by (simp add: host_imports_def wasi_snapshot_preview1_funcs_def wasi_unstable_funcs_def wasi_ephemeral_nn_funcs_def)

lemma host_linker_new:
  fixes mk :: "string \<Rightarrow> string \<Rightarrow> 'hf"
  shows "\<exists>l :: ('h, 'ty, 'hf) linker. host_linker mk linker_new = (Ok () :: (unit, ('e, 'ty) link_error) outcome, l) \<and>
    linker_ok l \<and> \<not> shadowing l \<and> length (strings l) \<le> 200 \<and> (\<forall>m. m \<notin> fst ` set host_imports \<longrightarrow> (\<forall>n. link_abs l (m, n) = None)) \<and>
    (\<forall>m n. link_get m n l = (if (m, n) \<in> set host_imports then Some (DefHostFunc (mk m n)) else None))"
proof -
  let ?l = "linker_new :: ('h, 'ty, 'hf) linker" and ?is = "map (host_item mk) host_imports :: (_ \<times> ('h, 'ty, 'hf) link_def) list"
  have e: "link_abs ?l = Map.empty" by (simp add: link_abs_def linker_new_def fun_eq_iff)
  have "distinct (map fst ?is)"
    by (simp add: distinct_map distinct_host_imports inj_on_def comp_def prod_eq_iff)
  moreover have "length ?is \<le> (usize_max - length (strings ?l)) div 2"
    by (simp add: length_host_imports linker_new_def usize_max_def)
  ultimately obtain l where "host_linker mk ?l = (Ok () :: (unit, ('e, 'ty) link_error) outcome, l)" "linker_ok l" "\<not> shadowing l"
    "link_abs l = map_of ?is" and room: "usize_max div 2 \<le> 97 + (usize_max - length (strings l)) div 2"
    using items.put_each_fresh [where 'd = 'e, of ?l ?is] linker_ok_new e
    by (auto simp: host_linker_items linker_new_def length_host_imports)
  moreover have "length (strings l) \<le> 200" using room by (simp add: usize_max_def)
  moreover have "map_of ?is (m, n) = None" if "m \<notin> fst ` set host_imports" for m n
    using that by (force simp: map_of_eq_None_iff)
  ultimately show ?thesis by (auto simp: link_get_abs map_of_host_items)
qed

section \<open>What a linked module needs\<close>

lemma instantiate_pre_resolved:
  fixes R :: "('s, 'h, 'ty, 'hf, 'inst, 'e) runtime"
  assumes "instantiate_pre R mo store l = Ok ds" "(m, n, ty) \<in> set (module_imports mo)"
  shows "link_get m n l \<noteq> None"
proof -
  from assms(1) obtain ds' where "collect_ok (map (get_by_import l) (module_imports mo)) = (Ok ds' :: (_, ('e, 'ty) link_error) outcome)"
    by (auto simp: instantiate_pre_def outcome_iffs)
  then have "map (get_by_import l) (module_imports mo) = (map Ok ds' :: (_, ('e, 'ty) link_error) outcome list)"
    by (simp add: collect_ok_Ok_iff)
  then have "(get_by_import l (m, n, ty) :: (_, ('e, 'ty) link_error) outcome) \<in> Ok ` set ds'"
    using assms(2) by (metis image_eqI list.set_map)
  then show ?thesis by (auto simp: get_by_import_def split: option.splits)
qed

lemma command_exports_pre:
  assumes "command_exports R name mo es (l, s) = (Ok (), l', s')" "\<exists>e \<in> set es. is_func (snd e)"
  shows "\<exists>ds. instantiate_pre R mo None l = Ok ds"
  using assms
proof (induction es)
  case (Cons e es)
  obtain n ty where e: "e = (n, ty)" by (cases e)
  show ?case
  proof (cases "is_func ty")
    case True
    with Cons.prems(1) e show ?thesis by (cases "instantiate_pre R mo None l") auto
  next
    case False
    with Cons e show ?thesis by (auto split: if_splits)
  qed
qed simp

lemma categorize_Command:
  "categorize mo = Ok Command \<Longrightarrow> \<exists>e \<in> set (module_exports mo). is_func (snd e)"
  by (force simp: categorize_def split: option.splits if_splits dest: map_of_SomeD)

lemma linker_module_resolved:
  fixes R :: "('s, 'h, 'ty, 'hf, 'inst, 'e) runtime"
  assumes run: "linker_module R name mo (l, s) = (Ok (), l', s')" and i: "(m, n, ty) \<in> set (module_imports mo)"
  shows "link_get m n l \<noteq> None"
proof -
  have eng: "same_engine R s" using run by (simp add: linker_module_def split: if_splits)
  let ?c = "categorize mo :: (module_kind, ('e, 'ty) link_error) outcome"
  consider (command) "?c = Ok Command" | (reactor) "?c = Ok Reactor"
    using run by (cases ?c) (auto simp: linker_module_def intro: module_kind.exhaust split: if_splits)
  then have "\<exists>store ds. instantiate_pre R mo store l = Ok ds"
  proof cases
    case command
    with run eng have "command_exports R name mo (module_exports mo) (l, s) = (Ok (), l', s')"
      by (simp add: linker_module_def)
    from command_exports_pre [OF this categorize_Command [OF command]] show ?thesis by blast
  next
    case reactor
    with run eng show ?thesis
      by (cases "instantiate_pre R mo (Some s) l") (auto simp: linker_module_def linker_instantiate_def)
  qed
  with i instantiate_pre_resolved show ?thesis by blast
qed

section \<open>Properties\<close>

text \<open>
  Claim C25. The launcher's linker provides exactly the host functions of the three WITX
  interfaces. Registering them never fails - no name is given twice - and afterwards a lookup
  of module and function finds the closure made for this function, and nothing else.
\<close>

theorem host_functions_linked:
  fixes mk :: "string \<Rightarrow> string \<Rightarrow> 'hf"
  shows "\<exists>l :: ('h, 'ty, 'hf) linker. host_linker mk linker_new = (Ok () :: (unit, ('e, 'ty) link_error) outcome, l) \<and>
    (\<forall>m n. link_get m n l =
       (if m = ''wasi_snapshot_preview1'' \<and> n \<in> set wasi_snapshot_preview1_funcs \<or>
           m = ''wasi_unstable'' \<and> n \<in> set wasi_unstable_funcs \<or>
           m = ''wasi_ephemeral_nn'' \<and> n \<in> set wasi_ephemeral_nn_funcs
        then Some (DefHostFunc (mk m n)) else None))"
proof -
  have eq: "(m, n) \<in> set host_imports \<longleftrightarrow>
      m = ''wasi_snapshot_preview1'' \<and> n \<in> set wasi_snapshot_preview1_funcs \<or>
      m = ''wasi_unstable'' \<and> n \<in> set wasi_unstable_funcs \<or> m = ''wasi_ephemeral_nn'' \<and> n \<in> set wasi_ephemeral_nn_funcs" for m n
    by (auto simp: host_imports_def)
  from host_linker_new [where 'e = 'e and 'h = 'h and 'ty = 'ty, of mk] show ?thesis unfolding eq by blast
qed

text \<open>
  Claim C26. The state the module runs in. If both directories can be opened, the context is
  made: descriptors 0, 1 and 2 are the process's standard streams with read or write access
  only, 3 is the directory of models, 4 the directory of images, and nothing else is open;
  there are no arguments and no environment; wasi-nn has the ONNX backend and no named graphs.
  If a directory cannot be opened the launcher panics.
\<close>

theorem launch_context:
  fixes H :: "('w, 's, 'h, 'ty, 'f, 'd, 'bld, 'se, 'v, 'e) launch_host"
  shows "launch_ctx_new H shared_dirs w =
    (case open_ambient_dir H ''assets/models'' w of
       (Ok d1, w1) \<Rightarrow>
         (case open_ambient_dir H ''assets/imgs'' w1 of
            (Ok d2, w2) \<Rightarrow>
              (Ok \<lparr>ctx_wasi =
                     \<lparr>args = string_array_new, env = string_array_new, clocks = io_clocks (inherited_stdio H),
                      table =
                        \<lparr>fd_map =
                          [(0, Arc False (FileEntry (file_entry_new (io_stdin (inherited_stdio H)) MODE_READ))),
                           (1, Arc False (FileEntry (file_entry_new (io_stdout (inherited_stdio H)) MODE_WRITE))),
                           (2, Arc False (FileEntry (file_entry_new (io_stderr (inherited_stdio H)) MODE_WRITE))),
                           (3, Arc False (DirEntry (dir_entry_new (Some (str_bytes ''assets/models'')) d1))),
                           (4, Arc False (DirEntry (dir_entry_new (Some (str_bytes ''assets/imgs'')) d2)))],
                         next_fd = 5\<rparr>,
                      ctx_cloned = False\<rparr>,
                   ctx_wasi_nn =
                     \<lparr>backends = [Onnx \<mapsto> ()], registry = Map.empty,
                      graphs = table_default, executions = table_default\<rparr>\<rparr>, w2)
          | (_, w2) \<Rightarrow> (Panic, w2))
     | (_, w1) \<Rightarrow> (Panic, w1))"
proof -
  note defs = launch_ctx_new_def shared_dirs_def inherit_stdio_def builder_new_def wasi_ctx_new_def wasi_table_new_def
    set_stdin_def set_stdout_def set_stderr_def insert_file_def insert_at_def preopened_dir_def push_preopened_dir_def
    push_def contains_key_def build_def ctx_new_def onnx_backend_def u32_MAX_def
  show ?thesis
    by (simp add: defs Let_def split: prod.splits outcome.splits)
qed

text \<open>
  Claim C24. A run of the launcher that returns normally. The module was loaded in the context
  above, each of its imports is one of the host functions, it was linked under the name
  \<open>test\<close>, and the function found under \<open>main\<close> was called exactly once, in the state the
  launcher ends with. Whether that call succeeded or trapped is not reported.
\<close>

theorem launcher_success:
  fixes R :: "('s, 'h, 'ty, 'hf, 'inst, 'e) runtime"
  assumes run: "launcher_main R H mk argv w = (Ok (), st)"
  shows "\<exists>c w1 mo s1 l l' s2 f s3 r s4.
    launch_ctx_new H shared_dirs w = (Ok c, w1) \<and>
    load_module H (argv ! 1) (store_new H c w1) = (Ok mo, s1) \<and>
    (\<forall>(m, n, ty) \<in> set (module_imports mo). (m, n) \<in> set host_imports) \<and>
    host_linker mk linker_new = (Ok () :: (unit, ('e, 'ty) link_error) outcome, l) \<and>
    linker_module R ''test'' mo (l, s1) = (Ok (), l', s2) \<and>
    linker_get R ''test'' ''main'' l' s2 = (Some (ExFunc f), s3) \<and> typed_unit H s3 f \<and>
    call_unit R f s3 = (r, s4) \<and> r \<noteq> Panic \<and> st = Inr s4"
proof -
  obtain l :: "('h, 'ty, 'hf) linker" where hl: "host_linker mk linker_new = (Ok () :: (unit, ('e, 'ty) link_error) outcome, l)"
    and get: "\<And>m n. link_get m n l = (if (m, n) \<in> set host_imports then Some (DefHostFunc (mk m n)) else None)"
    using host_linker_new [where 'e = 'e and 'h = 'h and 'ty = 'ty, of mk] by blast
  from run obtain c w1 where c: "launch_ctx_new H shared_dirs w = (Ok c, w1)"
    by (auto simp: launcher_main_def hl split: if_splits outcome.splits prod.splits)
  from run obtain mo s1 where m: "load_module H (argv ! 1) (store_new H c w1) = (Ok mo, s1)"
    by (auto simp: launcher_main_def hl c split: if_splits outcome.splits prod.splits)
  from run obtain s4 where rm: "run_main R H mo l s1 = (Ok (), s4)" and st: "st = Inr s4"
    by (auto simp: launcher_main_def hl c m [simplified] split: if_splits outcome.splits prod.splits)
  from rm obtain l' s2 where lm: "linker_module R ''test'' mo (l, s1) = (Ok (), l', s2)"
    by (auto simp: run_main_def split: outcome.splits prod.splits)
  from rm lm obtain f s3 r where "linker_get R ''test'' ''main'' l' s2 = (Some (ExFunc f), s3)" "typed_unit H s3 f"
    "call_unit R f s3 = (r, s4)" "r \<noteq> Panic"
    by (auto simp: run_main_def split: outcome.splits prod.splits option.splits extern.splits if_splits)
  moreover have "\<forall>(a, b, ty) \<in> set (module_imports mo). (a, b) \<in> set host_imports"
  proof (clarify, rule ccontr)
    fix a b ty assume "(a, b, ty) \<in> set (module_imports mo)" "(a, b) \<notin> set host_imports"
    with linker_module_resolved [OF lm, of a b ty] get show False by simp
  qed
  ultimately show ?thesis using c m hl lm st by blast
qed

definition demo_launch :: "(nat, nat, nat, nat, nat, string, unit, nat, unit, unit) launch_host" where
  "demo_launch =
     \<lparr>inherited_stdio =
        \<lparr>io_clocks = clocks_new, io_empty = 0, io_sink = 0, io_stdin = 10, io_stdout = 11, io_stderr = 12\<rparr>,
      ort_api =
        \<lparr>session_builder = Ok (), with_optimization_level3 = Ok, commit_from_memory = (\<lambda>_ _. Ok 0), session_inputs = (\<lambda>_. 1),
         session_outputs = (\<lambda>_. 1), ort_inputs = (\<lambda>_ _. Ok [()]), session_run = (\<lambda>_ _. Ok [()]),
         try_extract_raw_tensor = (\<lambda>_. Ok ([], []))\<rparr>,
      model_file = (\<lambda>_. Ok []), engine_new = Ok (), open_ambient_dir = (\<lambda>path w. (Ok path, w)),
      store_new = (\<lambda>c w. 0), deserialize_file = (\<lambda>_ s. (Err (), s)),
      from_file = (\<lambda>_ s. (Ok \<lparr>module_imports = [(''wasi_ephemeral_nn'', ''compute'', EtFunc 0)],
                              module_exports = [(''main'', EtFunc 0), (''memory'', EtMemory 0)]\<rparr>, s)),
      serialize = (\<lambda>_. Ok []), fs_write = (\<lambda>_ _ s. (Ok (), s)), typed_unit = (\<lambda>_ _. True)\<rparr>"

lemma demo_launch_runs:
  "\<exists>st. launcher_main demo_runtime demo_launch (\<lambda>m n. 5) [''launcher'', ''guest.wasm''] 0 = (Ok (), st)"
proof -
  let ?R = demo_runtime and ?mk = "\<lambda>m n. 5 :: nat"
  obtain l :: "(nat, nat, nat) linker" where l: "host_linker ?mk linker_new = (Ok () :: (unit, (unit, nat) link_error) outcome, l)"
    "linker_ok l" "length (strings l) \<le> 200" "\<forall>m. m \<notin> fst ` set host_imports \<longrightarrow> (\<forall>n. link_abs l (m, n) = None)"
    "\<forall>m n. link_get m n l = (if (m, n) \<in> set host_imports then Some (DefHostFunc 5) else None)"
    using host_linker_new [where 'e = unit and 'h = nat and 'ty = nat, of ?mk] by blast
  have "''test'' \<notin> fst ` set host_imports" by (auto simp: host_imports_def)
  with l(4) have fresh: "\<forall>n. link_abs l (''test'', Some n) = None" by blast
  have dist: "distinct (map fst (instance_exports ?R s i))" for s i by (simp add: demo_runtime_def)
  have "length (strings (snd (export_keys ''test'' (instance_exports ?R 0 1) l))) \<le> usize_max"
    using export_keys_length [of "''test''" "instance_exports ?R 0 1" l] l(3) by (simp add: demo_runtime_def usize_max_def)
  from linker_instance_fresh [OF l(2) dist fresh this] obtain l' where li: "linker_instance ?R 0 ''test'' 1 l = (Ok (), l')"
    and len: "length (strings l') \<le> usize_max" by blast
  have g: "link_get ''test'' ''main'' l' = Some (link_def_new ?R 0 (ExFunc 8))"
    by (rule linker_instance_Ok [OF li l(2) len dist]) (simp add: demo_runtime_def)
  have cg: "link_get ''wasi_ephemeral_nn'' ''compute'' l = Some (DefHostFunc 5)"
    using l(5) by (simp add: host_imports_def wasi_ephemeral_nn_funcs_def image_iff)
  obtain c w1 where c: "launch_ctx_new demo_launch shared_dirs 0 = (Ok c, w1)"
    by (simp add: launch_context demo_launch_def)
  let ?mo = "\<lparr>module_imports = [(''wasi_ephemeral_nn'', ''compute'', EtFunc 0)],
    module_exports = [(''main'', EtFunc 0), (''memory'', EtMemory 0)]\<rparr>"
  have m: "load_module demo_launch ''guest.wasm'' (store_new demo_launch c w1) = (Ok ?mo, 0)"
    by (simp add: load_module_def demo_launch_def)
  have "linker_module ?R ''test'' ?mo (l, 0) = (Ok (), l', 0)"
    using li by (simp add: linker_module_def categorize_def linker_instantiate_def instantiate_pre_def get_by_import_def cg)
      (simp add: demo_runtime_def)
  then have "run_main ?R demo_launch ?mo l 0 = (Ok (), 1)"
    using g by (simp add: run_main_def linker_get_def link_def_new_def to_extern_def) (simp add: demo_runtime_def demo_launch_def)
  with c l(1) m show ?thesis by (simp add: launcher_main_def) (simp add: demo_launch_def)
qed

theorem launcher_success_witness:
  "\<exists>c w1 mo s1. launch_ctx_new demo_launch shared_dirs 0 = (Ok c, w1) \<and>
    load_module demo_launch ''guest.wasm'' (store_new demo_launch c w1) = (Ok mo, s1) \<and>
    (\<forall>(m, n, ty) \<in> set (module_imports mo). (m, n) \<in> set host_imports)"
proof -
  obtain st where "launcher_main demo_runtime demo_launch (\<lambda>m n. 5) [''launcher'', ''guest.wasm''] 0 = (Ok (), st)"
    using demo_launch_runs by blast
  from launcher_success [OF this] show ?thesis by auto
qed

end
