(* ===== verification/Scripts.thy ===== *)
theory Scripts
  imports Prelude
begin

text \<open>
  The two programs that build and run the benchmark, \<^verbatim>\<open>scripts/build.c\<close> and \<^verbatim>\<open>scripts/benchmark.c\<close>. The
  operating system is an argument acting on a world; the state also has the lines printed so
  far. \<^verbatim>\<open>exit(EXIT_FAILURE)\<close> is \<open>Err ()\<close>, undefined behaviour is \<open>Panic\<close>. A call of \<^verbatim>\<open>system\<close> returns the
  status of the command.
\<close>

record 'w os =
  os_chdir :: "string \<Rightarrow> 'w \<Rightarrow> int \<times> 'w"
  os_getcwd :: "'w \<Rightarrow> string option"
  os_system :: "string \<Rightarrow> 'w \<Rightarrow> int \<times> 'w"
  os_remove :: "string \<Rightarrow> 'w \<Rightarrow> int \<times> 'w"

type_synonym 'w script_state = "'w \<times> string list"
type_synonym 'w script = "'w script_state \<Rightarrow> (unit, unit) outcome \<times> 'w script_state"

definition INT_MAX :: int where "INT_MAX = 2 ^ 31 - 1"
definition INT_MIN :: int where "INT_MIN = - (2 ^ 31)"
definition PATH_MAX :: nat where "PATH_MAX = 4096"

definition then_run :: "'w script \<Rightarrow> 'w script \<Rightarrow> 'w script" where
  "then_run p q st = (case p st of (Ok _, st1) \<Rightarrow> q st1 | (r, st1) \<Rightarrow> (r, st1))"

section \<open>Common functions\<close>

text \<open>The result of \<^verbatim>\<open>chdir\<close> is not looked at. If \<^verbatim>\<open>getcwd\<close> fails an uninitialised buffer is printed.\<close>

definition change_dir :: "'w os \<Rightarrow> string \<Rightarrow> 'w script" where
  "change_dir S dir_path st =
     (case st of (w, out) \<Rightarrow>
        let (_, w1) = os_chdir S dir_path w
        in case os_getcwd S w1 of
             Some current_path \<Rightarrow> (Ok (), w1, out @ [''Path changed, currently at: '' @ current_path])
           | None \<Rightarrow> (Panic, w1, out))"

definition run_command :: "'w os \<Rightarrow> string \<Rightarrow> string \<Rightarrow> string \<Rightarrow> 'w script" where
  "run_command S command output_message error_message st =
     (case st of (w, out) \<Rightarrow>
        let (status, w1) = os_system S command w
        in if status = 0 then (Ok (), w1, out @ [output_message])
           else (Err (), w1, out @ [error_message]))"

section \<open>Running the benchmark\<close>

text \<open>\<^verbatim>\<open>atoi\<close>: white space, a sign, digits; a value outside \<^verbatim>\<open>int\<close> is undefined.\<close>

definition is_space :: "char \<Rightarrow> bool" where
  "is_space c = (let n = of_char c :: nat in n = 32 \<or> 9 \<le> n \<and> n \<le> 13)"

definition is_digit :: "char \<Rightarrow> bool" where
  "is_digit c = (let n = of_char c :: nat in 48 \<le> n \<and> n \<le> 57)"

definition digits_value :: "string \<Rightarrow> int" where
  "digits_value ds = foldl (\<lambda>v c. 10 * v + (int (of_char c) - 48)) 0 ds"

definition atoi :: "string \<Rightarrow> int option" where
  "atoi s =
     (let t = dropWhile is_space s;
          neg = (t \<noteq> [] \<and> hd t = CHR ''-'');
          t = (if t \<noteq> [] \<and> (hd t = CHR ''-'' \<or> hd t = CHR ''+'') then tl t else t);
          v = digits_value (takeWhile is_digit t);
          v = (if neg then - v else v)
      in if INT_MIN \<le> v \<and> v \<le> INT_MAX then Some v else None)"

definition usage_message :: string where
  "usage_message = ''Error parsing, usage: ./benchmark <number_iterations> <command_to_run>''"

definition parse_args :: "string list \<Rightarrow> 'w script_state \<Rightarrow> (int \<times> string, unit) outcome \<times> 'w script_state" where
  "parse_args argv st =
     (if length argv < 3 then (Err (), fst st, snd st @ [usage_message])
      else case atoi (argv ! 1) of
        Some n \<Rightarrow> (Ok (n, argv ! 2), st)
      | None \<Rightarrow> (Panic, st))"

text \<open>The loop \<^verbatim>\<open>for (int i = 1; i <= number_iterations; i++)\<close>: incrementing the largest \<^verbatim>\<open>int\<close> is undefined.\<close>

function run_loop :: "'w os \<Rightarrow> string \<Rightarrow> int \<Rightarrow> int \<Rightarrow> 'w script" where
  "run_loop S command n i st =
     (if i \<le> n then
        then_run (run_command S command ''Command Run Successfully'' ''Error occurred while running command'')
          (\<lambda>st. if i = INT_MAX then (Panic, st) else run_loop S command n (i + 1) st) st
      else (Ok (), st))"
  by pat_completeness auto
termination
  by (relation "measure (\<lambda>(S, command, n, i, st). nat (n + 1 - i))") auto

definition benchmark_main :: "'w os \<Rightarrow> string list \<Rightarrow> 'w script" where
  "benchmark_main S argv st =
     (case parse_args argv st of
        (Ok (number_iterations, command_to_run), st1) \<Rightarrow>
          then_run (change_dir S ''./binaries'') (run_loop S command_to_run number_iterations 1) st1
      | (Err e, st1) \<Rightarrow> (Err e, st1)
      | (Panic, st1) \<Rightarrow> (Panic, st1))"

section \<open>Building\<close>

definition remove_old_binaries :: "'w os \<Rightarrow> string list \<Rightarrow> 'w script" where
  "remove_old_binaries S binaries =
     try_each (\<lambda>b (w, out).
       let (status, w1) = os_remove S b w
       in (Ok (), w1, if status = 0 then out @ [''Removed: '' @ b] else out)) binaries"

text \<open>\<^verbatim>\<open>snprintf\<close> cuts the command to the size of the buffer.\<close>

definition move_file :: "'w os \<Rightarrow> string \<Rightarrow> string \<Rightarrow> string \<Rightarrow> string \<Rightarrow> 'w script" where
  "move_file S source_path destination_path output_message error_message =
     run_command S (take (PATH_MAX * 2 + 10 - 1) (''mv '' @ source_path @ '' '' @ destination_path)) output_message error_message"

definition binary_files :: "string list" where
  "binary_files =
     [''./binaries/wasmtime-test'', ''./binaries/wasi-nn-module.wasm'', ''./binaries/wasi-nn-module.wasm.SERIALIZED'']"

definition build_main :: "'w os \<Rightarrow> 'w script" where
  "build_main S =
     then_run (remove_old_binaries S binary_files)
     (then_run (change_dir S ''../wasm-module'')
     (then_run (run_command S ''cargo build --release --target=wasm32-wasip1''
        ''Wasm Module Compiled Successfully'' ''Some error occurred while compiling wasm module'')
     (then_run (move_file S ''./target/wasm32-wasip1/release/wasi-nn-module.wasm'' ''../scripts/binaries/wasi-nn-module.wasm''
        ''Moved Compiled Module Successfully'' ''Error while moving compiled module'')
     (then_run (change_dir S ''../wasmtime-custom'')
     (then_run (run_command S ''cargo build --release''
        ''Wasmtime custom Wrapper Compiled Successfully'' ''Some error occurred while compiling binary'')
     (move_file S ''./target/release/wasmtime-test'' ''../scripts/binaries/wasmtime-test''
        ''Moved Compiled Binary Successfully'' ''Error while moving compiled binary''))))))"

section \<open>Runs of a command\<close>

text \<open>The reference: run a command up to a number of times, stopping at the first failure.\<close>

fun runs :: "'w os \<Rightarrow> string \<Rightarrow> nat \<Rightarrow> 'w \<Rightarrow> nat \<times> bool \<times> 'w" where
  "runs S c 0 w = (0, True, w)"
| "runs S c (Suc k) w =
     (case os_system S c w of (status, w1) \<Rightarrow>
        if status = 0 then (case runs S c k w1 of (done, ok, w2) \<Rightarrow> (Suc done, ok, w2))
        else (0, False, w1))"

declare run_loop.simps [simp del]

lemma runs_less: "runs S c k w = (done, ok, w') \<Longrightarrow> done \<le> k \<and> (ok \<longleftrightarrow> done = k)"
  by (induction S c k w arbitrary: "done" rule: runs.induct) (auto split: prod.splits if_splits)

lemma run_loop_runs:
  assumes "n < INT_MAX" "i \<le> n + 1"
  shows "run_loop S c n i (w, out) =
    (case runs S c (nat (n + 1 - i)) w of (done, ok, w') \<Rightarrow>
       (if ok then Ok () else Err (),
        w', out @ replicate done ''Command Run Successfully'' @ (if ok then [] else [''Error occurred while running command''])))"
  using assms
proof (induction "nat (n + 1 - i)" arbitrary: i w out)
  case 0
  then show ?case by (simp add: run_loop.simps)
next
  case (Suc k)
  then have i: "i \<le> n" "i < INT_MAX" "nat (n + 1 - (i + 1)) = k" "nat (n + 1 - i) = Suc k" by linarith+
  obtain status w1 where sys: "os_system S c w = (status, w1)" by (metis surj_pair)
  show ?case
  proof (cases "status = 0")
    case True
    have "run_loop S c n (i + 1) (w1, out @ [''Command Run Successfully'']) =
      (case runs S c k w1 of (done, ok, w') \<Rightarrow>
       (if ok then Ok () else Err (), w', (out @ [''Command Run Successfully'']) @ replicate done ''Command Run Successfully'' @
          (if ok then [] else [''Error occurred while running command''])))"
      using Suc.hyps(1) [of "i + 1" w1] i Suc.prems(1) by simp
    then show ?thesis
      using True i sys by (auto simp: run_loop.simps [of S c n i] then_run_def run_command_def split: prod.splits)
  next
    case False
    then show ?thesis using i sys by (simp add: run_loop.simps [of S c n i] then_run_def run_command_def)
  qed
qed

section \<open>Properties\<close>

text \<open>
  Claim C40. The benchmark driver runs the given command as often as asked, in the state reached
  by changing to the binaries' directory, and stops with failure after the first run that
  fails. It prints the directory and one line per run. For a count of zero or less it runs
  nothing and succeeds.
\<close>

theorem benchmark_repeats:
  assumes "argv ! 1 = count" and "argv ! 2 = command" and "3 \<le> length argv"
    and "atoi count = Some n" and "n < INT_MAX"
    and "os_chdir S ''./binaries'' w = (status, w1)" and "os_getcwd S w1 = Some cwd"
  shows "benchmark_main S argv (w, []) =
    (case runs S command (nat n) w1 of (done, ok, w2) \<Rightarrow>
       (if ok then Ok () else Err (),
        w2, (''Path changed, currently at: '' @ cwd) # replicate done ''Command Run Successfully'' @
          (if ok then [] else [''Error occurred while running command'']))) \<and>
    (case runs S command (nat n) w1 of (done, ok, w2) \<Rightarrow> done \<le> nat n \<and> (ok \<longleftrightarrow> done = nat n))"
proof -
  have p: "parse_args argv (w, []) = (Ok (n, command), (w, []))"
    using assms by (simp add: parse_args_def)
  have c: "change_dir S ''./binaries'' (w, []) = (Ok (), w1, [''Path changed, currently at: '' @ cwd])"
    using assms by (simp add: change_dir_def)
  have "run_loop S command n 1 (w1, out) =
    (case runs S command (nat n) w1 of (done, ok, w') \<Rightarrow>
       (if ok then Ok () else Err (),
        w', out @ replicate done ''Command Run Successfully'' @ (if ok then [] else [''Error occurred while running command''])))" for out
  proof (cases "0 \<le> n")
    case True
    with run_loop_runs [of n 1 S command w1 out] assms(5) show ?thesis by simp
  qed (simp add: run_loop.simps)
  then show ?thesis
    using runs_less [of S command "nat n" w1]
    by (auto simp: benchmark_main_def p then_run_def c split: prod.splits)
qed

definition demo_os :: "nat os" where
  "demo_os =
     \<lparr>os_chdir = (\<lambda>p w. (0, w)), os_getcwd = (\<lambda>w. Some ''/bench/binaries''), os_system = (\<lambda>c w. (if w = 2 then 1 else 0, w + 1)),
      os_remove = (\<lambda>p w. (1, w))\<rparr>"

theorem benchmark_repeats_witness:
  "benchmark_main demo_os [''benchmark'', ''5'', ''run''] (0, []) =
     (Err (), 3, [''Path changed, currently at: /bench/binaries'', ''Command Run Successfully'', ''Command Run Successfully'',
                ''Error occurred while running command''])"
proof -
  have "atoi ''5'' = Some 5"
    by (simp add: atoi_def is_space_def is_digit_def digits_value_def INT_MAX_def INT_MIN_def)
  with benchmark_repeats [of "[''benchmark'', ''5'', ''run'']" "''5''" "''run''" 5 demo_os 0 0 0 "''/bench/binaries''"] show ?thesis
    by (simp add: demo_os_def INT_MAX_def eval_nat_numeral)
qed

text \<open>
  A build that succeeds has run exactly the seven steps in their order: remove the
  three old binaries, change to the module, compile it for wasm32-wasip1, move it to the
  binaries, change to the launcher, compile it and move it to the binaries; both compilations
  and both moves returned zero. The commands that move the files are not cut by the buffer.
\<close>

theorem build_steps:
  assumes "build_main S (w, out) = (Ok (), w', out')"
  shows "\<exists>w1 w2 w3 w4 w5 w6 s1 s2. fst (snd (remove_old_binaries S binary_files (w, out))) = w1 \<and>
    os_chdir S ''../wasm-module'' w1 = (s1, w2) \<and>
    os_system S ''cargo build --release --target=wasm32-wasip1'' w2 = (0, w3) \<and>
    os_system S ''mv ./target/wasm32-wasip1/release/wasi-nn-module.wasm ../scripts/binaries/wasi-nn-module.wasm'' w3 = (0, w4) \<and>
    os_chdir S ''../wasmtime-custom'' w4 = (s2, w5) \<and>
    os_system S ''cargo build --release'' w5 = (0, w6) \<and>
    os_system S ''mv ./target/release/wasmtime-test ../scripts/binaries/wasmtime-test'' w6 = (0, w')"
proof -
  have then_OkE: "\<exists>st1. p st = (Ok (), st1) \<and> q st1 = (Ok (), st')" if "then_run p q st = (Ok (), st')"
    for p q :: "'a script" and st st'
    using that by (auto simp: then_run_def split: prod.splits outcome.splits)
  have run_OkE: "os_system S c (fst st) = (0, fst st')" if "run_command S c om em st = (Ok (), st')" for c om em st st'
    using that by (auto simp: run_command_def split: prod.splits if_splits)
  have cd_OkE: "\<exists>s. os_chdir S d (fst st) = (s, fst st')" if "change_dir S d st = (Ok (), st')" for d st st'
    using that by (auto simp: change_dir_def split: prod.splits option.splits)
  have cut: "take (9 + PATH_MAX * 2) c = c" if "length c < 200" for c :: string
    using that by (simp add: PATH_MAX_def)
  from assms show ?thesis
    unfolding build_main_def move_file_def
    by (auto simp: cut dest!: then_OkE run_OkE cd_OkE)
qed

definition demo_build_os :: "nat os" where
  "demo_build_os = demo_os\<lparr>os_system := (\<lambda>c w. (0, w + 1))\<rparr>"

theorem build_steps_witness:
  "\<exists>out' w6. build_main demo_build_os (0, []) = (Ok (), 4, out') \<and>
    os_system demo_build_os ''mv ./target/release/wasmtime-test ../scripts/binaries/wasmtime-test'' w6 = (0, 4)"
proof -
  obtain out' where b: "build_main demo_build_os (0, []) = (Ok (), 4, out')"
    by (simp add: build_main_def then_run_def remove_old_binaries_def binary_files_def change_dir_def run_command_def
        move_file_def demo_os_def demo_build_os_def)
  from build_steps [OF this] b show ?thesis by blast
qed

end
