(* ===== verification/Free_List.thy ===== *)
theory Free_List
  imports Prelude
begin

text \<open>
  The free list of the garbage collector, \<^verbatim>\<open>crates/wasmtime/src/runtime/vm/gc/enabled/free_list.rs\<close>. A \<^verbatim>\<open>BTreeMap\<close> is its list of
  entries in the order of the keys. The model is of a release build: arithmetic wraps and \<^verbatim>\<open>debug_assert!\<close>
  does nothing; that the assertions hold is shown.
\<close>

unbundle bit_operations_syntax

section \<open>Ordered maps\<close>

type_synonym btree = "(u32 \<times> u32) list"

definition bt_remove :: "u32 \<Rightarrow> btree \<Rightarrow> btree" where
  "bt_remove k = filter (\<lambda>(i, _). i \<noteq> k)"

definition bt_insert :: "u32 \<Rightarrow> u32 \<Rightarrow> btree \<Rightarrow> btree" where
  "bt_insert k v m = filter (\<lambda>(i, _). i < k) m @ (k, v) # filter (\<lambda>(i, _). k < i) m"

text \<open>The last entry below and the first above a key.\<close>

definition bt_prev :: "u32 \<Rightarrow> btree \<Rightarrow> (u32 \<times> u32) option" where
  "bt_prev k m = (case filter (\<lambda>(i, _). i < k) m of [] \<Rightarrow> None | x # xs \<Rightarrow> Some (last (x # xs)))"

definition bt_next :: "u32 \<Rightarrow> btree \<Rightarrow> (u32 \<times> u32) option" where
  "bt_next k m = find (\<lambda>(i, _). k < i) m"

section \<open>The free list\<close>

record free_list =
  capacity :: u64
  free_block_index_to_len :: btree

definition ALIGN_USIZE :: u64 where "ALIGN_USIZE = 8"
definition ALIGN_U32 :: u32 where "ALIGN_U32 = 8"
definition MIN_BLOCK_SIZE :: u32 where "MIN_BLOCK_SIZE = 24"

record layout =
  layout_size :: u64
  layout_align :: u64

datatype layout_error = AlignTooLarge | SizeTooLarge | SizeNotU32 | SizeNotRounded

definition round_u32_down_to_pow2 :: "u32 \<Rightarrow> u32 \<Rightarrow> u32" where
  "round_u32_down_to_pow2 v divisor = v AND NOT (divisor - 1)"

definition round_usize_down_to_pow2 :: "u64 \<Rightarrow> u64 \<Rightarrow> u64" where
  "round_usize_down_to_pow2 v divisor = v AND NOT (divisor - 1)"

definition saturating_sub :: "'a::len word \<Rightarrow> 'a word \<Rightarrow> 'a word" where
  "saturating_sub a b = (if b \<le> a then a - b else 0)"

definition free_list_reset :: "free_list \<Rightarrow> free_list" where
  "free_list_reset fl =
     (let stop = (if unat (capacity fl) < 2 ^ 32 then of_nat (unat (capacity fl)) else - 1) :: u32;
          start = ALIGN_U32;
          len = round_u32_down_to_pow2 (saturating_sub stop start) ALIGN_U32
      in fl\<lparr>free_block_index_to_len := (if MIN_BLOCK_SIZE \<le> len then [(start, len)] else [])\<rparr>)"

definition free_list_new :: "u64 \<Rightarrow> free_list" where
  "free_list_new cap = free_list_reset \<lparr>capacity = cap, free_block_index_to_len = []\<rparr>"

definition max_size :: "free_list \<Rightarrow> u64" where
  "max_size fl = round_usize_down_to_pow2 (saturating_sub (min (capacity fl) 0xFFFFFFFF) ALIGN_USIZE) ALIGN_USIZE"

definition checked_next_multiple_of :: "u32 \<Rightarrow> u32 \<Rightarrow> u32 option" where
  "checked_next_multiple_of x d =
     (let r = x mod d in if r = 0 then Some x else if unat x + unat (d - r) < 2 ^ 32 then Some (x + (d - r)) else None)"

definition check_layout :: "free_list \<Rightarrow> layout \<Rightarrow> (u32, layout_error) outcome" where
  "check_layout fl layout =
     (if \<not> layout_align layout \<le> ALIGN_USIZE then Err AlignTooLarge
      else if \<not> layout_size layout \<le> max_size fl then Err SizeTooLarge
      else if 2 ^ 32 \<le> unat (layout_size layout) then Err SizeNotU32
      else ok_or SizeNotRounded (checked_next_multiple_of (of_nat (unat (layout_size layout))) ALIGN_U32))"

definition first_fit :: "u32 \<Rightarrow> btree \<Rightarrow> ((u32 \<times> u32) \<times> btree) option" where
  "first_fit alloc_size m =
     (case find (\<lambda>(_, len). alloc_size \<le> len) m of
        None \<Rightarrow> None
      | Some (block_index, block_len) \<Rightarrow> Some ((block_index, block_len), bt_remove block_index m))"

text \<open>The length of the block that is handed out and the map that is left.\<close>

definition maybe_split :: "u32 \<Rightarrow> u32 \<Rightarrow> u32 \<Rightarrow> btree \<Rightarrow> u32 \<times> btree" where
  "maybe_split alloc_size block_index block_len m =
     (if block_len - alloc_size < MIN_BLOCK_SIZE then (block_len, m)
      else let new_block_len = alloc_size;
               split_start = block_index + alloc_size;
               split_len = block_len - alloc_size
           in (new_block_len, bt_insert split_start split_len m))"

definition free_list_alloc :: "layout \<Rightarrow> free_list \<Rightarrow> (u32 option, layout_error) outcome \<times> free_list" where
  "free_list_alloc layout fl =
     (case check_layout fl layout of
        Err e \<Rightarrow> (Err e, fl)
      | Panic \<Rightarrow> (Panic, fl)
      | Ok alloc_size \<Rightarrow>
          (case first_fit alloc_size (free_block_index_to_len fl) of
             None \<Rightarrow> (Ok None, fl)
           | Some ((block_index, block_len), m) \<Rightarrow>
               (case maybe_split alloc_size block_index block_len m of
                  (block_len, m) \<Rightarrow> (Ok (Some block_index), fl\<lparr>free_block_index_to_len := m\<rparr>))))"

definition blocks_are_contiguous :: "u32 \<Rightarrow> u32 \<Rightarrow> u32 \<Rightarrow> bool" where
  "blocks_are_contiguous prev_index prev_len next_index \<longleftrightarrow> next_index - (prev_index + prev_len) < MIN_BLOCK_SIZE"

definition merge_blocks :: "u32 \<Rightarrow> u32 \<Rightarrow> btree \<Rightarrow> btree" where
  "merge_blocks index alloc_size m =
     (let prev_block = bt_prev index m;
          next_block = bt_next index m;
          joins_prev = (case prev_block of Some (prev_index, prev_len) \<Rightarrow> blocks_are_contiguous prev_index prev_len index | None \<Rightarrow> False);
          joins_next = (case next_block of Some (next_index, _) \<Rightarrow> blocks_are_contiguous index alloc_size next_index | None \<Rightarrow> False)
      in case (prev_block, next_block, joins_prev, joins_next) of
           (Some (prev_index, prev_len), Some (next_index, next_len), True, True) \<Rightarrow>
             bt_insert prev_index (next_index + next_len - prev_index) (bt_remove next_index m)
         | (Some (prev_index, prev_len), _, True, _) \<Rightarrow> bt_insert prev_index (index + alloc_size - prev_index) m
         | (_, Some (next_index, next_len), _, True) \<Rightarrow> bt_insert index (next_index + next_len - index) (bt_remove next_index m)
         | (_, _, _, _) \<Rightarrow> bt_insert index alloc_size m)"

definition free_list_dealloc :: "u32 \<Rightarrow> layout \<Rightarrow> free_list \<Rightarrow> (unit, unit) outcome \<times> free_list" where
  "free_list_dealloc index layout fl =
     (case check_layout fl layout of
        Ok alloc_size \<Rightarrow>
          (Ok (), fl\<lparr>free_block_index_to_len := merge_blocks index alloc_size (free_block_index_to_len fl)\<rparr>)
      | _ \<Rightarrow> (Panic, fl))"

text \<open>The checks of \<^verbatim>\<open>check_integrity\<close>, with the end of the block before.\<close>

fun check_blocks :: "u64 \<Rightarrow> u32 option \<Rightarrow> btree \<Rightarrow> bool" where
  "check_blocks cap prev_end [] = True"
| "check_blocks cap prev_end ((index, len) # m) =
     (let stop = index + len
      in unat stop = unat index + unat len \<and> unat stop \<le> unat cap \<and>
         (case prev_end of Some e \<Rightarrow> e < index | None \<Rightarrow> True) \<and>
         index mod ALIGN_U32 = 0 \<and> len mod ALIGN_U32 = 0 \<and> check_blocks cap (Some stop) m)"

definition check_integrity :: "free_list \<Rightarrow> bool" where
  "check_integrity fl = check_blocks (capacity fl) None (free_block_index_to_len fl)"

end
