(* ===== verification/Free_List_Blocks.thy ===== *)
theory Free_List_Blocks
  imports Free_List
begin

text \<open>
  The blocks of the free list: what a well-formed list of free blocks is, when objects in use and free
  blocks are apart, and that splitting a block and merging a freed block with its neighbours keep this.
\<close>

unbundle bit_operations_syntax

section \<open>Ordered maps\<close>

definition bt_sorted :: "btree \<Rightarrow> bool" where
  "bt_sorted m \<longleftrightarrow> sorted_wrt (<) (map fst m)"

lemma set_bt_remove: "set (bt_remove k m) = {b \<in> set m. fst b \<noteq> k}"
  by (auto simp: bt_remove_def)

lemma set_bt_insert: "set (bt_insert k v m) = insert (k, v) {b \<in> set m. fst b \<noteq> k}"
  by (auto simp: bt_insert_def neq_iff)

lemma set_bt_insert_new: "(\<And>j k. (j, k) \<in> set m \<Longrightarrow> j \<noteq> b) \<Longrightarrow> set (bt_insert b n m) = insert (b, n) (set m)"
  unfolding set_bt_insert by force

lemma bt_sorted_remove: "bt_sorted m \<Longrightarrow> bt_sorted (bt_remove k m)"
  by (simp add: bt_sorted_def bt_remove_def sorted_wrt_map sorted_wrt_filter)

lemma bt_sorted_insert: "bt_sorted m \<Longrightarrow> bt_sorted (bt_insert k v m)"
  by (auto simp: bt_sorted_def bt_insert_def sorted_wrt_map sorted_wrt_append sorted_wrt_filter)

lemma bt_sorted_inj: "bt_sorted m \<Longrightarrow> (i, l) \<in> set m \<Longrightarrow> (i, l') \<in> set m \<Longrightarrow> l = l'"
  unfolding bt_sorted_def by (metis strict_sorted_iff eq_key_imp_eq_value)

lemma set_bt_remove_block: "bt_sorted m \<Longrightarrow> (i, l) \<in> set m \<Longrightarrow> set (bt_remove i m) = set m - {(i, l)}"
  unfolding set_bt_remove by (auto dest: bt_sorted_inj)

lemma bt_prev_Some:
  assumes "bt_sorted m" "bt_prev k m = Some (i, l)"
  shows "(i, l) \<in> set m" "i < k" "\<And>j n. (j, n) \<in> set m \<Longrightarrow> j < k \<Longrightarrow> j \<le> i"
proof -
  let ?f = "filter (\<lambda>(i, _). i < k) m"
  from assms(2) have ne: "?f \<noteq> []" and l: "last ?f = (i, l)" by (auto simp: bt_prev_def split: list.splits)
  from last_in_set [OF ne] l show "(i, l) \<in> set m" "i < k" by auto
  have s: "sorted_wrt (\<lambda>x y. fst x < fst y) ?f" using assms(1) by (simp add: bt_sorted_def sorted_wrt_map sorted_wrt_filter)
  fix j n assume "(j, n) \<in> set m" "j < k"
  then have "(j, n) \<in> set (butlast ?f @ [last ?f])" using ne by simp
  moreover have "sorted_wrt (\<lambda>x y. fst x < fst y) (butlast ?f @ [last ?f])" using s ne by simp
  ultimately show "j \<le> i" using l by (auto simp: sorted_wrt_append)
qed

lemma bt_prev_None: "bt_prev k m = None \<Longrightarrow> (j, n) \<in> set m \<Longrightarrow> \<not> j < k"
  by (auto simp: bt_prev_def filter_empty_conv split: list.splits)

lemma bt_next_Some:
  assumes "bt_sorted m" "bt_next k m = Some (i, l)"
  shows "(i, l) \<in> set m" "k < i" "\<And>j n. (j, n) \<in> set m \<Longrightarrow> k < j \<Longrightarrow> i \<le> j"
proof -
  from assms(2) obtain x where x: "x < length m" "k < fst (m ! x)" "m ! x = (i, l)" "\<And>y. y < x \<Longrightarrow> \<not> k < fst (m ! y)"
    unfolding bt_next_def find_Some_iff case_prod_unfold by (metis fst_conv)
  then show "(i, l) \<in> set m" "k < i" by (auto dest: nth_mem)
  fix j n assume j: "(j, n) \<in> set m" "k < j"
  then obtain y where y: "y < length m" "m ! y = (j, n)" by (auto simp: in_set_conv_nth)
  with x(4) j have "x \<le> y" by (metis fst_conv not_le)
  moreover have "x < y \<Longrightarrow> fst (m ! x) < fst (m ! y)"
    using assms(1) x(1) y(1) unfolding bt_sorted_def sorted_wrt_map by (simp add: sorted_wrt_iff_nth_less)
  ultimately show "i \<le> j" using x(3) y(2) by (cases "x = y") auto
qed

lemma bt_next_None: "bt_next k m = None \<Longrightarrow> (j, n) \<in> set m \<Longrightarrow> \<not> k < j"
  by (auto simp: bt_next_def find_None_iff)

section \<open>Sizes\<close>

text \<open>The number of bytes an object of a layout takes.\<close>

definition rounded :: "layout \<Rightarrow> nat" where
  "rounded layout = (unat (layout_size layout) + 7) div 8 * 8"

lemma round_up_8: "(k + 7) div 8 * 8 = (if k mod 8 = 0 then k else k + (8 - k mod 8))" for k :: nat
  by presburger

lemma checked_next_multiple:
  assumes "checked_next_multiple_of x 8 = Some y"
  shows "unat y = (unat x + 7) div 8 * 8"
proof -
  have m: "unat (x mod 8) = unat x mod 8" by (simp add: unat_mod)
  then have z: "x mod 8 = 0 \<longleftrightarrow> unat x mod 8 = 0" by (metis unat_eq_0)
  have "unat (x mod 8) \<le> unat (8 :: u32)" unfolding m by simp
  then have "x mod 8 \<le> 8" by (simp only: word_le_nat_alt)
  from unat_sub [OF this] have "unat (8 - x mod 8) = 8 - unat x mod 8" unfolding m by simp
  then have "unat (x + (8 - x mod 8)) = unat x + (8 - unat x mod 8)" if "unat x + unat (8 - x mod 8) < 2 ^ 32"
    using that by (simp add: unat_plus_if')
  with assms z show ?thesis
    unfolding round_up_8 checked_next_multiple_of_def Let_def by (metis option.distinct(1) option.inject)
qed

lemma check_layout_Ok:
  assumes "check_layout fl layout = Ok r"
  shows "unat r = rounded layout" "unat (layout_size layout) \<le> rounded layout" "8 dvd rounded layout"
    "16 < unat (layout_size layout) \<Longrightarrow> 24 \<le> rounded layout"
proof -
  from assms have "unat (layout_size layout) < 2 ^ 32"
    and c: "checked_next_multiple_of (of_nat (unat (layout_size layout))) 8 = Some r"
    by (auto simp: check_layout_def ALIGN_U32_def ok_or_Ok_iff split: if_splits)
  then show "unat r = rounded layout"
    using checked_next_multiple [OF c] unat_of_nat_u32 [of "unat (layout_size layout)"] by (simp only: rounded_def)
  show "unat (layout_size layout) \<le> rounded layout" "8 dvd rounded layout"
    "16 < unat (layout_size layout) \<Longrightarrow> 24 \<le> rounded layout"
    unfolding rounded_def by presburger+
qed

section \<open>Blocks\<close>

definition apart :: "nat \<Rightarrow> nat \<Rightarrow> nat \<Rightarrow> nat \<Rightarrow> bool" where
  "apart i r j s \<longleftrightarrow> i + r \<le> j \<or> j + s \<le> i"

lemma apart_commute: "apart i r j s \<longleftrightarrow> apart j s i r"
  by (auto simp: apart_def)

definition block_in :: "nat \<Rightarrow> nat \<Rightarrow> nat \<Rightarrow> bool" where
  "block_in e i r \<longleftrightarrow> 8 \<le> i \<and> 8 dvd i \<and> 8 dvd r \<and> 24 \<le> r \<and> i + r \<le> e"

text \<open>Free blocks are in order and at least the size of the smallest block apart.\<close>

definition blocks_ok :: "nat \<Rightarrow> btree \<Rightarrow> bool" where
  "blocks_ok e m \<longleftrightarrow> e < 2 ^ 32 \<and> bt_sorted m \<and> (\<forall>i l. (i, l) \<in> set m \<longrightarrow> block_in e (unat i) (unat l)) \<and>
     (\<forall>i l j k. (i, l) \<in> set m \<longrightarrow> (j, k) \<in> set m \<longrightarrow> i < j \<longrightarrow> unat i + unat l + 24 \<le> unat j)"

text \<open>Objects in use are apart from each other and from the free blocks.\<close>

definition live_ok :: "nat \<Rightarrow> (u32 \<times> nat) set \<Rightarrow> btree \<Rightarrow> bool" where
  "live_ok e live m \<longleftrightarrow> (\<forall>i r. (i, r) \<in> live \<longrightarrow> block_in e (unat i) r) \<and>
     (\<forall>i r j l. (i, r) \<in> live \<longrightarrow> (j, l) \<in> set m \<longrightarrow> apart (unat i) r (unat j) (unat l)) \<and>
     (\<forall>i r j s. (i, r) \<in> live \<longrightarrow> (j, s) \<in> live \<longrightarrow> (i, r) \<noteq> (j, s) \<longrightarrow> apart (unat i) r (unat j) s)"

lemma blocks_okD:
  assumes "blocks_ok e m"
  shows "e < 2 ^ 32" "bt_sorted m" "(i, l) \<in> set m \<Longrightarrow> block_in e (unat i) (unat l)"
  using assms by (simp_all add: blocks_ok_def)

lemma blocks_gap:
  assumes "blocks_ok e m" "(i, l) \<in> set m" "(j, k) \<in> set m" "i < j"
  shows "unat i + unat l + 24 \<le> unat j"
  using assms unfolding blocks_ok_def by blast

lemma unat_sum:
  fixes i l :: u32
  assumes "unat i + unat l \<le> e" "e < 2 ^ 32"
  shows "unat (i + l) = unat i + unat l"
  using assms by (simp add: unat_plus_if')

text \<open>Replacing some free blocks by one block.\<close>

lemma blocks_replace:
  assumes "blocks_ok e m" and "bt_sorted m'" and set: "set m' = insert (b, n) (set m - gone)"
    and "block_in e (unat b) (unat n)"
    and sep: "\<And>i l. (i, l) \<in> set m - gone \<Longrightarrow> unat i + unat l + 24 \<le> unat b \<or> unat b + unat n + 24 \<le> unat i"
  shows "blocks_ok e m'"
proof -
  have g: "unat i + unat l + 24 \<le> unat j" if il: "(i, l) \<in> set m'" and jk: "(j, k) \<in> set m'" and less: "i < j" for i l j k
  proof -
    from less have lt: "unat i < unat j" by (simp only: word_less_nat_alt)
    consider (1) "(i, l) = (b, n)" "(j, k) = (b, n)" | (2) "(i, l) = (b, n)" "(j, k) \<in> set m - gone"
      | (3) "(i, l) \<in> set m - gone" "(j, k) = (b, n)" | (4) "(i, l) \<in> set m - gone" "(j, k) \<in> set m - gone"
      using il jk unfolding set by blast
    then show ?thesis
    proof cases
      case 1
      with less show ?thesis by simp
    next
      case 2
      with sep [OF 2(2)] lt show ?thesis by auto
    next
      case 3
      with sep [OF 3(1)] lt show ?thesis by auto
    next
      case 4
      with blocks_gap [OF assms(1) _ _ less] show ?thesis by blast
    qed
  qed
  have h: "block_in e (unat i) (unat l)" if "(i, l) \<in> set m'" for i l
    using that assms(4) blocks_okD(3) [OF assms(1), of i l] unfolding set by auto
  show ?thesis unfolding blocks_ok_def
    by (intro conjI allI impI blocks_okD(1) [OF assms(1)] assms(2) g h)
qed

lemma bt_sorted_Cons: "bt_sorted ((i, l) # m) \<Longrightarrow> (j, k) \<in> set m \<Longrightarrow> i < j"
  by (auto simp: bt_sorted_def)

lemma blocks_ok_tl: "blocks_ok e (b # m) \<Longrightarrow> blocks_ok e m"
  unfolding blocks_ok_def bt_sorted_def by simp

lemma mod_8_0: "8 dvd unat i \<Longrightarrow> i mod 8 = 0" for i :: u32
proof -
  assume "8 dvd unat i"
  then have "unat (i mod 8) = 0" by (simp add: unat_mod)
  then show ?thesis by (simp only: unat_eq_0)
qed

lemma check_blocks_ok:
  assumes "blocks_ok e m" "e \<le> unat cap" "case prev of Some x \<Rightarrow> (\<forall>(i, l) \<in> set m. x < i) | None \<Rightarrow> True"
  shows "check_blocks cap prev m"
  using assms
proof (induction m arbitrary: prev)
  case (Cons b m)
  obtain i l where b: "b = (i, l)" by (cases b)
  have in_e: "block_in e (unat i) (unat l)" and e: "e < 2 ^ 32" using blocks_okD [OF Cons.prems(1)] b by simp_all
  then have u: "unat (i + l) = unat i + unat l" using unat_sum [of i l e] by (simp add: block_in_def)
  have nxt: "\<forall>(j, k) \<in> set m. i + l < j"
  proof clarify
    fix j k assume j: "(j, k) \<in> set m"
    with blocks_okD(2) [OF Cons.prems(1)] b have "i < j" by (auto intro: bt_sorted_Cons)
    with blocks_gap [OF Cons.prems(1), of i l j k] b j have "unat i + unat l + 24 \<le> unat j" by simp
    with u show "i + l < j" by (simp add: word_less_nat_alt)
  qed
  have "check_blocks cap (Some (i + l)) m"
    by (rule Cons.IH [OF blocks_ok_tl [OF Cons.prems(1)] Cons.prems(2)]) (simp add: nxt)
  moreover have "case prev of Some x \<Rightarrow> x < i | None \<Rightarrow> True" using Cons.prems(3) b by (cases prev) simp_all
  moreover have "i mod 8 = 0" "l mod 8 = 0" "unat i + unat l \<le> unat cap"
    using in_e Cons.prems(2) mod_8_0 by (simp_all add: block_in_def)
  ultimately show ?case unfolding b check_blocks.simps Let_def ALIGN_U32_def u by blast
qed simp

section \<open>Allocation\<close>

lemma first_fit_Some:
  assumes "first_fit a m = Some ((i, l), m')"
  shows "(i, l) \<in> set m" "a \<le> l" "m' = bt_remove i m"
  using assms by (auto simp: first_fit_def find_Some_iff split: option.splits) (metis nth_mem)+

lemma maybe_split_set:
  assumes ok: "blocks_ok e m" and b: "(i, l) \<in> set m" "a \<le> l"
  shows "unat (i + a) = unat i + unat a" "unat (l - a) = unat l - unat a" "unat a \<le> unat l"
    "set (snd (maybe_split a i l (bt_remove i m))) = set m - {(i, l)} \<union> (if unat l - unat a < 24 then {} else {(i + a, l - a)})"
proof -
  have in_e: "block_in e (unat i) (unat l)" and e: "e < 2 ^ 32" and s: "bt_sorted m"
    using blocks_okD [OF ok] b by simp_all
  show d: "unat (l - a) = unat l - unat a" using b(2) by (rule unat_diff_u32)
  show la: "unat a \<le> unat l" using b(2) by (simp only: word_le_nat_alt)
  then have "unat i + unat a \<le> e" using in_e by (simp add: block_in_def)
  from unat_sum [OF this e] show u: "unat (i + a) = unat i + unat a" .
  have rem: "set (bt_remove i m) = set m - {(i, l)}" by (rule set_bt_remove_block [OF s b(1)])
  have small: "l - a < MIN_BLOCK_SIZE \<longleftrightarrow> unat l - unat a < 24" by (simp add: MIN_BLOCK_SIZE_def word_less_nat_alt d)
  have new: "j \<noteq> i + a" if j: "(j, k) \<in> set m - {(i, l)}" and big: "24 \<le> unat l - unat a" for j k
  proof (cases "j < i")
    case True
    with blocks_gap [OF ok, of j k i l] j b u show ?thesis by auto
  next
    case False
    moreover have "j \<noteq> i" using j bt_sorted_inj [OF s b(1)] by blast
    ultimately have "i < j" by simp
    with blocks_gap [OF ok, of i l j k] j b la u show ?thesis by auto
  qed
  show "set (snd (maybe_split a i l (bt_remove i m))) = set m - {(i, l)} \<union> (if unat l - unat a < 24 then {} else {(i + a, l - a)})"
  proof (cases "unat l - unat a < 24")
    case True
    then show ?thesis by (simp add: maybe_split_def small rem)
  next
    case False
    then have "set (bt_insert (i + a) (l - a) (bt_remove i m)) = insert (i + a, l - a) (set m - {(i, l)})"
      using new by (subst set_bt_insert_new) (simp_all only: rem not_less, blast)
    with False show ?thesis by (simp add: maybe_split_def small)
  qed
qed

lemma maybe_split_blocks:
  assumes ok: "blocks_ok e m" and b: "(i, l) \<in> set m" "a \<le> l" and a: "24 \<le> unat a" "8 dvd unat a"
  shows "blocks_ok e (snd (maybe_split a i l (bt_remove i m)))"
    and "\<And>j k. (j, k) \<in> set (snd (maybe_split a i l (bt_remove i m))) \<Longrightarrow>
      (j, k) \<in> set m \<and> j \<noteq> i \<or> unat j = unat i + unat a \<and> unat j + unat k = unat i + unat l"
proof -
  note facts = maybe_split_set [OF ok b] and s = blocks_okD(2) [OF ok]
  have in_e: "block_in e (unat i) (unat l)" using blocks_okD(3) [OF ok b(1)] .
  show "blocks_ok e (snd (maybe_split a i l (bt_remove i m)))"
  proof (cases "unat l - unat a < 24")
    case True
    have "blocks_ok e (bt_remove i m)"
      using ok bt_sorted_remove [OF s, of i] unfolding blocks_ok_def set_bt_remove by blast
    with True facts(2) show ?thesis by (simp add: maybe_split_def MIN_BLOCK_SIZE_def word_less_nat_alt)
  next
    case False
    show ?thesis
    proof (rule blocks_replace [OF ok, of _ "i + a" "l - a" "{(i, l)}"])
      show "bt_sorted (snd (maybe_split a i l (bt_remove i m)))"
        unfolding maybe_split_def using bt_sorted_insert bt_sorted_remove s by auto
      show "block_in e (unat (i + a)) (unat (l - a))"
        using in_e a False facts(3) unfolding facts(1,2) block_in_def by (auto intro: dvd_add dvd_diff_nat)
      fix j k assume j: "(j, k) \<in> set m - {(i, l)}"
      then have "j \<noteq> i" using bt_sorted_inj [OF s b(1)] by blast
      then consider "j < i" | "i < j" by (metis linorder_neqE)
      then show "unat j + unat k + 24 \<le> unat (i + a) \<or> unat (i + a) + unat (l - a) + 24 \<le> unat j"
        using blocks_gap [OF ok, of j k i l] blocks_gap [OF ok, of i l j k] j b facts(3) unfolding facts(1,2) by cases auto
    qed (use False facts(4) in auto)
  qed
  show "(j, k) \<in> set m \<and> j \<noteq> i \<or> unat j = unat i + unat a \<and> unat j + unat k = unat i + unat l"
    if "(j, k) \<in> set (snd (maybe_split a i l (bt_remove i m)))" for j k
    using that bt_sorted_inj [OF s b(1)] facts(1-3) unfolding facts(4) by (auto split: if_splits)
qed

section \<open>Merging\<close>

text \<open>The neighbours a freed block is merged with.\<close>

definition join_prev :: "u32 \<Rightarrow> btree \<Rightarrow> (u32 \<times> u32) option" where
  "join_prev index m =
     (case bt_prev index m of Some (p, l) \<Rightarrow> if blocks_are_contiguous p l index then Some (p, l) else None | None \<Rightarrow> None)"

definition join_next :: "u32 \<Rightarrow> u32 \<Rightarrow> btree \<Rightarrow> (u32 \<times> u32) option" where
  "join_next index a m =
     (case bt_next index m of Some (n, l) \<Rightarrow> if blocks_are_contiguous index a n then Some (n, l) else None | None \<Rightarrow> None)"

definition merge_lo :: "u32 \<Rightarrow> btree \<Rightarrow> u32" where
  "merge_lo index m = (case join_prev index m of Some (p, l) \<Rightarrow> p | None \<Rightarrow> index)"

definition merge_hi :: "u32 \<Rightarrow> u32 \<Rightarrow> btree \<Rightarrow> u32" where
  "merge_hi index a m = (case join_next index a m of Some (n, l) \<Rightarrow> n + l | None \<Rightarrow> index + a)"

definition merge_gone :: "u32 \<Rightarrow> u32 \<Rightarrow> btree \<Rightarrow> (u32 \<times> u32) set" where
  "merge_gone index a m = set_option (join_prev index m) \<union> set_option (join_next index a m)"

lemma merge_blocks_set:
  assumes s: "bt_sorted m" and new: "\<And>l. (index, l) \<notin> set m"
  shows "set (merge_blocks index a m) = insert (merge_lo index m, merge_hi index a m - merge_lo index m) (set m - merge_gone index a m)"
    and "bt_sorted (merge_blocks index a m)"
proof -
  have prev: "(p, l) \<in> set m \<and> p < index" if "join_prev index m = Some (p, l)" for p l
    using that bt_prev_Some [OF s, of index p l] by (auto simp: join_prev_def split: option.splits if_splits)
  have nxt: "(n, l) \<in> set m \<and> index < n" if "join_next index a m = Some (n, l)" for n l
    using that bt_next_Some [OF s, of index n l] by (auto simp: join_next_def split: option.splits if_splits)
  have eq: "merge_blocks index a m = bt_insert (merge_lo index m) (merge_hi index a m - merge_lo index m)
      (case join_next index a m of Some (n, l) \<Rightarrow> bt_remove n m | None \<Rightarrow> m)"
    by (auto simp: merge_blocks_def merge_lo_def merge_hi_def join_prev_def join_next_def Let_def split: option.splits)
  have rest: "set (case join_next index a m of Some (n, l) \<Rightarrow> bt_remove n m | None \<Rightarrow> m) = set m - set_option (join_next index a m)"
    using nxt by (auto simp: set_bt_remove_block [OF s] split: option.splits)
  have "{b \<in> set m. fst b \<noteq> merge_lo index m} = set m - set_option (join_prev index m)"
    using prev new s by (auto simp: merge_lo_def dest: bt_sorted_inj split: option.splits)
  then show "set (merge_blocks index a m) = insert (merge_lo index m, merge_hi index a m - merge_lo index m) (set m - merge_gone index a m)"
    unfolding eq set_bt_insert rest merge_gone_def by blast
  show "bt_sorted (merge_blocks index a m)"
    unfolding eq by (intro bt_sorted_insert) (use s in \<open>auto intro: bt_sorted_remove split: option.splits\<close>)
qed

text \<open>An object in use of at least the smallest size does not fit between blocks that are contiguous.\<close>

lemma apart_join:
  assumes "apart x s p l" "apart x s q k" "p + l \<le> q" "q < p + l + 24" "24 \<le> s"
  shows "apart x s p (q + k - p)"
  using assms by (auto simp: apart_def)

lemma apart_union:
  assumes "apart x s p l" "apart x s q k" "p \<le> q" "q < p + l" "p + l \<le> q + k"
  shows "apart x s p (q + k - p)"
  using assms by (auto simp: apart_def)

lemma contiguous_nat:
  assumes "unat p + unat l \<le> unat n" "unat n < 2 ^ 32"
  shows "blocks_are_contiguous p l n \<longleftrightarrow> unat n < unat p + unat l + 24"
proof -
  have u: "unat (p + l) = unat p + unat l" using assms by (intro unat_sum [of _ _ "unat n"])
  then have "p + l \<le> n" using assms(1) by (simp only: word_le_nat_alt)
  from unat_diff_u32 [OF this] u assms(1) show ?thesis
    by (auto simp: blocks_are_contiguous_def MIN_BLOCK_SIZE_def word_less_nat_alt)
qed

text \<open>The free blocks around an object in use.\<close>

lemma around_live:
  assumes ok: "blocks_ok e m" and live: "live_ok e L m" and obj: "(index, r) \<in> L" and b: "(j, k) \<in> set m"
  shows "j \<noteq> index" "j < index \<Longrightarrow> unat j + unat k \<le> unat index" "index < j \<Longrightarrow> unat index + r \<le> unat j"
proof -
  have "apart (unat index) r (unat j) (unat k)" "block_in e (unat index) r" using live obj b by (auto simp: live_ok_def)
  with blocks_okD(3) [OF ok b] have a: "unat index + r \<le> unat j \<or> unat j + unat k \<le> unat index" "0 < r" "0 < unat k"
    by (auto simp: apart_def block_in_def)
  show "j \<noteq> index" using a by auto
  show "unat j + unat k \<le> unat index" if "j < index" using that a by (auto simp: word_less_nat_alt)
  show "unat index + r \<le> unat j" if "index < j" using that a by (auto simp: word_less_nat_alt)
qed

lemma merge_left:
  assumes ok: "blocks_ok e m" and live: "live_ok e L m" and obj: "(index, r) \<in> L"
  shows "8 \<le> unat (merge_lo index m) \<and> 8 dvd unat (merge_lo index m) \<and> unat (merge_lo index m) \<le> unat index"
    and "(j, k) \<in> set m - set_option (join_prev index m) \<Longrightarrow> j < index \<Longrightarrow> unat j + unat k + 24 \<le> unat (merge_lo index m)"
    and "(x, s) \<in> L \<Longrightarrow> (x, s) \<noteq> (index, r) \<Longrightarrow>
      apart (unat x) s (unat (merge_lo index m)) (unat index + r - unat (merge_lo index m))"
proof -
  note s = blocks_okD(2) [OF ok] and around = around_live [OF ok live obj]
  have I: "block_in e (unat index) r" "unat index < 2 ^ 32" using live obj unat_u32_lt [of index] by (auto simp: live_ok_def)
  have other: "apart (unat x) s (unat index) r \<and> 24 \<le> s" if "(x, s) \<in> L" "(x, s) \<noteq> (index, r)" for x s
    using live obj that unfolding live_ok_def block_in_def by blast
  have key: "8 \<le> unat (merge_lo index m) \<and> 8 dvd unat (merge_lo index m) \<and> unat (merge_lo index m) \<le> unat index \<and>
    (\<forall>j k. (j, k) \<in> set m - set_option (join_prev index m) \<longrightarrow> j < index \<longrightarrow> unat j + unat k + 24 \<le> unat (merge_lo index m)) \<and>
    (\<forall>x s. (x, s) \<in> L \<longrightarrow> (x, s) \<noteq> (index, r) \<longrightarrow>
      apart (unat x) s (unat (merge_lo index m)) (unat index + r - unat (merge_lo index m)))"
  proof (cases "bt_prev index m")
    case None
    then have "merge_lo index m = index" by (simp add: merge_lo_def join_prev_def)
    with I other bt_prev_None [OF None] show ?thesis by (auto simp: block_in_def)
  next
    case (Some pl)
    obtain p l where pl: "pl = (p, l)" by (cases pl)
    note P = bt_prev_Some [OF s Some [unfolded pl]]
    have le: "unat p + unat l \<le> unat index" using around(2) [OF P(1) P(2)] .
    have below: "unat j + unat k + 24 \<le> unat p" if "(j, k) \<in> set m" "(j, k) \<noteq> (p, l)" "j < index" for j k
    proof -
      have "j \<noteq> p" using that bt_sorted_inj [OF s P(1)] by blast
      with P(3) [OF that(1,3)] have "j < p" by simp
      from blocks_gap [OF ok that(1) P(1) this] show ?thesis .
    qed
    have B: "block_in e (unat p) (unat l)" using blocks_okD(3) [OF ok P(1)] .
    show ?thesis
    proof (cases "blocks_are_contiguous p l index")
      case True
      then have j: "join_prev index m = Some (p, l)" "merge_lo index m = p" by (simp_all add: merge_lo_def join_prev_def Some pl)
      have "unat index < unat p + unat l + 24" using True contiguous_nat [OF le] I by simp
      then have "apart (unat x) s (unat p) (unat index + r - unat p)" if "(x, s) \<in> L" "(x, s) \<noteq> (index, r)" for x s
        using other [OF that] le live that(1) P(1) by (intro apart_join [where l = "unat l"]) (auto simp: live_ok_def)
      with j B le below show ?thesis by (auto simp: block_in_def)
    next
      case False
      then have j: "join_prev index m = None" "merge_lo index m = index" by (simp_all add: merge_lo_def join_prev_def Some pl)
      have far: "unat p + unat l + 24 \<le> unat index" using False contiguous_nat [OF le] I by simp
      have "unat j + unat k + 24 \<le> unat index" if "(j, k) \<in> set m" "j < index" for j k
        using below [OF that(1) _ that(2)] far by (cases "(j, k) = (p, l)") auto
      with j I other show ?thesis by (auto simp: block_in_def)
    qed
  qed
  then show "8 \<le> unat (merge_lo index m) \<and> 8 dvd unat (merge_lo index m) \<and> unat (merge_lo index m) \<le> unat index"
    "(j, k) \<in> set m - set_option (join_prev index m) \<Longrightarrow> j < index \<Longrightarrow> unat j + unat k + 24 \<le> unat (merge_lo index m)"
    "(x, s) \<in> L \<Longrightarrow> (x, s) \<noteq> (index, r) \<Longrightarrow>
      apart (unat x) s (unat (merge_lo index m)) (unat index + r - unat (merge_lo index m))"
    by blast+
qed

lemma merge_right:
  assumes ok: "blocks_ok e m" and live: "live_ok e L m" and obj: "(index, unat a) \<in> L"
  shows "unat (merge_hi index a m) \<le> e \<and> 8 dvd unat (merge_hi index a m) \<and> unat index + unat a \<le> unat (merge_hi index a m)"
    and "(j, k) \<in> set m - set_option (join_next index a m) \<Longrightarrow> index < j \<Longrightarrow> unat (merge_hi index a m) + 24 \<le> unat j"
    and "(x, s) \<in> L \<Longrightarrow> (x, s) \<noteq> (index, unat a) \<Longrightarrow>
      apart (unat x) s (unat index) (unat (merge_hi index a m) - unat index)"
proof -
  note s = blocks_okD(2) [OF ok] and around = around_live [OF ok live obj]
  have I: "block_in e (unat index) (unat a)" using live obj by (auto simp: live_ok_def)
  have ua: "unat (index + a) = unat index + unat a" using I blocks_okD(1) [OF ok] by (intro unat_sum [of _ _ e]) (auto simp: block_in_def)
  have other: "apart (unat x) s (unat index) (unat a) \<and> 24 \<le> s" if "(x, s) \<in> L" "(x, s) \<noteq> (index, unat a)" for x s
    using live obj that unfolding live_ok_def block_in_def by blast
  have "unat (merge_hi index a m) \<le> e \<and> 8 dvd unat (merge_hi index a m) \<and> unat index + unat a \<le> unat (merge_hi index a m) \<and>
    (\<forall>j k. (j, k) \<in> set m - set_option (join_next index a m) \<longrightarrow> index < j \<longrightarrow> unat (merge_hi index a m) + 24 \<le> unat j) \<and>
    (\<forall>x s. (x, s) \<in> L \<longrightarrow> (x, s) \<noteq> (index, unat a) \<longrightarrow>
      apart (unat x) s (unat index) (unat (merge_hi index a m) - unat index))"
  proof (cases "bt_next index m")
    case None
    then have j: "merge_hi index a m = index + a" by (simp add: merge_hi_def join_next_def)
    with I ua other bt_next_None [OF None] show ?thesis by (auto simp: block_in_def intro: dvd_add)
  next
    case (Some nl)
    obtain n l where nl: "nl = (n, l)" by (cases nl)
    note N = bt_next_Some [OF s Some [unfolded nl]]
    have le: "unat index + unat a \<le> unat n" using around(3) [OF N(1) N(2)] .
    have above: "unat n + unat l + 24 \<le> unat j" if "(j, k) \<in> set m" "(j, k) \<noteq> (n, l)" "index < j" for j k
    proof -
      have "j \<noteq> n" using that bt_sorted_inj [OF s N(1)] by blast
      with N(3) [OF that(1,3)] have "n < j" by simp
      from blocks_gap [OF ok N(1) that(1) this] show ?thesis .
    qed
    have B: "block_in e (unat n) (unat l)" using blocks_okD(3) [OF ok N(1)] .
    have un: "unat (n + l) = unat n + unat l" using B blocks_okD(1) [OF ok] by (intro unat_sum [of _ _ e]) (auto simp: block_in_def)
    show ?thesis
    proof (cases "blocks_are_contiguous index a n")
      case True
      then have j: "join_next index a m = Some (n, l)" "merge_hi index a m = n + l" by (simp_all add: merge_hi_def join_next_def Some nl)
      have "unat n < unat index + unat a + 24" using True contiguous_nat [OF le] unat_u32_lt [of n] by simp
      then have "apart (unat x) s (unat index) (unat n + unat l - unat index)" if "(x, s) \<in> L" "(x, s) \<noteq> (index, unat a)" for x s
        using other [OF that] le live that(1) N(1) by (intro apart_join [where l = "unat a"]) (auto simp: live_ok_def)
      with j B un le above show ?thesis by (auto simp: block_in_def intro: dvd_add)
    next
      case False
      then have j: "join_next index a m = None" "merge_hi index a m = index + a" by (simp_all add: merge_hi_def join_next_def Some nl)
      have far: "unat index + unat a + 24 \<le> unat n" using False contiguous_nat [OF le] unat_u32_lt [of n] by simp
      have "unat index + unat a + 24 \<le> unat j" if "(j, k) \<in> set m" "index < j" for j k
        using above [OF that(1) _ that(2)] far by (cases "(j, k) = (n, l)") auto
      with j I ua other show ?thesis by (auto simp: block_in_def intro: dvd_add)
    qed
  qed
  then show "unat (merge_hi index a m) \<le> e \<and> 8 dvd unat (merge_hi index a m) \<and> unat index + unat a \<le> unat (merge_hi index a m)"
    "(j, k) \<in> set m - set_option (join_next index a m) \<Longrightarrow> index < j \<Longrightarrow> unat (merge_hi index a m) + 24 \<le> unat j"
    "(x, s) \<in> L \<Longrightarrow> (x, s) \<noteq> (index, unat a) \<Longrightarrow> apart (unat x) s (unat index) (unat (merge_hi index a m) - unat index)"
    by blast+
qed

lemma merge_blocks_ok:
  assumes ok: "blocks_ok e m" and live: "live_ok e L m" and obj: "(index, unat a) \<in> L"
  shows "blocks_ok e (merge_blocks index a m)" and "live_ok e (L - {(index, unat a)}) (merge_blocks index a m)"
proof -
  note s = blocks_okD(2) [OF ok] and around = around_live [OF ok live obj]
  note left = merge_left [OF ok live obj] and right = merge_right [OF ok live obj]
  let ?lo = "merge_lo index m" and ?hi = "merge_hi index a m"
  have I: "block_in e (unat index) (unat a)" using live obj by (auto simp: live_ok_def)
  have new: "(index, l) \<notin> set m" for l using around(1) by blast
  note set = merge_blocks_set(1) [OF s new, of a] and sorted = merge_blocks_set(2) [OF s new, of a]
  have "?lo \<le> ?hi" using left(1) right(1) by (simp add: word_le_nat_alt)
  then have len: "unat (?hi - ?lo) = unat ?hi - unat ?lo" by (rule unat_diff_u32)
  have sum: "unat ?lo + unat (?hi - ?lo) = unat ?hi" using left(1) right(1) len by simp
  show "blocks_ok e (merge_blocks index a m)"
  proof (rule blocks_replace [OF ok sorted set])
    show "block_in e (unat ?lo) (unat (?hi - ?lo))"
      using left(1) right(1) I sum len by (auto simp: block_in_def intro: dvd_diff_nat)
    fix i l assume i: "(i, l) \<in> set m - merge_gone index a m"
    with around(1) [of i l] consider "i < index" | "index < i" by (metis DiffD1 linorder_neqE)
    then show "unat i + unat l + 24 \<le> unat ?lo \<or> unat ?lo + unat (?hi - ?lo) + 24 \<le> unat i"
      unfolding sum using left(2) [of i l] right(2) [of i l] i by cases (auto simp: merge_gone_def)
  qed
  have hull: "apart (unat x) r (unat ?lo) (unat (?hi - ?lo))" if "(x, r) \<in> L" "(x, r) \<noteq> (index, unat a)" for x r
  proof -
    have "unat index + (unat ?hi - unat index) - unat ?lo = unat (?hi - ?lo)" using len left(1) right(1) by simp
    moreover have "apart (unat x) r (unat ?lo) (unat index + (unat ?hi - unat index) - unat ?lo)"
      using I left(1) right(1) by (intro apart_union [OF left(3) [OF that] right(3) [OF that]]) (auto simp: block_in_def)
    ultimately show ?thesis by simp
  qed
  show "live_ok e (L - {(index, unat a)}) (merge_blocks index a m)"
    unfolding live_ok_def set using live hull unfolding live_ok_def by blast
qed

section \<open>Rounding\<close>

lemma and_not_mask_push: "v AND NOT (mask n) = push_bit n (drop_bit n v)" for v :: "'a::len word"
  by (rule bit_word_eqI) (auto simp: bit_simps)

lemma and_not_7: "unat (v AND NOT 7) = unat v div 8 * 8" for v :: "'a::len word"
proof -
  have "(7 :: 'a word) = mask 3" by (simp add: mask_eq_exp_minus_1)
  then have "unat (v AND NOT 7) = unat (push_bit 3 (drop_bit 3 v))" by (simp only: and_not_mask_push)
  also have "\<dots> = take_bit LENGTH('a) (unat v div 8 * 8)"
    by (simp only: unsigned_push_bit_eq unsigned_drop_bit_eq) (simp add: drop_bit_eq_div push_bit_eq_mult take_bit_nat_eq_self [OF unsigned_less])
  also have "\<dots> = unat v div 8 * 8"
    by (rule take_bit_nat_eq_self) (meson div_times_less_eq_dividend le_less_trans unsigned_less)
  finally show ?thesis .
qed

end
