(* ===== verification/Free_List_Laws.thy ===== *)
theory Free_List_Laws
  imports Free_List_Blocks
begin

text \<open>
  What clients of the free list can rely on: the steps of a client, the invariant they keep, the
  invariant of a client that uses one size only, and what the list does not promise.
\<close>

unbundle bit_operations_syntax

section \<open>The initial list\<close>

text \<open>The end of the memory that can be addressed and the length of the initial block.\<close>

definition region_end :: "u64 \<Rightarrow> nat" where
  "region_end cap = min (unat cap) (2 ^ 32 - 1)"

definition region_len :: "u64 \<Rightarrow> nat" where
  "region_len cap = (region_end cap - 8) div 8 * 8"

lemma region_end_less: "region_end cap < 2 ^ 32"
  by (simp add: region_end_def)

lemma free_list_new_blocks:
  "\<exists>len. unat len = region_len cap \<and> capacity (free_list_new cap) = cap \<and>
     free_block_index_to_len (free_list_new cap) = (if 24 \<le> region_len cap then [(8, len)] else [])"
proof -
  define stop where "stop = ((if unat cap < 2 ^ 32 then of_nat (unat cap) else - 1) :: u32)"
  have stop: "unat stop = region_end cap"
    by (simp add: stop_def region_end_def unat_of_nat_u32 unsigned_minus_1_eq_mask mask_eq_exp_minus_1 del: of_nat_unat)
  define len where "len = round_u32_down_to_pow2 (saturating_sub stop ALIGN_U32) ALIGN_U32"
  have "unat (saturating_sub stop 8) = unat stop - 8"
    by (simp add: saturating_sub_def unat_diff_u32 word_le_nat_alt)
  then have len: "unat len = region_len cap"
    by (simp add: len_def round_u32_down_to_pow2_def ALIGN_U32_def and_not_7 [simplified] stop region_len_def)
  have "MIN_BLOCK_SIZE \<le> len \<longleftrightarrow> 24 \<le> region_len cap"
    by (simp add: MIN_BLOCK_SIZE_def word_le_nat_alt len)
  moreover have "free_block_index_to_len (free_list_new cap) = (if MIN_BLOCK_SIZE \<le> len then [(8, len)] else [])"
    unfolding free_list_new_def free_list_reset_def Let_def len_def stop_def ALIGN_U32_def by simp
  moreover have "capacity (free_list_new cap) = cap" by (simp add: free_list_new_def free_list_reset_def Let_def)
  ultimately show ?thesis using len by auto
qed

lemma free_list_new_ok:
  "blocks_ok (region_end cap) (free_block_index_to_len (free_list_new cap))"
proof -
  obtain len where len: "unat len = region_len cap"
    and b: "free_block_index_to_len (free_list_new cap) = (if 24 \<le> region_len cap then [(8, len)] else [])"
    using free_list_new_blocks by blast
  have "8 dvd region_len cap" "24 \<le> region_len cap \<Longrightarrow> 8 + region_len cap \<le> region_end cap"
    unfolding region_len_def by (simp, linarith)
  then show ?thesis using region_end_less [of cap] by (auto simp: b blocks_ok_def bt_sorted_def block_in_def len)
qed

section \<open>Use\<close>

text \<open>
  A client allocates with layouts it may use and frees what it has allocated, with the same
  layout. The second part of a state is what the client has in use.
\<close>

inductive fl_step :: "(layout \<Rightarrow> bool) \<Rightarrow> free_list \<times> (u32 \<times> layout) set \<Rightarrow> free_list \<times> (u32 \<times> layout) set \<Rightarrow> bool"
  for P where
  alloc: "P lay \<Longrightarrow> free_list_alloc lay fl = (Ok (Some i), fl') \<Longrightarrow> fl_step P (fl, L) (fl', insert (i, lay) L)"
| refuse: "P lay \<Longrightarrow> free_list_alloc lay fl = (r, fl') \<Longrightarrow> (\<And>i. r \<noteq> Ok (Some i)) \<Longrightarrow> fl_step P (fl, L) (fl', L)"
| dealloc: "(i, lay) \<in> L \<Longrightarrow> free_list_dealloc i lay fl = (r, fl') \<Longrightarrow> fl_step P (fl, L) (fl', L - {(i, lay)})"

inductive_cases fl_stepE: "fl_step P (fl, L) (fl', L')"

definition sizes :: "(u32 \<times> layout) set \<Rightarrow> (u32 \<times> nat) set" where
  "sizes L = (\<lambda>(i, lay). (i, rounded lay)) ` L"

definition fl_ok :: "u64 \<Rightarrow> free_list \<times> (u32 \<times> layout) set \<Rightarrow> bool" where
  "fl_ok cap st = (case st of (fl, L) \<Rightarrow> capacity fl = cap \<and> blocks_ok (region_end cap) (free_block_index_to_len fl) \<and>
     live_ok (region_end cap) (sizes L) (free_block_index_to_len fl) \<and>
     (\<forall>i lay. (i, lay) \<in> L \<longrightarrow> is_ok (check_layout fl lay)) \<and> (\<forall>i lay lay'. (i, lay) \<in> L \<longrightarrow> (i, lay') \<in> L \<longrightarrow> lay = lay'))"

lemma fl_okD:
  assumes "fl_ok cap (fl, L)"
  shows "capacity fl = cap" "blocks_ok (region_end cap) (free_block_index_to_len fl)"
    "live_ok (region_end cap) (sizes L) (free_block_index_to_len fl)"
    "(i, lay) \<in> L \<Longrightarrow> is_ok (check_layout fl lay)" "(i, lay) \<in> L \<Longrightarrow> (i, lay') \<in> L \<Longrightarrow> lay = lay'"
  using assms unfolding fl_ok_def prod.case by blast+

lemma check_layout_cong: "capacity fl = capacity fl' \<Longrightarrow> check_layout fl lay = check_layout fl' lay"
  by (simp add: check_layout_def max_size_def)

lemma alloc_unfold:
  "free_list_alloc lay fl =
     (case check_layout fl lay of
        Err e \<Rightarrow> (Err e, fl)
      | Panic \<Rightarrow> (Panic, fl)
      | Ok a \<Rightarrow>
          (case first_fit a (free_block_index_to_len fl) of
             None \<Rightarrow> (Ok None, fl)
           | Some ((i, l), m) \<Rightarrow> (Ok (Some i), fl\<lparr>free_block_index_to_len := snd (maybe_split a i l m)\<rparr>)))"
  by (auto simp: free_list_alloc_def split: outcome.splits option.splits prod.splits)

lemma alloc_SomeE:
  assumes "free_list_alloc lay fl = (Ok (Some i), fl')"
  obtains a l where "check_layout fl lay = Ok a" "(i, l) \<in> set (free_block_index_to_len fl)" "a \<le> l"
    "fl' = fl\<lparr>free_block_index_to_len := snd (maybe_split a i l (bt_remove i (free_block_index_to_len fl)))\<rparr>"
proof -
  let ?m = "free_block_index_to_len fl"
  from assms obtain a l where a: "check_layout fl lay = Ok a" and ff: "first_fit a ?m = Some ((i, l), bt_remove i ?m)"
    and fl': "fl' = fl\<lparr>free_block_index_to_len := snd (maybe_split a i l (bt_remove i ?m))\<rparr>"
    by (auto simp: alloc_unfold split: outcome.splits option.splits dest: first_fit_Some(3))
  with first_fit_Some(1,2) [OF ff] that show thesis by blast
qed

lemma fl_ok_alloc:
  assumes ok: "fl_ok cap (fl, L)" and big: "16 < unat (layout_size lay)" and run: "free_list_alloc lay fl = (Ok (Some i), fl')"
  shows "fl_ok cap (fl', insert (i, lay) L)"
proof -
  let ?m = "free_block_index_to_len fl" and ?e = "region_end cap"
  from run obtain a l where a: "check_layout fl lay = Ok a" and b: "(i, l) \<in> set ?m" "a \<le> l"
    and fl': "fl' = fl\<lparr>free_block_index_to_len := snd (maybe_split a i l (bt_remove i ?m))\<rparr>" by (rule alloc_SomeE)
  note a' = check_layout_Ok [OF a]
  note blk = fl_okD(2) [OF ok] and live = fl_okD(3) [OF ok]
  have ua: "24 \<le> unat a" "8 dvd unat a" using a' big by simp_all
  note new = maybe_split_blocks [OF blk b ua]
  have B: "block_in ?e (unat i) (unat l)" using blocks_okD(3) [OF blk b(1)] .
  have la: "unat a \<le> unat l" using b(2) by (simp only: word_le_nat_alt)
  have away: "apart (unat x) r (unat i) (unat a)" if "(x, r) \<in> sizes L" for x r
    using live b(1) that la unfolding live_ok_def apart_def by fastforce
  have fresh: "(i, r) \<notin> sizes L" for r
    using away [of i r] live ua unfolding live_ok_def apart_def block_in_def by fastforce
  have split: "apart (unat x) r (unat j) (unat k)"
    if j: "(j, k) \<in> set (snd (maybe_split a i l (bt_remove i ?m)))" and x: "(x, r) \<in> insert (i, unat a) (sizes L)" for x r j k
  proof (cases "(j, k) \<in> set ?m \<and> j \<noteq> i")
    case True
    then consider "i < j" | "j < i" by (metis linorder_neqE)
    then have "apart (unat i) (unat a) (unat j) (unat k)"
      using blocks_gap [OF blk b(1), of j k] blocks_gap [OF blk _ b(1), of j k] True la by cases (auto simp: apart_def)
    with x True live show ?thesis unfolding live_ok_def by blast
  next
    case False
    with new(2) [OF j] have jk: "unat j = unat i + unat a" "unat j + unat k = unat i + unat l" by simp_all
    have "apart (unat x) r (unat i) (unat l)" if "(x, r) \<in> sizes L" using that live b(1) unfolding live_ok_def by blast
    with x jk show ?thesis by (auto simp: apart_def)
  qed
  have "live_ok ?e (insert (i, unat a) (sizes L)) (snd (maybe_split a i l (bt_remove i ?m)))"
    unfolding live_ok_def
  proof (intro conjI allI impI)
    fix x r assume "(x, r) \<in> insert (i, unat a) (sizes L)"
    then show "block_in ?e (unat x) r" using live B la ua unfolding live_ok_def block_in_def by auto
  next
    fix x r y s assume "(x, r) \<in> insert (i, unat a) (sizes L)" "(y, s) \<in> insert (i, unat a) (sizes L)" "(x, r) \<noteq> (y, s)"
    then show "apart (unat x) r (unat y) s"
      using live away apart_commute unfolding live_ok_def by blast
  qed (rule split)
  moreover have "sizes (insert (i, lay) L) = insert (i, unat a) (sizes L)" by (simp add: sizes_def a')
  moreover have "(i, lay') \<notin> L" for lay' using fresh [of "rounded lay'"] by (auto simp: sizes_def)
  moreover have "check_layout fl' l = check_layout fl l" for l by (rule check_layout_cong) (simp add: fl')
  moreover have "capacity fl' = cap" "free_block_index_to_len fl' = snd (maybe_split a i l (bt_remove i ?m))"
    by (simp_all add: fl' fl_okD(1) [OF ok])
  moreover have "is_ok (check_layout fl lay)" by (simp add: a)
  ultimately show ?thesis
    using new(1) fl_okD(4,5) [OF ok] unfolding fl_ok_def prod.case by (metis insert_iff prod.inject)
qed

lemma live_ok_mono:
  assumes "live_ok e L m" "L' \<subseteq> L"
  shows "live_ok e L' m"
  using assms(1) subsetD [OF assms(2)] unfolding live_ok_def by (intro conjI allI impI; elim conjE; metis)

lemma fl_ok_dealloc:
  assumes ok: "fl_ok cap (fl, L)" and obj: "(i, lay) \<in> L" and run: "free_list_dealloc i lay fl = (r, fl')"
  shows "r = Ok () \<and> fl_ok cap (fl', L - {(i, lay)})"
proof -
  let ?m = "free_block_index_to_len fl" and ?e = "region_end cap"
  from fl_okD(4) [OF ok obj] obtain a where a: "check_layout fl lay = Ok a" unfolding is_ok_iff ..
  note blk = fl_okD(2) [OF ok] and live = fl_okD(3) [OF ok]
  have "(i, unat a) \<in> sizes L" using obj check_layout_Ok(1) [OF a] by (force simp: sizes_def)
  note new = merge_blocks_ok [OF blk live this]
  have "x \<in> sizes L - {(i, unat a)}" if x: "x \<in> sizes (L - {(i, lay)})" for x
  proof -
    from x obtain j lay' where j: "(j, lay') \<in> L" "(j, lay') \<noteq> (i, lay)" "x = (j, rounded lay')" by (auto simp: sizes_def)
    then have "j \<noteq> i" using fl_okD(5) [OF ok obj, of lay'] by blast
    with j show ?thesis by (force simp: sizes_def)
  qed
  then have "sizes (L - {(i, lay)}) \<subseteq> sizes L - {(i, unat a)}" by (rule subsetI)
  from live_ok_mono [OF new(2) this] have "live_ok ?e (sizes (L - {(i, lay)})) (merge_blocks i a ?m)" .
  moreover have r: "r = Ok ()" "fl' = fl\<lparr>free_block_index_to_len := merge_blocks i a ?m\<rparr>"
    using run a by (simp_all add: free_list_dealloc_def)
  moreover have "check_layout fl' l = check_layout fl l" for l by (rule check_layout_cong) (simp add: r)
  moreover have "capacity fl' = cap" "free_block_index_to_len fl' = merge_blocks i a ?m" by (simp_all add: r fl_okD(1) [OF ok])
  ultimately show ?thesis
    using new(1) fl_okD(4,5) [OF ok] unfolding fl_ok_def prod.case by (metis DiffD1)
qed

lemma fl_ok_step:
  assumes "fl_step (\<lambda>lay. 16 < unat (layout_size lay)) st st'" "fl_ok cap st"
  shows "fl_ok cap st'"
  using assms
proof (cases rule: fl_step.cases)
  case (alloc lay fl i fl' L)
  with assms(2) fl_ok_alloc show ?thesis by blast
next
  case (refuse lay fl r fl' L)
  then have "fl' = fl" by (auto simp: free_list_alloc_def split: outcome.splits option.splits prod.splits)
  with refuse assms(2) show ?thesis by simp
next
  case (dealloc i lay L fl r fl')
  with assms(2) fl_ok_dealloc show ?thesis by blast
qed

lemma fl_ok_new: "fl_ok cap (free_list_new cap, {})"
  using free_list_new_ok free_list_new_blocks [of cap] by (auto simp: fl_ok_def live_ok_def sizes_def)

section \<open>Objects of one size\<close>

text \<open>
  With one layout only, objects and free blocks start at multiples of the size; every place for an
  object is in use or in a free block.
\<close>

definition cells_ok :: "u64 \<Rightarrow> layout \<Rightarrow> free_list \<times> (u32 \<times> layout) set \<Rightarrow> bool" where
  "cells_ok cap lay0 st = (case st of (fl, L) \<Rightarrow>
     (\<forall>i lay. (i, lay) \<in> L \<longrightarrow> lay = lay0 \<and> (\<exists>j < region_len cap div rounded lay0. unat i = 8 + rounded lay0 * j)) \<and>
     (\<forall>i l. (i, l) \<in> set (free_block_index_to_len fl) \<longrightarrow>
       (\<exists>j. unat i = 8 + rounded lay0 * j) \<and> unat i + unat l \<le> 8 + region_len cap) \<and>
     (\<forall>j < region_len cap div rounded lay0. (\<exists>i. (i, lay0) \<in> L \<and> unat i = 8 + rounded lay0 * j) \<or>
       (\<exists>i l. (i, l) \<in> set (free_block_index_to_len fl) \<and> unat i \<le> 8 + rounded lay0 * j \<and>
         8 + rounded lay0 * j + rounded lay0 \<le> unat i + unat l)))"

lemma cells_okD:
  assumes "cells_ok cap lay0 (fl, L)"
  shows "(i, lay) \<in> L \<Longrightarrow> lay = lay0" "(i, lay) \<in> L \<Longrightarrow> \<exists>j < region_len cap div rounded lay0. unat i = 8 + rounded lay0 * j"
    "(i, l) \<in> set (free_block_index_to_len fl) \<Longrightarrow> \<exists>j. unat i = 8 + rounded lay0 * j"
    "(i, l) \<in> set (free_block_index_to_len fl) \<Longrightarrow> unat i + unat l \<le> 8 + region_len cap"
    "j < region_len cap div rounded lay0 \<Longrightarrow> (\<exists>i. (i, lay0) \<in> L \<and> unat i = 8 + rounded lay0 * j) \<or>
       (\<exists>i l. (i, l) \<in> set (free_block_index_to_len fl) \<and> unat i \<le> 8 + rounded lay0 * j \<and>
         8 + rounded lay0 * j + rounded lay0 \<le> unat i + unat l)"
  using assms unfolding cells_ok_def prod.case by blast+

lemma cell_bound:
  fixes a :: nat
  assumes "8 + a * j + a \<le> 8 + n" "0 < a"
  shows "j < n div a"
proof -
  have "a * (j + 1) \<le> n" using assms by simp
  then have "j + 1 \<le> n div a" using assms(2) by (simp add: less_eq_div_iff_mult_less_eq mult.commute)
  then show ?thesis by simp
qed

lemma cells_ok_new:
  assumes "24 \<le> rounded lay0"
  shows "cells_ok cap lay0 (free_list_new cap, {})"
proof -
  obtain len where len: "unat len = region_len cap"
    and b: "free_block_index_to_len (free_list_new cap) = (if 24 \<le> region_len cap then [(8, len)] else [])"
    using free_list_new_blocks by blast
  let ?a = "rounded lay0"
  have cell: "8 + ?a * j + ?a \<le> 8 + region_len cap" "24 \<le> region_len cap" if "j < region_len cap div ?a" for j
  proof -
    have "?a * (j + 1) \<le> ?a * (region_len cap div ?a)" using that by (intro mult_le_mono2) simp
    also have "\<dots> \<le> region_len cap" by simp
    finally show "8 + ?a * j + ?a \<le> 8 + region_len cap" "24 \<le> region_len cap" using assms by simp_all
  qed
  show ?thesis unfolding cells_ok_def prod.case
  proof (intro conjI allI impI)
    fix j assume "j < region_len cap div ?a"
    from cell [OF this] have "(8, len) \<in> set (free_block_index_to_len (free_list_new cap)) \<and> unat (8 :: u32) \<le> 8 + ?a * j \<and>
        8 + ?a * j + ?a \<le> unat (8 :: u32) + unat len" by (simp add: b len)
    then show "(\<exists>i. (i, lay0) \<in> {} \<and> unat i = 8 + ?a * j) \<or> (\<exists>i l. (i, l) \<in> set (free_block_index_to_len (free_list_new cap)) \<and>
        unat i \<le> 8 + ?a * j \<and> 8 + ?a * j + ?a \<le> unat i + unat l)" by blast
  next
    fix i l assume "(i, l) \<in> set (free_block_index_to_len (free_list_new cap))"
    then have "i = 8" "l = len" by (auto simp: b split: if_splits)
    then show "\<exists>j. unat i = 8 + ?a * j" "unat i + unat l \<le> 8 + region_len cap" by (auto simp: len intro: exI [of _ 0])
  qed auto
qed

lemma cells_ok_alloc:
  assumes ok: "fl_ok cap (fl, L)" and cells: "cells_ok cap lay0 (fl, L)" and big: "24 \<le> rounded lay0"
    and run: "free_list_alloc lay0 fl = (Ok (Some i), fl')"
  shows "cells_ok cap lay0 (fl', insert (i, lay0) L)"
proof -
  let ?m = "free_block_index_to_len fl" and ?a = "rounded lay0" and ?R = "region_len cap"
  from run obtain a l where a: "check_layout fl lay0 = Ok a" and b: "(i, l) \<in> set ?m" "a \<le> l"
    and fl': "fl' = fl\<lparr>free_block_index_to_len := snd (maybe_split a i l (bt_remove i ?m))\<rparr>" by (rule alloc_SomeE)
  note ua = check_layout_Ok(1) [OF a] and facts = maybe_split_set [OF fl_okD(2) [OF ok] b]
  obtain j0 where j0: "unat i = 8 + ?a * j0" using cells_okD(3) [OF cells b(1)] ..
  have e: "unat i + unat l \<le> 8 + ?R" using cells_okD(4) [OF cells b(1)] .
  have in_cell: "j0 < ?R div ?a" using e j0 facts(3) big ua by (intro cell_bound) auto
  have m': "free_block_index_to_len fl' = snd (maybe_split a i l (bt_remove i ?m))" by (simp add: fl')
  have start: "\<exists>j. unat (i + a) = 8 + ?a * j" unfolding facts(1) j0 ua by (rule exI [of _ "j0 + 1"]) simp
  have fin: "unat (i + a) + unat (l - a) \<le> 8 + ?R" using e facts(1-3) by simp
  have cover: "(\<exists>x. (x, lay0) \<in> insert (i, lay0) L \<and> unat x = 8 + ?a * j) \<or>
      (\<exists>x k. (x, k) \<in> set (free_block_index_to_len fl') \<and> unat x \<le> 8 + ?a * j \<and> 8 + ?a * j + ?a \<le> unat x + unat k)"
    if j: "j < ?R div ?a" for j
  proof (cases "\<exists>x. (x, lay0) \<in> insert (i, lay0) L \<and> unat x = 8 + ?a * j")
    case False
    then obtain x k where x: "(x, k) \<in> set ?m" "unat x \<le> 8 + ?a * j" "8 + ?a * j + ?a \<le> unat x + unat k"
      using cells_okD(5) [OF cells j] by blast
    show ?thesis
    proof (cases "(x, k) = (i, l)")
      case True
      have "j \<noteq> j0" using False j0 by blast
      with x(2) True j0 big have "j0 + 1 \<le> j" by simp
      then have "?a * (j0 + 1) \<le> ?a * j" by (rule mult_le_mono2)
      then have "(i + a, l - a) \<in> set (free_block_index_to_len fl')" "unat (i + a) \<le> 8 + ?a * j"
        "8 + ?a * j + ?a \<le> unat (i + a) + unat (l - a)"
        using x True j0 facts(1-3) big ua unfolding m' facts(4) by auto
      then show ?thesis by blast
    qed (use x facts(4) in \<open>auto simp: m'\<close>)
  qed blast
  show ?thesis
    unfolding cells_ok_def prod.case
  proof (intro conjI allI impI)
    fix x lay assume "(x, lay) \<in> insert (i, lay0) L"
    then show "lay = lay0" "\<exists>j < ?R div ?a. unat x = 8 + ?a * j" using cells_okD(1,2) [OF cells] j0 in_cell by blast+
  next
    fix x k assume "(x, k) \<in> set (free_block_index_to_len fl')"
    then have "(x, k) \<in> set ?m \<or> (x, k) = (i + a, l - a)" unfolding m' facts(4) by (auto split: if_splits)
    then show "\<exists>j. unat x = 8 + ?a * j" "unat x + unat k \<le> 8 + ?R" using cells_okD(3,4) [OF cells] start fin by blast+
  qed (rule cover)
qed

lemma join_prev_SomeD:
  assumes "bt_sorted m" "join_prev index m = Some (p, l)"
  shows "(p, l) \<in> set m" "p < index"
  using assms bt_prev_Some [OF assms(1), of index p l] by (auto simp: join_prev_def split: option.splits if_splits)

lemma join_next_SomeD:
  assumes "bt_sorted m" "join_next index a m = Some (n, l)"
  shows "(n, l) \<in> set m" "index < n"
  using assms bt_next_Some [OF assms(1), of index n l] by (auto simp: join_next_def split: option.splits if_splits)

lemma merge_interval:
  assumes blk: "blocks_ok e m" and live: "live_ok e L m" and obj: "(i, unat a) \<in> L"
  shows "unat (merge_lo i m) + unat (merge_hi i a m - merge_lo i m) = unat (merge_hi i a m)"
    "unat (i + a) = unat i + unat a"
    "(x, k) \<in> merge_gone i a m \<Longrightarrow> unat (merge_lo i m) \<le> unat x \<and> unat x + unat k \<le> unat (merge_hi i a m)"
proof -
  note left = merge_left(1) [OF blk live obj] and right = merge_right(1) [OF blk live obj]
  note s = blocks_okD(2) [OF blk] and around = around_live [OF blk live obj]
  have "merge_lo i m \<le> merge_hi i a m" using left right by (simp add: word_le_nat_alt)
  from unat_diff_u32 [OF this] show "unat (merge_lo i m) + unat (merge_hi i a m - merge_lo i m) = unat (merge_hi i a m)"
    using left right by simp
  have "unat i + unat a \<le> e" using live obj unfolding live_ok_def block_in_def by blast
  from unat_sum [OF this blocks_okD(1) [OF blk]] show "unat (i + a) = unat i + unat a" .
  assume "(x, k) \<in> merge_gone i a m"
  then consider (1) "join_prev i m = Some (x, k)" | (2) "join_next i a m = Some (x, k)" by (auto simp: merge_gone_def)
  then show "unat (merge_lo i m) \<le> unat x \<and> unat x + unat k \<le> unat (merge_hi i a m)"
  proof cases
    case 1
    from join_prev_SomeD [OF s 1] around(2) [of x k] have "unat x + unat k \<le> unat i" by blast
    with 1 right show ?thesis by (simp add: merge_lo_def)
  next
    case 2
    note x = join_next_SomeD [OF s 2]
    from x around(3) [of x k] have "unat i \<le> unat x" by fastforce
    moreover have "unat (x + k) = unat x + unat k"
      using blocks_okD(3) [OF blk x(1)] blocks_okD(1) [OF blk] by (auto simp: block_in_def intro: unat_sum)
    ultimately show ?thesis using 2 left by (simp add: merge_hi_def)
  qed
qed

lemma cells_merge:
  assumes blk: "blocks_ok e m" and live: "live_ok e L m" and obj: "(i, unat a) \<in> L"
    and i: "unat i = 8 + unat a * j" "8 + unat a * j + unat a \<le> E"
    and m: "\<And>x k. (x, k) \<in> set m \<Longrightarrow> \<exists>j. unat x = 8 + unat a * j" "\<And>x k. (x, k) \<in> set m \<Longrightarrow> unat x + unat k \<le> E"
  shows "\<exists>j. unat (merge_lo i m) = 8 + unat a * j" "unat (merge_hi i a m) \<le> E"
proof -
  note s = blocks_okD(2) [OF blk]
  show "\<exists>j. unat (merge_lo i m) = 8 + unat a * j"
    using i m(1) join_prev_SomeD(1) [OF s, of i] by (auto simp: merge_lo_def split: option.splits)
  have "unat (n + l) \<le> E" if "(n, l) \<in> set m" for n l
    using blocks_okD(3) [OF blk that] blocks_okD(1) [OF blk] m(2) [OF that] unat_sum [of n l e] by (auto simp: block_in_def)
  then show "unat (merge_hi i a m) \<le> E"
    using i merge_interval(2) [OF blk live obj] join_next_SomeD(1) [OF s, of i a] by (auto simp: merge_hi_def split: option.splits)
qed

lemma cells_ok_dealloc:
  assumes ok: "fl_ok cap (fl, L)" and cells: "cells_ok cap lay0 (fl, L)" and obj: "(i, lay) \<in> L"
    and run: "free_list_dealloc i lay fl = (r, fl')"
  shows "cells_ok cap lay0 (fl', L - {(i, lay)})"
proof -
  let ?m = "free_block_index_to_len fl" and ?a = "rounded lay0" and ?R = "region_len cap"
  let ?lo = "merge_lo i ?m"
  from fl_okD(4) [OF ok obj] obtain a where a: "check_layout fl lay = Ok a" unfolding is_ok_iff ..
  have lay: "lay = lay0" and ua: "unat a = ?a" using cells_okD(1) [OF cells obj] check_layout_Ok(1) [OF a] by simp_all
  note blk = fl_okD(2) [OF ok] and live = fl_okD(3) [OF ok]
  have obj': "(i, unat a) \<in> sizes L" using obj lay ua by (force simp: sizes_def)
  note left = merge_left(1) [OF blk live obj'] and right = merge_right(1) [OF blk live obj'] and span = merge_interval [OF blk live obj']
  let ?hi = "merge_hi i a ?m"
  have new: "(i, l) \<notin> set ?m" for l using around_live(1) [OF blk live obj'] by blast
  have m': "set (free_block_index_to_len fl') = insert (?lo, ?hi - ?lo) (set ?m - merge_gone i a ?m)"
    using run a merge_blocks_set(1) [OF blocks_okD(2) [OF blk] new, of a] by (auto simp: free_list_dealloc_def)
  obtain j0 where j0: "j0 < ?R div ?a" "unat i = 8 + ?a * j0" using cells_okD(2) [OF cells obj] by blast
  have "?a * (j0 + 1) \<le> ?R" using j0(1) by (metis Suc_eq_plus1 Suc_leI div_times_less_eq_dividend le_trans mult.commute mult_le_mono2)
  then have ends: "\<exists>j. unat ?lo = 8 + ?a * j" "unat ?hi \<le> 8 + ?R"
    using cells_merge [OF blk live obj', of j0 "8 + ?R"] j0(2) cells_okD(3,4) [OF cells] unfolding ua by simp_all
  have cover: "(\<exists>x. (x, lay0) \<in> L - {(i, lay)} \<and> unat x = 8 + ?a * j) \<or>
      (\<exists>x k. (x, k) \<in> set (free_block_index_to_len fl') \<and> unat x \<le> 8 + ?a * j \<and> 8 + ?a * j + ?a \<le> unat x + unat k)"
    if j: "j < ?R div ?a" for j
  proof -
    have inside: ?thesis if "unat ?lo \<le> 8 + ?a * j" "8 + ?a * j + ?a \<le> unat ?hi"
      using that span(1) unfolding m' by (intro disjI2 exI [of _ ?lo] exI [of _ "?hi - ?lo"]) simp
    from cells_okD(5) [OF cells j] consider (used) x where "(x, lay0) \<in> L" "unat x = 8 + ?a * j"
      | (free) x k where "(x, k) \<in> set ?m" "unat x \<le> 8 + ?a * j" "8 + ?a * j + ?a \<le> unat x + unat k" by blast
    then show ?thesis
    proof cases
      case used
      then show ?thesis using inside left right ua by (cases "x = i") auto
    next
      case free
      then show ?thesis using inside span(3) [of x k] unfolding m' by (cases "(x, k) \<in> merge_gone i a ?m") auto
    qed
  qed
  show ?thesis
    unfolding cells_ok_def prod.case
  proof (intro conjI allI impI)
    fix x k assume "(x, k) \<in> set (free_block_index_to_len fl')"
    then have "(x, k) \<in> set ?m \<or> (x, k) = (?lo, ?hi - ?lo)" unfolding m' by blast
    then show "\<exists>j. unat x = 8 + ?a * j" "unat x + unat k \<le> 8 + ?R" using cells_okD(3,4) [OF cells] ends span(1) by auto
  qed (use cells_okD(1,2) [OF cells] cover in blast)+
qed

lemma fl_ok_steps:
  assumes "(fl_step (\<lambda>lay. 16 < unat (layout_size lay)))\<^sup>*\<^sup>* (free_list_new cap, {}) st"
  shows "fl_ok cap st"
  using assms by (induction rule: rtranclp_induct) (auto intro: fl_ok_new fl_ok_step)

lemma rounded_bounds: "unat (layout_size lay) \<le> rounded lay" "16 < unat (layout_size lay) \<Longrightarrow> 24 \<le> rounded lay"
proof -
  show "unat (layout_size lay) \<le> rounded lay" unfolding rounded_def by linarith
  assume "16 < unat (layout_size lay)"
  then have "3 \<le> (unat (layout_size lay) + 7) div 8" by linarith
  then show "24 \<le> rounded lay" unfolding rounded_def by linarith
qed

lemma apart_mono: "apart i l j k \<Longrightarrow> l' \<le> l \<Longrightarrow> k' \<le> k \<Longrightarrow> apart i l' j k'"
  by (auto simp: apart_def)

lemma free_list_alloc_found:
  assumes "check_layout fl lay = Ok a"
  shows "case find (\<lambda>(_, len). a \<le> len) (free_block_index_to_len fl) of
      None \<Rightarrow> free_list_alloc lay fl = (Ok None, fl) | Some _ \<Rightarrow> (\<exists>i fl'. free_list_alloc lay fl = (Ok (Some i), fl'))"
  using assms by (auto simp: free_list_alloc_def first_fit_def split: option.splits prod.splits)

lemma alloc_fresh:
  assumes ok: "fl_ok cap (fl, L)" and run: "free_list_alloc lay fl = (Ok (Some i), fl')" and big: "16 < unat (layout_size lay)"
  shows "(i, lay) \<notin> L"
proof
  assume "(i, lay) \<in> L"
  then have obj: "(i, rounded lay) \<in> sizes L" by (force simp: sizes_def)
  from run obtain a l where a: "check_layout fl lay = Ok a" and b: "(i, l) \<in> set (free_block_index_to_len fl)" "a \<le> l"
    by (rule alloc_SomeE)
  have "unat a \<le> unat l" using b(2) by (simp only: word_le_nat_alt)
  moreover have "apart (unat i) (rounded lay) (unat i) (unat l)"
    using fl_okD(3) [OF ok] obj b(1) unfolding live_ok_def by blast
  ultimately show False using check_layout_Ok(1) [OF a] rounded_bounds(2) [OF big] by (simp add: apart_def)
qed

lemma cells_card:
  assumes cells: "cells_ok cap lay0 (fl, L)"
  shows "finite L \<and> card L \<le> region_len cap div rounded lay0"
proof -
  let ?n = "region_len cap div rounded lay0" and ?f = "\<lambda>(i, lay). unat (i :: u32)"
  let ?C = "(\<lambda>j. 8 + rounded lay0 * j) ` {..<?n}"
  have inj: "inj_on ?f L"
  proof (rule inj_onI)
    fix x y assume "x \<in> L" "y \<in> L" "?f x = ?f y"
    then show "x = y" using cells_okD(1) [OF cells] by (cases x; cases y) (auto simp: word_unat_eq_iff)
  qed
  have "?f ` L \<subseteq> ?C"
  proof
    fix p assume "p \<in> ?f ` L"
    then obtain i lay where "(i, lay) \<in> L" "p = unat i" by auto
    with cells_okD(2) [OF cells] show "p \<in> ?C" by auto
  qed
  moreover have "finite ?C" "card ?C \<le> ?n" using card_image_le [of "{..<?n}"] by auto
  ultimately show ?thesis
    using inj by (metis card_image card_mono finite_imageD finite_subset le_trans)
qed

lemma cells_full:
  assumes cells: "cells_ok cap lay0 (fl, L)" and pos: "0 < rounded lay0"
    and full: "\<And>i l. (i, l) \<in> set (free_block_index_to_len fl) \<Longrightarrow> unat l < rounded lay0"
  shows "region_len cap div rounded lay0 \<le> card L"
proof -
  let ?n = "region_len cap div rounded lay0" and ?f = "\<lambda>(i, lay). unat (i :: u32)"
  let ?C = "(\<lambda>j. 8 + rounded lay0 * j) ` {..<?n}"
  have "?C \<subseteq> ?f ` L"
  proof
    fix p assume "p \<in> ?C"
    then obtain j where j: "j < ?n" "p = 8 + rounded lay0 * j" by auto
    from cells_okD(5) [OF cells j(1)] obtain i where "(i, lay0) \<in> L" "unat i = p"
      using full j(2) by fastforce
    then show "p \<in> ?f ` L" by force
  qed
  then have "card ?C \<le> card L"
    using cells_card [OF cells] by (meson card_image_le card_mono finite_imageI le_trans)
  moreover have "card ?C = ?n" using pos by (subst card_image) (auto intro: inj_onI)
  ultimately show ?thesis by simp
qed

lemma cells_ok_step:
  assumes "fl_step (\<lambda>lay. lay = lay0) st st'" "fl_ok cap st \<and> cells_ok cap lay0 st" and big: "16 < unat (layout_size lay0)"
  shows "fl_ok cap st' \<and> cells_ok cap lay0 st'"
proof -
  have "fl_step (\<lambda>lay. 16 < unat (layout_size lay)) st st'"
    using assms(1) by cases (use big in \<open>auto intro: fl_step.intros\<close>)
  then have "fl_ok cap st'" using assms(2) fl_ok_step by blast
  moreover have "cells_ok cap lay0 st'"
    using assms(1)
  proof (cases rule: fl_step.cases)
    case (alloc lay fl i fl' L)
    with assms(2) rounded_bounds(2) [OF big] cells_ok_alloc show ?thesis by blast
  next
    case (refuse lay fl r fl' L)
    then have "fl' = fl" by (auto simp: free_list_alloc_def split: outcome.splits option.splits prod.splits)
    with refuse assms(2) show ?thesis by simp
  next
    case (dealloc i lay L fl r fl')
    with assms(2) cells_ok_dealloc show ?thesis by blast
  qed
  ultimately show ?thesis ..
qed

lemma cells_ok_steps:
  assumes "(fl_step (\<lambda>lay. lay = lay0))\<^sup>*\<^sup>* (free_list_new cap, {}) st" and big: "16 < unat (layout_size lay0)"
  shows "fl_ok cap st \<and> cells_ok cap lay0 st"
  using assms(1)
proof (induction rule: rtranclp_induct)
  case base
  show ?case using fl_ok_new cells_ok_new [OF rounded_bounds(2) [OF big]] by blast
next
  case (step y z)
  with cells_ok_step big show ?case by blast
qed

section \<open>Properties\<close>

text \<open>
  Claim C36. Clients that allocate more than 16 bytes at a time and free what they have: the list
  always passes its integrity check, every object in use is not null, aligned and inside the
  memory, shares no byte with another object or with a free block, and can be freed.
\<close>

theorem free_list_sound:
  assumes "(fl_step (\<lambda>lay. 16 < unat (layout_size lay)))\<^sup>*\<^sup>* (free_list_new cap, {}) (fl, L)"
  shows "check_integrity fl \<and> (\<forall>i lay. (i, lay) \<in> L \<longrightarrow>
      i \<noteq> 0 \<and> 8 dvd unat i \<and> unat i + unat (layout_size lay) \<le> unat cap \<and> fst (free_list_dealloc i lay fl) = Ok () \<and>
      (\<forall>j len. (j, len) \<in> set (free_block_index_to_len fl) \<longrightarrow> apart (unat i) (unat (layout_size lay)) (unat j) (unat len)) \<and>
      (\<forall>j lay'. (j, lay') \<in> L \<longrightarrow> j \<noteq> i \<longrightarrow> apart (unat i) (unat (layout_size lay)) (unat j) (unat (layout_size lay'))))"
proof -
  let ?m = "free_block_index_to_len fl"
  note ok = fl_ok_steps [OF assms]
  note blk = fl_okD(2) [OF ok] and live = fl_okD(3) [OF ok]
  have integ: "check_integrity fl"
    using check_blocks_ok [OF blk] fl_okD(1) [OF ok] by (simp add: check_integrity_def region_end_def)
  have sz: "(i, rounded lay) \<in> sizes L" if "(i, lay) \<in> L" for i lay using that by (force simp: sizes_def)
  have "block_in (region_end cap) (unat i) (rounded lay)" if "(i, lay) \<in> L" for i lay
    using live sz [OF that] unfolding live_ok_def by blast
  then have inside: "i \<noteq> 0 \<and> 8 dvd unat i \<and> unat i + unat (layout_size lay) \<le> unat cap" if "(i, lay) \<in> L" for i lay
    using that rounded_bounds(1) [of lay] by (fastforce simp: block_in_def region_end_def)
  have free: "fst (free_list_dealloc i lay fl) = Ok ()" if "(i, lay) \<in> L" for i lay
    using fl_ok_dealloc [OF ok that] by (metis prod.collapse)
  have blocks: "apart (unat i) (unat (layout_size lay)) (unat j) (unat len)" if "(i, lay) \<in> L" "(j, len) \<in> set ?m" for i lay j len
    using live sz [OF that(1)] that(2) unfolding live_ok_def by (blast intro: apart_mono rounded_bounds(1))
  have objs: "apart (unat i) (unat (layout_size lay)) (unat j) (unat (layout_size lay'))"
    if "(i, lay) \<in> L" "(j, lay') \<in> L" "j \<noteq> i" for i lay j lay'
  proof -
    have "apart (unat i) (rounded lay) (unat j) (rounded lay')"
      using live sz [OF that(1)] sz [OF that(2)] that(3) unfolding live_ok_def by (metis prod.inject)
    then show ?thesis by (rule apart_mono) (rule rounded_bounds(1))+
  qed
  show ?thesis using integ inside free blocks objs by simp
qed

text \<open>
  Claim C37. Objects of one size of more than 16 bytes, the use the collector makes of the list:
  allocation fails only when the memory has no place left for an object, that is after all of the
  places \<^verbatim>\<open>8 + k * size\<close> are taken, in whatever order objects were freed before.
\<close>

theorem free_list_one_size:
  assumes "(fl_step (\<lambda>lay. lay = lay0))\<^sup>*\<^sup>* (free_list_new cap, {}) (fl, L)"
    and big: "16 < unat (layout_size lay0)" and fits: "is_ok (check_layout (free_list_new cap) lay0)"
  shows "finite L \<and> card L \<le> region_len cap div rounded lay0 \<and>
    (if card L = region_len cap div rounded lay0 then fst (free_list_alloc lay0 fl) = Ok None
     else \<exists>i. fst (free_list_alloc lay0 fl) = Ok (Some i))"
proof -
  let ?n = "region_len cap div rounded lay0"
  have ok: "fl_ok cap (fl, L)" and cells: "cells_ok cap lay0 (fl, L)" using cells_ok_steps [OF assms(1) big] by simp_all
  note pos = rounded_bounds(2) [OF big] and n = cells_card [OF cells]
  have "capacity (free_list_new cap) = capacity fl" using free_list_new_blocks [of cap] fl_okD(1) [OF ok] by auto
  with fits obtain a where a: "check_layout fl lay0 = Ok a" unfolding is_ok_iff by (metis check_layout_cong)
  consider (none) "free_list_alloc lay0 fl = (Ok None, fl)" "find (\<lambda>(_, len). a \<le> len) (free_block_index_to_len fl) = None"
    | (some) i fl' where "free_list_alloc lay0 fl = (Ok (Some i), fl')"
    using free_list_alloc_found [OF a] by (auto split: option.splits)
  then show ?thesis
  proof cases
    case none
    have "unat l < rounded lay0" if "(i, l) \<in> set (free_block_index_to_len fl)" for i l
      using none(2) that check_layout_Ok(1) [OF a] by (auto simp: find_None_iff word_le_nat_alt not_le)
    then have "?n \<le> card L" using pos by (intro cells_full [OF cells]) auto
    with n have "card L = ?n" by simp
    with none n show ?thesis by simp
  next
    case some
    from cells_card [OF cells_ok_alloc [OF ok cells pos some]] n alloc_fresh [OF ok some big] have "card L < ?n" by simp
    with some n show ?thesis by simp
  qed
qed

lemma fl_step_mono:
  assumes "fl_step P st st'" "\<And>lay. P lay \<Longrightarrow> Q lay"
  shows "fl_step Q st st'"
  using assms(1) by cases (use assms(2) in \<open>auto intro: fl_step.intros\<close>)

lemma steps2: "fl_step P a b \<Longrightarrow> fl_step P b c \<Longrightarrow> (fl_step P)\<^sup>*\<^sup>* a c"
  by (meson converse_rtranclp_into_rtranclp rtranclp.rtrancl_refl)

lemma steps3: "fl_step P a b \<Longrightarrow> fl_step P b c \<Longrightarrow> fl_step P c d \<Longrightarrow> (fl_step P)\<^sup>*\<^sup>* a d"
  by (meson converse_rtranclp_into_rtranclp rtranclp.rtrancl_refl)

lemmas fl_eval = free_list_alloc_def check_layout_def max_size_def checked_next_multiple_of_def first_fit_def maybe_split_def
  free_list_dealloc_def merge_blocks_def blocks_are_contiguous_def bt_prev_def bt_next_def bt_insert_def bt_remove_def
  free_list_new_def free_list_reset_def round_u32_down_to_pow2_def round_usize_down_to_pow2_def saturating_sub_def
  ALIGN_U32_def ALIGN_USIZE_def MIN_BLOCK_SIZE_def Let_def

text \<open>A layout of some bytes, aligned to 8.\<close>

definition bytes :: "u64 \<Rightarrow> layout" where
  "bytes n = \<lparr>layout_size = n, layout_align = 8\<rparr>"

lemma bytes_sel [simp]: "layout_size (bytes n) = n" "layout_align (bytes n) = 8"
  by (simp_all add: bytes_def)

text \<open>Two objects are made and the first is freed.\<close>

lemma one_freed:
  "(fl_step (\<lambda>lay. lay = bytes 24))\<^sup>*\<^sup>* (free_list_new 256, {})
    (\<lparr>capacity = 256, free_block_index_to_len = [(8, 24), (56, 200)]\<rparr>, {(32, bytes 24)})"
proof -
  let ?fl = "\<lambda>m. \<lparr>capacity = 256, free_block_index_to_len = m\<rparr>" and ?s = "fl_step (\<lambda>lay. lay = bytes 24)"
  have 1: "?s (free_list_new 256, {}) (?fl [(32, 224)], insert (8, bytes 24) {})"
    by (rule fl_step.alloc) (simp_all add: fl_eval)
  have 2: "?s (?fl [(32, 224)], insert (8, bytes 24) {}) (?fl [(56, 200)], insert (32, bytes 24) (insert (8, bytes 24) {}))"
    by (rule fl_step.alloc) (simp_all add: fl_eval)
  have 3: "?s (?fl [(56, 200)], insert (32, bytes 24) (insert (8, bytes 24) {}))
      (?fl [(8, 24), (56, 200)], insert (32, bytes 24) (insert (8, bytes 24) {}) - {(8, bytes 24)})"
    by (rule fl_step.dealloc [where r = "Ok ()"]) (simp_all add: fl_eval)
  have "insert (32, bytes 24) (insert (8, bytes 24) {}) - {(8 :: u32, bytes 24)} = {(32, bytes 24)}" by auto
  with steps3 [OF 1 2 3] show ?thesis by simp
qed

theorem free_list_sound_witness:
  "check_integrity \<lparr>capacity = 256, free_block_index_to_len = [(8, 24), (56, 200)]\<rparr> \<and>
   fst (free_list_dealloc 32 (bytes 24) \<lparr>capacity = 256, free_block_index_to_len = [(8, 24), (56, 200)]\<rparr>) = Ok ()"
proof -
  have "fl_step (\<lambda>lay. lay = bytes 24) \<le> fl_step (\<lambda>lay. 16 < unat (layout_size lay))"
    by (auto intro: fl_step_mono)
  from free_list_sound [OF rtranclp_mono [OF this, THEN predicate2D, OF one_freed]] show ?thesis by simp
qed

theorem free_list_one_size_witness:
  "\<exists>i. fst (free_list_alloc (bytes 24) \<lparr>capacity = 256, free_block_index_to_len = [(8, 24), (56, 200)]\<rparr>) = Ok (Some i)"
proof -
  have "region_len 256 = 248" "rounded (bytes 24) = 24" "is_ok (check_layout (free_list_new 256) (bytes 24))"
    by (simp_all add: region_len_def region_end_def rounded_def fl_eval)
  with free_list_one_size [OF one_freed] show ?thesis by simp
qed

section \<open>Lists of one block\<close>

lemma unat_max_size: "unat (max_size fl) = region_len (capacity fl)"
proof -
  have "unat (min (capacity fl) 0xFFFFFFFF) = region_end (capacity fl)"
    by (auto simp: region_end_def min_def word_le_nat_alt)
  then have "unat (saturating_sub (min (capacity fl) 0xFFFFFFFF) 8) = region_end (capacity fl) - 8"
    by (simp add: saturating_sub_def word_le_nat_alt unat_sub)
  then show ?thesis
    by (simp add: max_size_def round_usize_down_to_pow2_def ALIGN_USIZE_def and_not_7 [simplified] region_len_def)
qed

lemma check_layout_fits:
  assumes "check_layout fl lay = Ok a"
  shows "unat a \<le> region_len (capacity fl)"
proof -
  from assms have "layout_size lay \<le> max_size fl" by (auto simp: check_layout_def split: if_splits)
  then have "unat (layout_size lay) \<le> region_len (capacity fl)" by (simp add: word_le_nat_alt unat_max_size)
  then have "rounded lay \<le> region_len (capacity fl)" unfolding rounded_def region_len_def by presburger
  with check_layout_Ok(1) [OF assms] show ?thesis by simp
qed

lemma check_layout_new:
  "check_layout \<lparr>capacity = cap, free_block_index_to_len = m\<rparr> lay = check_layout (free_list_new cap) lay"
  using free_list_new_blocks [of cap] by (intro check_layout_cong) auto

lemma alloc_single:
  assumes "check_layout (free_list_new cap) lay = Ok a"
  shows "free_list_alloc lay \<lparr>capacity = cap, free_block_index_to_len = [(i, l)]\<rparr> =
    (if a \<le> l then (Ok (Some i), \<lparr>capacity = cap, free_block_index_to_len = if l - a < 24 then [] else [(i + a, l - a)]\<rparr>)
     else (Ok None, \<lparr>capacity = cap, free_block_index_to_len = [(i, l)]\<rparr>))"
  using assms
  by (simp add: alloc_unfold check_layout_new first_fit_def maybe_split_def bt_insert_def bt_remove_def MIN_BLOCK_SIZE_def Let_def)

lemma merge_none: "merge_blocks i a [] = [(i, a)]"
  by (simp add: merge_blocks_def bt_prev_def bt_next_def bt_insert_def)

lemma merge_after:
  assumes "i < j" "j - (i + a) < 24"
  shows "merge_blocks i a [(j, l)] = [(i, j + l - i)]"
proof -
  from assms(1) have "\<not> j < i" by simp
  with assms show ?thesis
    by (simp add: merge_blocks_def bt_prev_def bt_next_def bt_insert_def bt_remove_def blocks_are_contiguous_def MIN_BLOCK_SIZE_def)
qed

lemma dealloc_blocks:
  assumes "check_layout (free_list_new cap) lay = Ok a"
  shows "free_list_dealloc i lay \<lparr>capacity = cap, free_block_index_to_len = m\<rparr> =
    (Ok (), \<lparr>capacity = cap, free_block_index_to_len = merge_blocks i a m\<rparr>)"
  using assms by (simp add: free_list_dealloc_def check_layout_new)

lemma new_single:
  assumes "24 \<le> region_len cap"
  obtains l where "free_list_new cap = \<lparr>capacity = cap, free_block_index_to_len = [(8, l)]\<rparr>" "unat l = region_len cap"
    "region_len cap + 8 < 2 ^ 32"
proof -
  from free_list_new_blocks [of cap] assms obtain l where l: "unat l = region_len cap" "capacity (free_list_new cap) = cap"
    "free_block_index_to_len (free_list_new cap) = [(8, l)]" by auto
  moreover have "region_len cap + 8 < 2 ^ 32"
    using assms region_end_less [of cap] unfolding region_len_def by linarith
  ultimately show thesis by (intro that [of l]) auto
qed

text \<open>
  Claim C38. What a list gets back. An object of more than 16 bytes is made and freed in an empty memory. If it
  took the whole memory or left at least 24 bytes, the list is the initial one again. Otherwise the bytes it left over
  were handed out with it and are lost: the one free block has the size of the object, and every larger object
  that fitted into the memory before does not fit any more.
\<close>

theorem free_list_roundtrip:
  assumes ok: "check_layout (free_list_new cap) lay = Ok a" and big: "16 < unat (layout_size lay)"
  shows "\<exists>fl fl'. free_list_alloc lay (free_list_new cap) = (Ok (Some 8), fl) \<and> free_list_dealloc 8 lay fl = (Ok (), fl') \<and>
    (if rounded lay = region_len cap \<or> rounded lay + 24 \<le> region_len cap then fl' = free_list_new cap
     else free_block_index_to_len fl' = [(8, a)] \<and>
       (\<forall>lay' b. check_layout (free_list_new cap) lay' = Ok b \<and> rounded lay < rounded lay' \<longrightarrow>
          fst (free_list_alloc lay' (free_list_new cap)) = Ok (Some 8) \<and> fst (free_list_alloc lay' fl') = Ok None))"
proof -
  have a: "unat a = rounded lay" "24 \<le> rounded lay" using check_layout_Ok [OF ok] big by auto
  have le: "rounded lay \<le> region_len cap"
    using check_layout_fits [OF ok] a(1) free_list_new_blocks [of cap] by auto
  with a(2) obtain l where new: "free_list_new cap = \<lparr>capacity = cap, free_block_index_to_len = [(8, l)]\<rparr>"
    and l: "unat l = region_len cap" and small: "region_len cap + 8 < 2 ^ 32" using new_single [of cap] by auto
  let ?fl = "\<lambda>m. \<lparr>capacity = cap, free_block_index_to_len = m\<rparr>"
  have al: "a \<le> l" using le by (simp add: word_le_nat_alt a l)
  have d: "l - a < 24 \<longleftrightarrow> region_len cap < rounded lay + 24" using le
    by (simp add: word_less_nat_alt unat_diff_u32 [OF al] a l) linarith
  have after: "8 < 8 + a" using a le small by (simp add: word_less_nat_alt unat_plus_if')
  show ?thesis
  proof (cases "region_len cap < rounded lay + 24")
    case True
    have fl: "free_list_alloc lay (free_list_new cap) = (Ok (Some 8), ?fl [])"
      using alloc_single [OF ok, of 8 l] al d True by (simp add: new)
    have fl': "free_list_dealloc 8 lay (?fl []) = (Ok (), ?fl [(8, a)])"
      using dealloc_blocks [OF ok, of 8] by (simp add: merge_none)
    have "fst (free_list_alloc lay' (free_list_new cap)) = Ok (Some 8) \<and> fst (free_list_alloc lay' (?fl [(8, a)])) = Ok None"
      if b: "check_layout (free_list_new cap) lay' = Ok b" "rounded lay < rounded lay'" for lay' b
    proof -
      have "b \<le> l" "\<not> b \<le> a"
        using check_layout_fits [OF b(1)] check_layout_Ok(1) [OF b(1)] b(2) by (simp_all add: word_le_nat_alt a l new)
      with alloc_single [OF b(1), of 8 l] alloc_single [OF b(1), of 8 a] show ?thesis by (simp add: new)
    qed
    moreover have "a = l" if "rounded lay = region_len cap" using that a(1) l by (simp add: word_unat_eq_iff)
    ultimately show ?thesis using fl fl' True by (intro exI [of _ "?fl []"] exI [of _ "?fl [(8, a)]"]) (auto simp: new)
  next
    case False
    have "free_list_alloc lay (free_list_new cap) = (Ok (Some 8), ?fl [(8 + a, l - a)])"
      using alloc_single [OF ok, of 8 l] al d False by (simp add: new)
    moreover have "free_list_dealloc 8 lay (?fl [(8 + a, l - a)]) = (Ok (), free_list_new cap)"
      using dealloc_blocks [OF ok, of 8] merge_after [OF after, of a "l - a"] by (simp add: new)
    ultimately show ?thesis using False by auto
  qed
qed

theorem free_list_roundtrip_witness:
  "\<exists>fl fl'. free_list_alloc (bytes 24) (free_list_new 48) = (Ok (Some 8), fl) \<and> free_list_dealloc 8 (bytes 24) fl = (Ok (), fl') \<and>
     fst (free_list_alloc (bytes 40) (free_list_new 48)) = Ok (Some 8) \<and> fst (free_list_alloc (bytes 40) fl') = Ok None"
proof -
  have c: "check_layout (free_list_new 48) (bytes 24) = Ok 24" "check_layout (free_list_new 48) (bytes 40) = Ok 40"
    by (simp_all add: fl_eval)
  have "region_len 48 = 40" "rounded (bytes 24) = 24" "rounded (bytes 40) = 40"
    by (simp_all add: region_len_def region_end_def rounded_def)
  with free_list_roundtrip [OF c(1)] c(2) show ?thesis by force
qed




end
