(* ===== verification/Spec2Isabelle.thy ===== *)
theory Spec2Isabelle
  imports NN_Witx Guest_Inference WASI_Preview0 WASI_Poll_Laws WASI_Sync_Laws Launcher Scripts Free_List_Laws
begin

text \<open>
  Verification of wasm-ml-benchmark, a benchmark of machine-learning inference in WebAssembly.

  \<^bold>\<open>The program.\<close> \<^verbatim>\<open>scripts/build.c\<close> builds a WebAssembly module (\<^verbatim>\<open>wasm-module/src/main.rs\<close>) and a launcher
  (\<^verbatim>\<open>wasmtime-custom/src/main.rs\<close>); \<^verbatim>\<open>scripts/benchmark.c\<close> runs the launcher a number of times. The launcher makes
  a Wasmtime engine, registers the host functions of WASI (\<^verbatim>\<open>crates/wasi-common\<close>) and of the
  machine-learning interface (\<^verbatim>\<open>crates/wasi-nn\<close>) in a linker, opens two directories for the module,
  instantiates it and calls its \<^verbatim>\<open>main\<close>. The module loads an ONNX model and an image, turns the image into a
  tensor, has the host run the model and prints the class and the times of the phases. All data between module
  and host passes through the module's memory, which the host accesses with \<^verbatim>\<open>crates/wiggle\<close>.

  \<^bold>\<open>The theories,\<close> in the order of the calls from the inside out. Paths are below \<^verbatim>\<open>src\<close>, those
  that begin with \<^verbatim>\<open>crates\<close> below \<^verbatim>\<open>src/wasmtime-repo\<close>.

  \<^item> \<open>Prelude\<close>: machine integers, the results of Rust calls (\<open>Ok\<close>, \<open>Err\<close>, \<open>Panic\<close>), the little-endian encoding.
  \<^item> \<open>Wiggle_Memory\<close>: \<^verbatim>\<open>crates/wiggle/src\<close> (\<^verbatim>\<open>GuestMemory\<close>, \<^verbatim>\<open>GuestPtr\<close>, \<^verbatim>\<open>GuestType\<close>, regions). The module's memory is a list of bytes with
    its address and whether it is shared; a pointer is an offset with the size of its target. Reads and writes
    of each type are inverse and stay in bounds (locales \<open>transparent_type\<close>, \<open>guest_type_laws\<close>).
  \<^item> \<open>Handle_Tables\<close>: the locale \<open>handle_table\<close>, the contract of the tables of handles, interpreted for the table of
    wasi-nn and for the table of descriptors.
  \<^item> \<open>NN_Context\<close>, \<open>NN_Onnx\<close>, \<open>NN_Witx\<close>: \<^verbatim>\<open>crates/wasi-nn/src\<close> (\<^verbatim>\<open>ctx.rs\<close>, \<^verbatim>\<open>lib.rs\<close>, \<^verbatim>\<open>registry\<close>, \<^verbatim>\<open>backend/onnxruntime.rs\<close>,
    \<^verbatim>\<open>witx.rs\<close>, \<^verbatim>\<open>wit.rs\<close>). Graphs and execution contexts are in tables of handles; a backend is a record of methods
    with the contract \<open>nn_backend_laws\<close>. A sequence of calls runs the session built from the module's bytes
    on the tensor in its memory and stores exactly the output; handles are sound, contexts are isolated and
    output is confined to its buffer.
  \<^item> \<open>F32\<close>: the arithmetic of \<^verbatim>\<open>f32\<close> the module uses, by exact rounding of rationals.
  \<^item> \<open>Guest_Tracker\<close>, \<open>Guest_Inference\<close>: \<^verbatim>\<open>wasm-module/src/main.rs\<close>. The layout of the tensor, the class chosen,
    the time of a phase as the sum of its operations, that measuring does not panic, and what \<^verbatim>\<open>main\<close> prints.
  \<^item> \<open>WASI_Types\<close>, \<open>WASI_Table\<close>, \<open>WASI_Ctx\<close>: \<^verbatim>\<open>crates/wasi-common/src\<close>: error numbers, flags, rights; the table of
    descriptors, which implements a finite map; strings of the module, pipes, clocks, the context and its builder.
    Files and directories of the host are values of type variables with records of methods over a world. A
    call is a function from a state to a result and a state (\<open>act\<close>).
  \<^item> \<open>WASI_Fd\<close>, \<open>WASI_Path\<close>, \<open>WASI_Poll\<close>: every call of \<^verbatim>\<open>snapshots/preview_1.rs\<close>. \<open>WASI_Frames\<close>: what calls leave alone
    (locale \<open>act_frame\<close>, interpreted for five relations). \<open>WASI_Calls\<close>: over any sequence of calls the table stays
    well-formed and the module comes to hold only what the host returned for objects it had; where calls write;
    what reading, writing, opening and listing do; which errors missing rights and unknown descriptors give.
  \<^item> \<open>WASI_Preview0\<close>: every call of \<^verbatim>\<open>snapshots/preview_0.rs\<close>, and that they agree with the newer ones.
  \<^item> \<open>WASI_Sched\<close>: \<^verbatim>\<open>sync/sched.rs\<close> and \<^verbatim>\<open>sync/sched/unix.rs\<close>: a poll returns with a result. \<open>WASI_Poll_Laws\<close>: \<^verbatim>\<open>poll_oneoff\<close> with this
    scheduler does not panic and reports at least one event and at most one for each subscription.
  \<^item> \<open>WASI_Sync\<close>, \<open>WASI_Sync_Laws\<close>: \<^verbatim>\<open>sync/file.rs\<close>, \<^verbatim>\<open>dir.rs\<close>, \<^verbatim>\<open>stdio.rs\<close>, \<^verbatim>\<open>net.rs\<close>: the files and directories the launcher gives to
    the module meet the contract of the calls; what is asked of the file system on opening; listing in parts.
  \<^item> \<open>Linker\<close>, \<open>Linker_Laws\<close>: \<^verbatim>\<open>crates/wasmtime/src/runtime/linker.rs\<close>. The linker implements a map from pairs of names to
    definitions (locale \<open>item_registry\<close>); imports are resolved by name, in order.
  \<^item> \<open>Launcher\<close>: \<^verbatim>\<open>wasmtime-custom/src/main.rs\<close> and the registration code generated by wiggle: which functions are
    registered, the context of the module, and what a successful run did.
  \<^item> \<open>Free_List\<close>, \<open>Free_List_Blocks\<close>, \<open>Free_List_Laws\<close>: \<^verbatim>\<open>crates/wasmtime/src/runtime/vm/gc/enabled/free_list.rs\<close>, the allocator of
    the collector's heap: objects of more than 16 bytes never overlap, allocation of one size fails only in a full heap,
    when a freed memory is whole again, and that smaller objects do overlap.
  \<^item> \<open>Scripts\<close>: \<^verbatim>\<open>scripts/build.c\<close> and \<^verbatim>\<open>scripts/benchmark.c\<close>.

  \<^bold>\<open>Conventions.\<close> The programs are built in release mode on a 64-bit little-endian Unix host, so plain arithmetic wraps
  and \<^verbatim>\<open>debug_assert!\<close> does nothing. A panic is a value. A lock is taken by one thread at a time and is not
  shown. Third-party crates (\<^verbatim>\<open>ort\<close>, \<^verbatim>\<open>image\<close>, \<^verbatim>\<open>ndarray\<close>, \<^verbatim>\<open>cap-std\<close>, \<^verbatim>\<open>system-interface\<close>, \<^verbatim>\<open>rustix\<close>) and the parts of the runtime below the
  linker are arguments, with what is documented of them as named hypotheses; witnesses instantiate
  them with concrete functions.

  \<^bold>\<open>Bounds.\<close> \<open>push_loop\<close> of the table of descriptors gets one round more than there are entries: the keys it
  passes are distinct and in use, so it ends earlier. \<open>random_loop\<close> copies at most \<open>2 ^ 16\<close> bytes a round and
  gets one round more than the buffer has such parts. \<open>wait_ready\<close> of the scheduler repeats an interrupted system
  call and may run forever: it is an optional value, and the theorem says that it returns when the interruptions
  stop. Linking and iteration are recursive over lists.

  \<^bold>\<open>Not modelled,\<close> and why:

  \<^item> the compilers (\<^verbatim>\<open>cranelift\<close>, \<^verbatim>\<open>winch\<close>, \<^verbatim>\<open>crates/cranelift\<close>, \<^verbatim>\<open>crates/winch\<close>, \<^verbatim>\<open>crates/environ\<close>): the launcher hands them the module and gets code; the
    meaning of WebAssembly and of the machine would be a development of its own;
  \<^item> the rest of the runtime (\<^verbatim>\<open>crates/wasmtime\<close>: stores, instances, memories and their allocation, traps, fibers, the
    collector besides its free list): unsafe code over raw memory, signals and system calls. It is
    an argument of the linker and of the launcher;
  \<^item> the component model, WASI 0.2, HTTP, threads, the C interface, the command line, caching and debugging
    support (\<^verbatim>\<open>crates/wasi\<close>, \<^verbatim>\<open>crates/wasi-http\<close>, \<^verbatim>\<open>crates/c-api\<close> and others): the launcher does not use them;
  \<^item> the backends OpenVINO and WinML of \<^verbatim>\<open>crates/wasi-nn\<close> and the \<^verbatim>\<open>tokio\<close> variant of \<^verbatim>\<open>crates/wasi-common\<close>: not built into the launcher;
  \<^item> the formatting of numbers in printed text, the branches for Windows, tests, examples, fuzzing and documentation.
\<close>

end
